(* ===== verification/DT_Prelude.thy ===== *)
theory DT_Prelude
  imports Complex_Main
begin

text \<open>
  The prelude of the development: the meaning given to the pieces of JavaScript and of its
  standard library that the modelled services use everywhere, the type names of the model, the
  rule collections, and generic facts on lists and options.

  Numbers. A JavaScript number is modelled by a \<^typ>\<open>real\<close>; where the code itself tests
  \<open>Number.isFinite\<close> the input has the type \<open>jsnum\<close>, which adds the one value
  \<open>NonFinite\<close> for NaN and the two infinities. Rounding of IEEE doubles is not modelled. A
  timestamp is the integer number of milliseconds that \<open>Date.getTime\<close> returns. A field that
  may be \<open>null\<close> or \<open>undefined\<close> is an option, since the code tests it with
  \<open>== null\<close>.
\<close>

named_theorems geo_simps \<open>equations that evaluate the geometry on a meridian\<close>
named_theorems bound_intros \<open>non-negativity and bound facts of the modelled quantities\<close>
named_theorems frame_simps \<open>what an operation leaves unchanged\<close>

subsection \<open>Type names\<close>

type_synonym ms = int
type_synonym meters = real
type_synonym ident = string

subsection \<open>JavaScript numbers\<close>

datatype jsnum = Fin real | NonFinite

fun num_of :: "jsnum \<Rightarrow> real option" where
  "num_of (Fin x) = Some x"
| "num_of NonFinite = None"

fun isFiniteNum :: "jsnum \<Rightarrow> bool" where
  "isFiniteNum (Fin x) = True"
| "isFiniteNum NonFinite = False"

text \<open>\<open>Math.round\<close> rounds to the nearest integer, halves towards plus infinity.\<close>

definition js_round :: "real \<Rightarrow> int" where
  "js_round x = \<lfloor>x + 1 / 2\<rfloor>"

text \<open>\<open>Math.hypot\<close> of two numbers and \<open>Math.atan2\<close>.\<close>

definition js_hypot :: "real \<Rightarrow> real \<Rightarrow> real" where
  "js_hypot x y = sqrt (x\<^sup>2 + y\<^sup>2)"

definition js_atan2 :: "real \<Rightarrow> real \<Rightarrow> real" where
  "js_atan2 y x =
     (if 0 < x then arctan (y / x)
      else if x < 0 then (if 0 \<le> y then arctan (y / x) + pi else arctan (y / x) - pi)
      else if 0 < y then pi / 2 else if y < 0 then - (pi / 2) else 0)"

text \<open>Seconds between two millisecond timestamps, \<open>(b.getTime() - a.getTime()) / 1000\<close>.\<close>

definition secs_between :: "ms \<Rightarrow> ms \<Rightarrow> real" where
  "secs_between a b = real_of_int (b - a) / 1000"

lemma secs_between_self [simp]: "secs_between a a = 0"
  by (simp add: secs_between_def)

lemma secs_between_chain: "secs_between a b + secs_between b c = secs_between a c"
  by (simp add: secs_between_def field_simps)

lemma secs_between_nonneg [bound_intros]: "a \<le> b \<Longrightarrow> 0 \<le> secs_between a b"
  by (simp add: secs_between_def)

lemma js_round_of_int [simp]: "js_round (real_of_int n) = n"
  by (simp add: js_round_def)

lemma js_round_mono: "x \<le> y \<Longrightarrow> js_round x \<le> js_round y"
  unfolding js_round_def by (rule floor_mono) simp

lemma js_round_bounds: "x - 1 / 2 < real_of_int (js_round x)" "real_of_int (js_round x) \<le> x + 1 / 2"
  unfolding js_round_def by linarith+

lemma js_hypot_nonneg [bound_intros]: "0 \<le> js_hypot x y"
  by (simp add: js_hypot_def)

lemma js_hypot_commute: "js_hypot x y = js_hypot y x"
  by (simp add: js_hypot_def add.commute)

lemma js_hypot_mono:
  assumes "0 \<le> x" "x \<le> x'" "0 \<le> y" "y \<le> y'"
  shows "js_hypot x y \<le> js_hypot x' y'"
  unfolding js_hypot_def
  by (intro real_sqrt_le_mono add_mono power_mono assms)

lemma js_hypot_same: "0 \<le> x \<Longrightarrow> js_hypot x x = sqrt 2 * x"
  by (simp add: js_hypot_def real_sqrt_mult flip: mult_2)

subsection \<open>Optional fields\<close>

text \<open>The recurring expression \<open>x != null \<and> x > 0 ? x : dflt\<close>.\<close>

definition pos_or :: "real \<Rightarrow> real option \<Rightarrow> real" where
  "pos_or dflt v = (case v of Some x \<Rightarrow> if 0 < x then x else dflt | None \<Rightarrow> dflt)"

lemma pos_or_pos [bound_intros]: "0 < dflt \<Longrightarrow> 0 < pos_or dflt v"
  by (simp add: pos_or_def split: option.splits)

lemma pos_or_Some [simp]: "0 < x \<Longrightarrow> pos_or d (Some x) = x"
  by (simp add: pos_or_def)

lemma pos_or_None [simp]: "pos_or d None = d"
  by (simp add: pos_or_def)

text \<open>The expression \<open>x ?? dflt\<close>.\<close>

definition nullish :: "'a option \<Rightarrow> 'a \<Rightarrow> 'a" where
  "nullish v d = (case v of Some x \<Rightarrow> x | None \<Rightarrow> d)"

lemma nullish_simps [simp]: "nullish (Some x) d = x" "nullish None d = d"
  by (simp_all add: nullish_def)

end
