(* ===== verification/Geo.thy ===== *)
theory Geo
  imports DT_Prelude
begin

text \<open>
  The distance and noise primitives of \<open>backend/src/common/geo/geo.utils.ts\<close>: the great
  circle distance \<open>haversineDistance\<close>, the accuracy tests and the combined noise gate that
  every consumer of positions shares. The laws the consumers rely on are the locale
  \<open>geo_metric\<close>, interpreted at the end on the code's own distance.
\<close>

subsection \<open>Constants\<close>

definition GPS_ACCURACY_FALLBACK_M :: real where "GPS_ACCURACY_FALLBACK_M = 25"
definition GPS_UNUSABLE_ACCURACY_M :: real where "GPS_UNUSABLE_ACCURACY_M = 80"
definition GPS_NOISE_SIGMA_K :: real where "GPS_NOISE_SIGMA_K = 2"
definition GPS_NOISE_FLOOR_M :: real where "GPS_NOISE_FLOOR_M = 4"
definition GPS_NOISE_MAX_ACCURACY_SCALE :: real where "GPS_NOISE_MAX_ACCURACY_SCALE = 3 / 2"
definition SPEED_TRUST_MAX_ACCURACY_M :: real where "SPEED_TRUST_MAX_ACCURACY_M = 70"
definition SPEED_DISTANCE_CAP_MULT :: real where "SPEED_DISTANCE_CAP_MULT = 3 / 2"
definition MOVEMENT_SPEED_THRESHOLD_MS :: real where "MOVEMENT_SPEED_THRESHOLD_MS = 1"
definition MOVEMENT_TRUST_MAX_ACCURACY_M :: real where "MOVEMENT_TRUST_MAX_ACCURACY_M = 30"
definition STATIONARY_SPEED_MS :: real where "STATIONARY_SPEED_MS = 1 / 2"
definition STATIONARY_MAX_SAMPLE_GAP_S :: real where "STATIONARY_MAX_SAMPLE_GAP_S = 60"

lemmas geo_consts =
  GPS_ACCURACY_FALLBACK_M_def GPS_UNUSABLE_ACCURACY_M_def GPS_NOISE_SIGMA_K_def
  GPS_NOISE_FLOOR_M_def GPS_NOISE_MAX_ACCURACY_SCALE_def SPEED_TRUST_MAX_ACCURACY_M_def
  SPEED_DISTANCE_CAP_MULT_def MOVEMENT_SPEED_THRESHOLD_MS_def MOVEMENT_TRUST_MAX_ACCURACY_M_def
  STATIONARY_SPEED_MS_def STATIONARY_MAX_SAMPLE_GAP_S_def

subsection \<open>The great circle distance\<close>

definition EARTH_RADIUS_M :: real where "EARTH_RADIUS_M = 6371000"

definition toRad :: "real \<Rightarrow> real" where
  "toRad deg = deg * pi / 180"

definition haversine_a :: "real \<Rightarrow> real \<Rightarrow> real \<Rightarrow> real \<Rightarrow> real" where
  "haversine_a lat1 lon1 lat2 lon2 =
     (let dLat = toRad (lat2 - lat1); dLon = toRad (lon2 - lon1)
      in (sin (dLat / 2))\<^sup>2 + cos (toRad lat1) * cos (toRad lat2) * (sin (dLon / 2))\<^sup>2)"

definition haversineDistance :: "real \<Rightarrow> real \<Rightarrow> real \<Rightarrow> real \<Rightarrow> meters" where
  "haversineDistance lat1 lon1 lat2 lon2 =
     (let a = haversine_a lat1 lon1 lat2 lon2
      in EARTH_RADIUS_M * 2 * js_atan2 (sqrt a) (sqrt (1 - a)))"

subsection \<open>Accuracy\<close>

fun isAccuracyTrustworthy :: "real option \<Rightarrow> bool" where
  "isAccuracyTrustworthy None = True"
| "isAccuracyTrustworthy (Some a) = (a \<le> MOVEMENT_TRUST_MAX_ACCURACY_M)"

definition combinedGpsNoiseGate :: "real option \<Rightarrow> real option \<Rightarrow> meters" where
  "combinedGpsNoiseGate accuracy1 accuracy2 =
     (let a1 = pos_or GPS_ACCURACY_FALLBACK_M accuracy1;
          a2 = pos_or GPS_ACCURACY_FALLBACK_M accuracy2
      in max GPS_NOISE_FLOOR_M ((GPS_NOISE_SIGMA_K * js_hypot a1 a2) / sqrt 2))"

subsection \<open>Properties of the distance\<close>

text \<open>The argument of the square roots, as half of one minus a cosine of the central angle.\<close>

lemma haversine_a_alt:
  "haversine_a lat1 lon1 lat2 lon2 =
     (1 - (sin (toRad lat1) * sin (toRad lat2)
           + cos (toRad lat1) * cos (toRad lat2) * cos (toRad (lon2 - lon1)))) / 2"
proof -
  have half: "(sin (x / 2))\<^sup>2 = (1 - cos x) / 2" for x :: real
    using cos_double_sin [of "x / 2"] by simp
  have sub: "toRad (lat2 - lat1) = toRad lat2 - toRad lat1"
    by (simp add: toRad_def field_simps)
  show ?thesis
    unfolding haversine_a_def Let_def half sub cos_diff by (simp add: field_simps)
qed

lemma spherical_dot_bound:
  fixes u v d :: real
  shows "\<bar>sin u * sin v + cos u * cos v * cos d\<bar> \<le> 1"
proof -
  have "\<bar>sin u * sin v + cos u * cos v * cos d\<bar>
      \<le> \<bar>sin u * sin v\<bar> + \<bar>cos u * cos v\<bar> * \<bar>cos d\<bar>"
    by (metis abs_mult abs_triangle_ineq)
  also have "\<dots> \<le> \<bar>sin u\<bar> * \<bar>sin v\<bar> + \<bar>cos u\<bar> * \<bar>cos v\<bar>"
    by (simp add: abs_mult mult_left_le)
  also have "\<dots> = \<bar>\<bar>sin u\<bar> * \<bar>sin v\<bar> + \<bar>cos u\<bar> * \<bar>cos v\<bar>\<bar>"
    by simp
  also have "\<dots> \<le> 1"
  proof -
    have "0 \<le> (\<bar>sin u\<bar> - \<bar>sin v\<bar>)\<^sup>2" "0 \<le> (\<bar>cos u\<bar> - \<bar>cos v\<bar>)\<^sup>2"
      by simp_all
    then have "2 * (\<bar>sin u\<bar> * \<bar>sin v\<bar>) \<le> (sin u)\<^sup>2 + (sin v)\<^sup>2"
        "2 * (\<bar>cos u\<bar> * \<bar>cos v\<bar>) \<le> (cos u)\<^sup>2 + (cos v)\<^sup>2"
      by (simp_all add: power2_diff)
    then have "2 * (\<bar>sin u\<bar> * \<bar>sin v\<bar>) + 2 * (\<bar>cos u\<bar> * \<bar>cos v\<bar>) \<le> 2"
      using sin_cos_squared_add [of u] sin_cos_squared_add [of v] by linarith
    then show ?thesis by simp
  qed
  finally show ?thesis .
qed

lemma haversine_a_range:
  "0 \<le> haversine_a lat1 lon1 lat2 lon2" "haversine_a lat1 lon1 lat2 lon2 \<le> 1"
  unfolding haversine_a_alt
  using spherical_dot_bound [of "toRad lat1" "toRad lat2" "toRad (lon2 - lon1)"]
  by (simp_all add: abs_le_iff)

lemma haversine_a_commute: "haversine_a lat1 lon1 lat2 lon2 = haversine_a lat2 lon2 lat1 lon1"
proof -
  have "toRad (lon2 - lon1) = - toRad (lon1 - lon2)"
    by (simp add: toRad_def field_simps)
  then show ?thesis
    unfolding haversine_a_alt by (simp add: mult.commute mult.left_commute)
qed

lemma haversine_a_self [simp]: "haversine_a lat lon lat lon = 0"
  by (simp add: haversine_a_def toRad_def)

lemma js_atan2_quadrant:
  assumes "0 \<le> y" "0 \<le> x"
  shows "0 \<le> js_atan2 y x" "js_atan2 y x \<le> pi / 2"
  using assms arctan_bounded [of "y / x"]
  by (auto simp: js_atan2_def less_imp_le zero_le_arctan_iff)

lemma js_atan2_sin_cos:
  assumes "0 \<le> t" "t \<le> pi / 2"
  shows "js_atan2 (sin t) (cos t) = t"
proof (cases "t = pi / 2")
  case True
  then show ?thesis by (simp only: js_atan2_def sin_pi_half cos_pi_half) simp
next
  case False
  with assms have "t < pi / 2" "0 < cos t" by (auto intro!: cos_gt_zero_pi)
  with assms have "arctan (tan t) = t" by (intro arctan_unique) auto
  with \<open>0 < cos t\<close> show ?thesis by (simp add: js_atan2_def tan_def)
qed

lemma haversineDistance_arcsin:
  "haversineDistance lat1 lon1 lat2 lon2 =
     EARTH_RADIUS_M * 2 * arcsin (sqrt (haversine_a lat1 lon1 lat2 lon2))"
proof -
  let ?a = "haversine_a lat1 lon1 lat2 lon2"
  let ?t = "arcsin (sqrt ?a)"
  have a: "0 \<le> sqrt ?a" "sqrt ?a \<le> 1"
    using haversine_a_range by simp_all
  then have t: "0 \<le> ?t" "?t \<le> pi / 2"
    using arcsin_le_arcsin [of 0 "sqrt ?a"] arcsin_bounded [of "sqrt ?a"]
    by (simp_all add: order_trans [OF _ a(1)])
  have "-1 \<le> sqrt ?a" by (rule order_trans [OF _ a(1)]) simp
  with a have "sin ?t = sqrt ?a" "cos ?t = sqrt (1 - ?a)"
    using haversine_a_range [of lat1 lon1 lat2 lon2] by (simp_all add: cos_arcsin)
  then have "js_atan2 (sqrt ?a) (sqrt (1 - ?a)) = ?t"
    using js_atan2_sin_cos [OF t] by simp
  then show ?thesis by (simp add: haversineDistance_def Let_def)
qed

lemma haversineDistance_nonneg [simp, bound_intros]: "0 \<le> haversineDistance lat1 lon1 lat2 lon2"
  using js_atan2_quadrant(1) [of "sqrt (haversine_a lat1 lon1 lat2 lon2)"
      "sqrt (1 - haversine_a lat1 lon1 lat2 lon2)"] haversine_a_range [of lat1 lon1 lat2 lon2]
  by (simp add: haversineDistance_def Let_def EARTH_RADIUS_M_def)

lemma haversineDistance_le: "haversineDistance lat1 lon1 lat2 lon2 \<le> EARTH_RADIUS_M * pi"
  using js_atan2_quadrant(2) [of "sqrt (haversine_a lat1 lon1 lat2 lon2)"
      "sqrt (1 - haversine_a lat1 lon1 lat2 lon2)"] haversine_a_range [of lat1 lon1 lat2 lon2]
  by (simp add: haversineDistance_def Let_def EARTH_RADIUS_M_def)

lemma haversineDistance_commute:
  "haversineDistance lat1 lon1 lat2 lon2 = haversineDistance lat2 lon2 lat1 lon1"
  by (simp add: haversineDistance_def haversine_a_commute [of lat1])

lemma haversineDistance_self [simp]: "haversineDistance lat lon lat lon = 0"
  by (simp add: haversineDistance_arcsin)

text \<open>On a meridian the code's formula is the length of the arc.\<close>

lemma haversineDistance_meridian:
  assumes "\<bar>lat2 - lat1\<bar> \<le> 180"
  shows "haversineDistance lat1 lon lat2 lon = EARTH_RADIUS_M * \<bar>toRad (lat2 - lat1)\<bar>"
proof -
  define t where "t = \<bar>toRad (lat2 - lat1)\<bar> / 2"
  have "\<bar>toRad (lat2 - lat1)\<bar> = \<bar>lat2 - lat1\<bar> * (pi / 180)"
    by (simp add: toRad_def abs_mult)
  also have "\<dots> \<le> 180 * (pi / 180)"
    by (rule mult_right_mono [OF assms]) simp
  finally have t: "0 \<le> t" "t \<le> pi / 2"
    by (simp_all add: t_def)
  have "\<bar>sin (toRad (lat2 - lat1) / 2)\<bar> = sin t"
  proof (cases "0 \<le> toRad (lat2 - lat1)")
    case True
    with t show ?thesis by (simp add: t_def sin_ge_zero)
  next
    case False
    then have "toRad (lat2 - lat1) / 2 = - t" by (simp add: t_def)
    with t show ?thesis by (simp add: sin_ge_zero)
  qed
  then have "sqrt (haversine_a lat1 lon lat2 lon) = sin t"
    by (simp add: haversine_a_def toRad_def)
  moreover have "arcsin (sin t) = t"
    using t by (intro arcsin_sin) auto
  ultimately show ?thesis
    by (simp add: haversineDistance_arcsin t_def)
qed

text \<open>
  The latitude that is \<open>m\<close> metres north of the equator; between two such latitudes on one
  meridian the distance is the difference of the metres, which lets concrete traces be evaluated.
\<close>

definition north :: "meters \<Rightarrow> real" where
  "north m = m * 180 / (pi * EARTH_RADIUS_M)"

lemma north_diff: "toRad (north b - north a) = (b - a) / EARTH_RADIUS_M"
  by (simp add: north_def toRad_def field_simps EARTH_RADIUS_M_def)

lemma haversine_north [geo_simps]:
  assumes "\<bar>b - a\<bar> \<le> 12000000"
  shows "haversineDistance (north a) lon (north b) lon = \<bar>b - a\<bar>"
proof -
  have "north b - north a = (b - a) * (180 / (pi * EARTH_RADIUS_M))"
    by (simp add: north_def EARTH_RADIUS_M_def field_simps)
  then have "\<bar>north b - north a\<bar> = \<bar>b - a\<bar> * (180 / (pi * EARTH_RADIUS_M))"
    by (simp only: abs_mult) (simp add: EARTH_RADIUS_M_def)
  also have "\<dots> \<le> 12000000 * (180 / (pi * EARTH_RADIUS_M))"
    by (rule mult_right_mono [OF assms]) (simp add: EARTH_RADIUS_M_def)
  also have "\<dots> \<le> 180"
    using pi_ge_two by (simp add: EARTH_RADIUS_M_def field_simps)
  finally have "haversineDistance (north a) lon (north b) lon
      = EARTH_RADIUS_M * \<bar>toRad (north b - north a)\<bar>"
    by (rule haversineDistance_meridian)
  then show ?thesis by (simp add: north_diff abs_divide EARTH_RADIUS_M_def)
qed

lemma north_mean [geo_simps]:
  "(north a * k + north b) / k' = north ((a * k + b) / k')"
  by (simp add: north_def field_simps add_divide_distrib)

subsection \<open>Properties of the noise gate\<close>

lemma combinedGpsNoiseGate_floor [bound_intros]: "4 \<le> combinedGpsNoiseGate x y"
  by (simp add: combinedGpsNoiseGate_def Let_def geo_consts)

lemma combinedGpsNoiseGate_pos [simp, bound_intros]: "0 < combinedGpsNoiseGate x y"
  using combinedGpsNoiseGate_floor [of x y] by simp

lemma combinedGpsNoiseGate_commute: "combinedGpsNoiseGate x y = combinedGpsNoiseGate y x"
  by (simp add: combinedGpsNoiseGate_def Let_def js_hypot_commute)

lemma combinedGpsNoiseGate_same [geo_simps]:
  assumes "0 < a"
  shows "combinedGpsNoiseGate (Some a) (Some a) = max 4 (2 * a)"
  using assms by (simp add: combinedGpsNoiseGate_def Let_def js_hypot_same geo_consts)

lemma combinedGpsNoiseGate_None [geo_simps]:
  "combinedGpsNoiseGate None y = combinedGpsNoiseGate (Some 25) y"
  "combinedGpsNoiseGate x None = combinedGpsNoiseGate x (Some 25)"
  by (simp_all add: combinedGpsNoiseGate_def geo_consts)

lemma combinedGpsNoiseGate_mono:
  assumes "0 < a" "a \<le> b"
  shows "combinedGpsNoiseGate (Some a) x \<le> combinedGpsNoiseGate (Some b) x"
proof -
  have "0 < pos_or 25 x" by (rule pos_or_pos) simp
  with assms have "js_hypot a (pos_or 25 x) \<le> js_hypot b (pos_or 25 x)"
    by (intro js_hypot_mono) auto
  with assms show ?thesis
    by (simp add: combinedGpsNoiseGate_def Let_def geo_consts divide_right_mono max.coboundedI2)
qed

subsection \<open>The laws the consumers of positions rely on\<close>

text \<open>The length of the polyline through a list of points: the sum of its chords.\<close>

fun chords :: "('p \<Rightarrow> 'p \<Rightarrow> real) \<Rightarrow> 'p list \<Rightarrow> real" where
  "chords d (p # q # ps) = d p q + chords d (q # ps)"
| "chords d _ = 0"

locale geo_metric =
  fixes d :: "'p \<Rightarrow> 'p \<Rightarrow> real"
  assumes d_nonneg: "0 \<le> d p q"
    and d_sym: "d p q = d q p"
    and d_self: "d p p = 0"
begin

lemma chords_nonneg: "0 \<le> chords d ps"
  by (induction ps rule: induct_list012) (auto simp: d_nonneg intro: add_nonneg_nonneg)

lemma chords_append: "chords d (ps @ p # qs) = chords d (ps @ [p]) + chords d (p # qs)"
proof (induction ps)
  case (Cons a ps)
  then show ?case by (cases ps) auto
qed simp

lemma chords_rev: "chords d (rev ps) = chords d ps"
proof (induction ps rule: induct_list012)
  case (3 p q ps)
  then show ?case
    using chords_append [of "rev ps" q "[p]"] by (simp add: d_sym)
qed simp_all

lemma chords_replicate: "chords d (replicate n p) = 0"
proof (induction n)
  case (Suc n)
  then show ?case by (cases n) (simp_all add: d_self)
qed simp

end

type_synonym point = "real \<times> real"

fun point_distance :: "point \<Rightarrow> point \<Rightarrow> meters" where
  "point_distance (lat1, lon1) (lat2, lon2) = haversineDistance lat1 lon1 lat2 lon2"

interpretation earth: geo_metric point_distance
proof unfold_locales
  fix p q :: point
  show "0 \<le> point_distance p q" by (cases p; cases q) simp
  show "point_distance p q = point_distance q p"
    by (cases p; cases q) (simp add: haversineDistance_commute)
  show "point_distance p p = 0" by (cases p) simp
qed

end
