(* ===== verification/GroundSpeed.thy ===== *)
theory GroundSpeed
  imports Geo
begin

text \<open>
  The ground speed of a fix, \<open>selectSpeedWindowRef\<close> and \<open>resolveGroundSpeed\<close> of
  \<open>backend/src/common/geo/geo.utils.ts\<close>: the single place where the four ingestion paths
  decide whether a vehicle moves. The local values of the function are the record
  \<open>pair_ctx\<close>, computed by \<open>pair_context\<close>; the window rule is \<open>window_speed\<close>;
  the decision is \<open>resolveGroundSpeed\<close>.
\<close>

definition RELIABLE_REPORTED_SPEED_MS :: real where "RELIABLE_REPORTED_SPEED_MS = 3"
definition SPEED_WINDOW_MIN_S :: real where "SPEED_WINDOW_MIN_S = 12"
definition SPEED_WINDOW_PAIR_MIN_MS :: real where "SPEED_WINDOW_PAIR_MIN_MS = 1"
definition GROUND_SPEED_MIN_DT_S :: real where "GROUND_SPEED_MIN_DT_S = 1"
definition GROUND_SPEED_MAX_DT_S :: real where "GROUND_SPEED_MAX_DT_S = 120"

lemmas speed_consts =
  RELIABLE_REPORTED_SPEED_MS_def SPEED_WINDOW_MIN_S_def SPEED_WINDOW_PAIR_MIN_MS_def
  GROUND_SPEED_MIN_DT_S_def GROUND_SPEED_MAX_DT_S_def STATIONARY_SPEED_MS_def

record ground_ref =
  ref_lat :: jsnum
  ref_lng :: jsnum
  ref_time :: ms
  ref_acc :: "real option"

datatype speed_source = Measured | Derived | ClampedZero | UnknownSource

record ground_speed =
  speedMs :: real
  source :: speed_source

text \<open>The most recent fix of the history that is old enough and not too old.\<close>

definition windowAge :: "ms \<Rightarrow> ground_ref \<Rightarrow> real" where
  "windowAge current f = secs_between (ref_time f) current"

fun pickWindowRef :: "ms \<Rightarrow> ground_ref option \<Rightarrow> ground_ref list \<Rightarrow> ground_ref option" where
  "pickWindowRef current best [] = best"
| "pickWindowRef current best (f # fs) =
     (if windowAge current f < SPEED_WINDOW_MIN_S \<or> GROUND_SPEED_MAX_DT_S < windowAge current f
      then pickWindowRef current best fs
      else case best of
             None \<Rightarrow> pickWindowRef current (Some f) fs
           | Some b \<Rightarrow>
               pickWindowRef current (Some (if ref_time b < ref_time f then f else b)) fs)"

definition selectSpeedWindowRef :: "ground_ref list \<Rightarrow> ms \<Rightarrow> ground_ref option" where
  "selectSpeedWindowRef history current = pickWindowRef current None history"

text \<open>The distance between two fixes; anything non finite in it makes it NaN.\<close>

definition refDistance :: "ground_ref \<Rightarrow> ground_ref \<Rightarrow> jsnum" where
  "refDistance p q =
     (case (ref_lat p, ref_lng p, ref_lat q, ref_lng q) of
        (Fin a, Fin b, Fin c, Fin d) \<Rightarrow> Fin (haversineDistance a b c d)
      | _ \<Rightarrow> NonFinite)"

definition usableRef :: "ground_ref option \<Rightarrow> bool" where
  "usableRef r =
     (case r of None \<Rightarrow> False | Some p \<Rightarrow> isFiniteNum (ref_lat p) \<and> isFiniteNum (ref_lng p))"

record pair_ctx =
  hasRef :: bool
  dtSec :: real
  movedMeters :: jsnum
  gate :: real
  dtPositive :: bool
  dtForDerivation :: bool
  demonstrablyStationary :: bool

definition pair_context :: "ground_ref option \<Rightarrow> ground_ref \<Rightarrow> bool \<Rightarrow> pair_ctx" where
  "pair_context previous current serverFallback =
     (let has = usableRef previous;
          dt = (case previous of
                  Some p \<Rightarrow> if has then secs_between (ref_time p) (ref_time current) else 0
                | None \<Rightarrow> 0);
          moved = (case previous of
                     Some p \<Rightarrow> if has then refDistance p current else Fin 0
                   | None \<Rightarrow> Fin 0);
          g = combinedGpsNoiseGate (Option.bind previous ref_acc) (ref_acc current);
          pos = has \<and> \<not> serverFallback \<and> 0 < dt \<and> isFiniteNum moved;
          der = pos \<and> GROUND_SPEED_MIN_DT_S \<le> dt \<and> dt \<le> GROUND_SPEED_MAX_DT_S;
          stat = pos \<and> (case moved of
                            Fin m \<Rightarrow> m < g \<or> (m + g) / dt < STATIONARY_SPEED_MS
                          | NonFinite \<Rightarrow> False)
      in \<lparr>hasRef = has, dtSec = dt, movedMeters = moved, gate = g, dtPositive = pos,
          dtForDerivation = der, demonstrablyStationary = stat\<rparr>)"

definition window_speed ::
    "ground_ref option \<Rightarrow> ground_ref \<Rightarrow> bool \<Rightarrow> pair_ctx \<Rightarrow> real option" where
  "window_speed windowPrevious current serverFallback c =
     (case windowPrevious of
        None \<Rightarrow> None
      | Some w \<Rightarrow>
          if serverFallback \<or> \<not> usableRef windowPrevious then None
          else
            (let wDt = secs_between (ref_time w) (ref_time current);
                 wGate = combinedGpsNoiseGate (ref_acc w) (ref_acc current)
             in case (refDistance w current, movedMeters c) of
                  (Fin wMoved, Fin moved) \<Rightarrow>
                    if SPEED_WINDOW_MIN_S \<le> wDt \<and> wDt \<le> GROUND_SPEED_MAX_DT_S
                       \<and> wGate < wMoved \<and> STATIONARY_SPEED_MS \<le> wMoved / wDt
                       \<and> 0 < dtSec c \<and> SPEED_WINDOW_PAIR_MIN_MS \<le> moved / dtSec c
                    then Some (wMoved / wDt) else None
                | _ \<Rightarrow> None))"

definition usableReported :: "jsnum option \<Rightarrow> real option" where
  "usableReported r =
     (case r of Some (Fin v) \<Rightarrow> if 0 < v then Some v else None | _ \<Rightarrow> None)"

definition clampedZero :: ground_speed where
  "clampedZero = \<lparr>speedMs = 0, source = ClampedZero\<rparr>"

definition reportedDecision :: "real \<Rightarrow> pair_ctx \<Rightarrow> real option \<Rightarrow> ground_speed" where
  "reportedDecision r c windowSpeed =
     (case (demonstrablyStationary c, windowSpeed) of
        (True, Some w) \<Rightarrow> \<lparr>speedMs = max r w, source = Measured\<rparr>
      | (True, None) \<Rightarrow>
          if RELIABLE_REPORTED_SPEED_MS \<le> r
             \<and> (case movedMeters c of Fin m \<Rightarrow> r * dtSec c \<le> m + gate c | NonFinite \<Rightarrow> False)
          then \<lparr>speedMs = r, source = Measured\<rparr>
          else clampedZero
      | (False, _) \<Rightarrow>
          if r < STATIONARY_SPEED_MS then clampedZero
          else \<lparr>speedMs = r, source = Measured\<rparr>)"

text \<open>Without a reported speed: the window's speed, else the one derived from the two fixes.\<close>

definition bothTrusted :: "ground_ref option \<Rightarrow> ground_ref \<Rightarrow> bool" where
  "bothTrusted r current \<longleftrightarrow>
     isAccuracyTrustworthy (Option.bind r ref_acc) \<and> isAccuracyTrustworthy (ref_acc current)"

definition pairDecision :: "ground_ref option \<Rightarrow> ground_ref \<Rightarrow> pair_ctx \<Rightarrow> ground_speed" where
  "pairDecision previous current c =
     (case movedMeters c of
        Fin m \<Rightarrow>
          if dtForDerivation c \<and> gate c \<le> m \<and> bothTrusted previous current
          then (if m / dtSec c < STATIONARY_SPEED_MS then clampedZero
                else \<lparr>speedMs = m / dtSec c, source = Derived\<rparr>)
          else \<lparr>speedMs = 0, source = (if hasRef c then ClampedZero else UnknownSource)\<rparr>
      | NonFinite \<Rightarrow>
          \<lparr>speedMs = 0, source = (if hasRef c then ClampedZero else UnknownSource)\<rparr>)"

definition derivedDecision ::
    "ground_ref option \<Rightarrow> ground_ref \<Rightarrow> ground_ref option \<Rightarrow> pair_ctx \<Rightarrow> real option
       \<Rightarrow> ground_speed" where
  "derivedDecision previous current windowPrevious c windowSpeed =
     (case windowSpeed of
        Some w \<Rightarrow>
          if bothTrusted windowPrevious current then \<lparr>speedMs = w, source = Derived\<rparr>
          else pairDecision previous current c
      | None \<Rightarrow> pairDecision previous current c)"

definition resolveGroundSpeed ::
    "jsnum option \<Rightarrow> ground_ref option \<Rightarrow> ground_ref \<Rightarrow> bool \<Rightarrow> ground_ref option
       \<Rightarrow> ground_speed" where
  "resolveGroundSpeed reportedSpeedMs previous current serverFallback windowPrevious =
     (let c = pair_context previous current serverFallback;
          w = window_speed windowPrevious current serverFallback c
      in case usableReported reportedSpeedMs of
           Some r \<Rightarrow> reportedDecision r c w
         | None \<Rightarrow> derivedDecision previous current windowPrevious c w)"

subsection \<open>The decision, branch by branch\<close>

definition still :: "ground_speed \<Rightarrow> bool" where
  "still g \<longleftrightarrow> speedMs g = 0 \<and> source g \<in> {ClampedZero, UnknownSource}"

definition moving :: "ground_speed \<Rightarrow> bool" where
  "moving g \<longleftrightarrow> STATIONARY_SPEED_MS \<le> speedMs g \<and> source g \<in> {Measured, Derived}"

lemma still_clampedZero [simp]: "still clampedZero"
  by (simp add: still_def clampedZero_def)

lemma window_speed_ge:
  "window_speed w current f c = Some v \<Longrightarrow> STATIONARY_SPEED_MS \<le> v"
  by (auto simp: window_speed_def Let_def split: option.splits jsnum.splits if_splits)

lemma reportedDecision_shape:
  assumes "\<And>v. w = Some v \<Longrightarrow> STATIONARY_SPEED_MS \<le> v"
  shows "still (reportedDecision r c w) \<or> moving (reportedDecision r c w)"
  using assms
  by (auto simp: reportedDecision_def moving_def speed_consts max.coboundedI2
      split: option.splits jsnum.splits bool.splits)

lemma pairDecision_shape: "still (pairDecision p q c) \<or> moving (pairDecision p q c)"
  by (auto simp: pairDecision_def still_def moving_def not_less clampedZero_def
      split: jsnum.splits)

lemma derivedDecision_shape:
  assumes "\<And>v. w = Some v \<Longrightarrow> STATIONARY_SPEED_MS \<le> v"
  shows "still (derivedDecision p q wp c w) \<or> moving (derivedDecision p q wp c w)"
  using assms pairDecision_shape
  by (auto simp: derivedDecision_def moving_def split: option.splits)

lemma pairDecision_untrusted:
  "ref_acc current = Some a \<Longrightarrow> MOVEMENT_TRUST_MAX_ACCURACY_M < a
     \<Longrightarrow> speedMs (pairDecision p current c) = 0"
  by (simp add: pairDecision_def bothTrusted_def split: jsnum.splits)

lemma pair_context_stationary:
  assumes "previous = Some p" "ref_lat p = Fin la" "ref_lng p = Fin lo"
    and "ref_lat current = Fin la'" "ref_lng current = Fin lo'"
    and "\<not> serverFallback" "ref_time p < ref_time current"
    and "haversineDistance la lo la' lo' < combinedGpsNoiseGate (ref_acc p) (ref_acc current)"
  shows "demonstrablyStationary (pair_context previous current serverFallback)"
    and "movedMeters (pair_context previous current serverFallback)
           = Fin (haversineDistance la lo la' lo')"
    and "gate (pair_context previous current serverFallback)
           = combinedGpsNoiseGate (ref_acc p) (ref_acc current)"
  using assms
  by (simp_all add: pair_context_def usableRef_def refDistance_def Let_def secs_between_def)

lemma pickWindowRef_spec:
  assumes "\<And>b. best = Some b \<Longrightarrow>
      SPEED_WINDOW_MIN_S \<le> windowAge now b \<and> windowAge now b \<le> GROUND_SPEED_MAX_DT_S"
  shows "case pickWindowRef now best fs of
           None \<Rightarrow> best = None \<and> (\<forall>f\<in>set fs. windowAge now f < SPEED_WINDOW_MIN_S
                                        \<or> GROUND_SPEED_MAX_DT_S < windowAge now f)
         | Some r \<Rightarrow> (best = Some r \<or> r \<in> set fs)
             \<and> SPEED_WINDOW_MIN_S \<le> windowAge now r \<and> windowAge now r \<le> GROUND_SPEED_MAX_DT_S
             \<and> (\<forall>b. best = Some b \<longrightarrow> ref_time b \<le> ref_time r)
             \<and> (\<forall>f\<in>set fs. SPEED_WINDOW_MIN_S \<le> windowAge now f
                   \<and> windowAge now f \<le> GROUND_SPEED_MAX_DT_S \<longrightarrow> ref_time f \<le> ref_time r)"
  using assms
proof (induction fs arbitrary: best)
  case Nil
  then show ?case by (cases best) auto
next
  case (Cons f fs)
  show ?case
  proof (cases "windowAge now f < SPEED_WINDOW_MIN_S \<or> GROUND_SPEED_MAX_DT_S < windowAge now f")
    case True
    then show ?thesis
      using Cons.IH [of best] Cons.prems by (auto split: option.splits)
  next
    case False
    define b' where "b' = (case best of None \<Rightarrow> f
        | Some b \<Rightarrow> if ref_time b < ref_time f then f else b)"
    have step: "pickWindowRef now best (f # fs) = pickWindowRef now (Some b') fs"
      using False by (simp add: b'_def split: option.splits)
    have b': "SPEED_WINDOW_MIN_S \<le> windowAge now b'" "windowAge now b' \<le> GROUND_SPEED_MAX_DT_S"
        "ref_time f \<le> ref_time b'" "\<And>b. best = Some b \<Longrightarrow> ref_time b \<le> ref_time b'"
        "best = Some b' \<or> b' = f"
      using False Cons.prems by (auto simp: b'_def split: option.splits)
    show ?thesis
      unfolding step using Cons.IH [of "Some b'"] b' by (fastforce split: option.splits)
  qed
qed

subsection \<open>Properties\<close>

text \<open>Whatever the device reports and whatever the two reference fixes are, the resolved ground
  speed is either exactly 0 with the source \<open>clamped_zero\<close> or \<open>unknown\<close>, or at least
  the stationary threshold (0.5 m/s) with the source \<open>measured\<close> or \<open>derived\<close>: no
  path through the function stores a noise speed between the two.\<close>

theorem resolveGroundSpeed_dichotomy:
  "still (resolveGroundSpeed reported previous current fallback window)
   \<or> moving (resolveGroundSpeed reported previous current fallback window)"
proof -
  define c where "c = pair_context previous current fallback"
  note w = window_speed_ge [of window current fallback c]
  show ?thesis
    using reportedDecision_shape [OF w] derivedDecision_shape [OF w]
    by (cases "usableReported reported") (simp_all add: resolveGroundSpeed_def flip: c_def)
qed

text \<open>The phantom speed of a parked tracker is clamped: if the position did not move by more than
  the combined noise of the two fixes, the clock is the device's, there is no window reference and
  the device reports less than 3 m/s (or nothing), the resolved speed is 0.\<close>

theorem parked_vehicle_speed_zero:
  assumes "ref_lat p = Fin la" "ref_lng p = Fin lo"
    and "ref_lat current = Fin la'" "ref_lng current = Fin lo'"
    and "ref_time p < ref_time current"
    and "haversineDistance la lo la' lo' < combinedGpsNoiseGate (ref_acc p) (ref_acc current)"
    and "\<And>v. reported = Some (Fin v) \<Longrightarrow> v < RELIABLE_REPORTED_SPEED_MS"
  shows "speedMs (resolveGroundSpeed reported (Some p) current False None) = 0"
proof -
  note ctx = pair_context_stationary [OF refl assms(1-4) _ assms(5,6), of False, simplified]
  have w: "window_speed None current False c = None" for c
    by (simp add: window_speed_def)
  show ?thesis
  proof (cases "usableReported reported")
    case None
    with ctx w assms(6) show ?thesis
      by (simp add: resolveGroundSpeed_def derivedDecision_def pairDecision_def)
  next
    case (Some r)
    then have "r < RELIABLE_REPORTED_SPEED_MS"
      using assms(7) by (auto simp: usableReported_def split: option.splits jsnum.splits if_splits)
    with Some ctx w show ?thesis
      by (simp add: resolveGroundSpeed_def reportedDecision_def clampedZero_def)
  qed
qed

text \<open>The audited case: two fixes 14 m apart at 8 m of accuracy, the tracker reporting 1.6 m/s.\<close>

theorem parked_vehicle_speed_zero_witness:
  "speedMs (resolveGroundSpeed (Some (Fin (8 / 5)))
      (Some \<lparr>ref_lat = Fin (north 0), ref_lng = Fin 47, ref_time = 0, ref_acc = Some 8\<rparr>)
      \<lparr>ref_lat = Fin (north 14), ref_lng = Fin 47, ref_time = 5000, ref_acc = Some 8\<rparr>
      False None) = 0"
  by (rule parked_vehicle_speed_zero [where la = "north 0" and lo = 47 and la' = "north 14"
        and lo' = 47]) (auto simp: geo_simps speed_consts)

text \<open>No speed is fabricated from an imprecise fix: when the device reports no usable speed and the
  current fix is worse than 30 m, the resolved speed is 0, with or without a window reference.\<close>

theorem imprecise_fix_derives_no_speed:
  assumes "usableReported reported = None"
    and "ref_acc current = Some a" "MOVEMENT_TRUST_MAX_ACCURACY_M < a"
  shows "speedMs (resolveGroundSpeed reported previous current fallback window) = 0"
proof -
  have "\<not> bothTrusted r current" for r
    using assms(2,3) by (simp add: bothTrusted_def)
  with assms show ?thesis
    by (simp add: resolveGroundSpeed_def Let_def derivedDecision_def pairDecision_untrusted
        split: option.splits)
qed

theorem imprecise_fix_derives_no_speed_witness:
  "speedMs (resolveGroundSpeed (Some NonFinite)
      (Some \<lparr>ref_lat = Fin (north 0), ref_lng = Fin 47, ref_time = 0, ref_acc = Some 10\<rparr>)
      \<lparr>ref_lat = Fin (north 900), ref_lng = Fin 47, ref_time = 20000, ref_acc = Some 45\<rparr>
      False None) = 0"
  by (rule imprecise_fix_derives_no_speed [where a = 45])
     (simp_all add: usableReported_def MOVEMENT_TRUST_MAX_ACCURACY_M_def)

text \<open>The window reference is the most recent fix of the history whose age lies between 12 s and
  120 s, whatever the order of the history.\<close>

theorem selectSpeedWindowRef_most_recent:
  assumes "selectSpeedWindowRef history now = Some r"
  shows "r \<in> set history \<and> SPEED_WINDOW_MIN_S \<le> windowAge now r
    \<and> windowAge now r \<le> GROUND_SPEED_MAX_DT_S
    \<and> (\<forall>f\<in>set history. SPEED_WINDOW_MIN_S \<le> windowAge now f
          \<and> windowAge now f \<le> GROUND_SPEED_MAX_DT_S \<longrightarrow> ref_time f \<le> ref_time r)"
  using pickWindowRef_spec [of None now history] assms by (simp add: selectSpeedWindowRef_def)

theorem selectSpeedWindowRef_most_recent_witness:
  "let f = (\<lambda>t. \<lparr>ref_lat = Fin 0, ref_lng = Fin 0, ref_time = t, ref_acc = None\<rparr>)
   in selectSpeedWindowRef [f 0, f 180000, f 150000, f 195000] 200000 = Some (f 180000)
      \<and> f 180000 \<in> set [f 0, f 180000, f 150000, f 195000]"
proof -
  define f :: "ms \<Rightarrow> ground_ref"
    where "f t = \<lparr>ref_lat = Fin 0, ref_lng = Fin 0, ref_time = t, ref_acc = None\<rparr>" for t
  have sel: "selectSpeedWindowRef [f 0, f 180000, f 150000, f 195000] 200000 = Some (f 180000)"
    by (simp add: selectSpeedWindowRef_def windowAge_def secs_between_def speed_consts f_def)
  show ?thesis
    using sel selectSpeedWindowRef_most_recent [OF sel] unfolding f_def Let_def by blast
qed

end
