(* ===== verification/StopWindows.thy ===== *)
theory StopWindows
  imports Geo "HOL-Library.Sublist"
begin

text \<open>
  Stops in a chronological trace, \<open>detectStopWindows\<close> and \<open>collapseStationaryWindows\<close>
  of \<open>backend/src/common/geo/geo.utils.ts\<close>. The two nested index loops are the recursions
  \<open>growStop\<close> (inner, moves \<open>j\<close> and the running centre) and \<open>stopsFrom\<close> (outer, moves
  \<open>i\<close>); the copying loop of the collapse is \<open>collapseFrom\<close>.
\<close>

definition STOP_CLUSTER_RADIUS_M :: real where "STOP_CLUSTER_RADIUS_M = 50"
definition STOP_CLUSTER_MIN_DURATION_S :: real where "STOP_CLUSTER_MIN_DURATION_S = 60"

lemmas stop_consts =
  STOP_CLUSTER_RADIUS_M_def STOP_CLUSTER_MIN_DURATION_S_def STATIONARY_MAX_SAMPLE_GAP_S_def
  MOVEMENT_SPEED_THRESHOLD_MS_def

record gps_fix =
  fx_lat :: real
  fx_lng :: real
  fx_time :: "ms option"
  fx_speed :: "real option"
  fx_acc :: "real option"

record stop_window =
  startIndex :: nat
  endIndex :: nat
  w_lat :: real
  w_lng :: real
  durationSec :: real

text \<open>The non-null timestamp \<open>positions[j].timestamp!\<close>, read only after the null test.\<close>

definition timeOf :: "gps_fix \<Rightarrow> ms" where
  "timeOf f = nullish (fx_time f) 0"

definition movingHere :: "gps_fix \<Rightarrow> bool" where
  "movingHere f \<longleftrightarrow>
     (case fx_speed f of Some v \<Rightarrow> MOVEMENT_SPEED_THRESHOLD_MS < v | None \<Rightarrow> False)
     \<and> isAccuracyTrustworthy (fx_acc f)"

definition runningMean :: "real \<Rightarrow> nat \<Rightarrow> real \<Rightarrow> real" where
  "runningMean c count x = (c * real count + x) / (real count + 1)"

function growStop :: "gps_fix list \<Rightarrow> nat \<Rightarrow> real \<Rightarrow> real \<Rightarrow> nat \<Rightarrow> nat \<times> real \<times> real" where
  "growStop ps j cLat cLng count =
     (if j < length ps
         \<and> \<not> STATIONARY_MAX_SAMPLE_GAP_S < secs_between (timeOf (ps ! (j - 1))) (timeOf (ps ! j))
         \<and> \<not> movingHere (ps ! j)
         \<and> \<not> STOP_CLUSTER_RADIUS_M < haversineDistance cLat cLng (fx_lat (ps ! j)) (fx_lng (ps ! j))
      then growStop ps (j + 1) (runningMean cLat count (fx_lat (ps ! j)))
             (runningMean cLng count (fx_lng (ps ! j))) (count + 1)
      else (j, cLat, cLng))"
  by pat_completeness auto
termination
  by (relation "measure (\<lambda>(ps, j, _). length ps - j)") auto

function stopsFrom :: "gps_fix list \<Rightarrow> nat \<Rightarrow> stop_window list" where
  "stopsFrom ps i =
     (if i < length ps then
        (let (j, cLat, cLng) = growStop ps (i + 1) (fx_lat (ps ! i)) (fx_lng (ps ! i)) 1;
             e = j - 1;
             dur = secs_between (timeOf (ps ! i)) (timeOf (ps ! e))
         in if i < e \<and> STOP_CLUSTER_MIN_DURATION_S \<le> dur
            then \<lparr>startIndex = i, endIndex = e, w_lat = cLat, w_lng = cLng, durationSec = dur\<rparr>
                   # stopsFrom ps (e + 1)
            else stopsFrom ps (i + 1))
      else [])"
  by pat_completeness auto
termination
  by (relation "measure (\<lambda>(ps, i). length ps - i)") auto

declare growStop.simps [simp del] stopsFrom.simps [simp del]

definition detectStopWindows :: "gps_fix list \<Rightarrow> stop_window list" where
  "detectStopWindows positions =
     (if length positions < 3 \<or> (\<exists>p\<in>set positions. fx_time p = None) then []
      else stopsFrom positions 0)"

definition stopPoint :: "gps_fix list \<Rightarrow> stop_window \<Rightarrow> gps_fix" where
  "stopPoint ps w = (ps ! endIndex w)\<lparr>fx_lat := w_lat w, fx_lng := w_lng w\<rparr>"

fun collapseFrom :: "gps_fix list \<Rightarrow> stop_window list \<Rightarrow> nat \<Rightarrow> gps_fix list" where
  "collapseFrom ps [] k = drop k ps"
| "collapseFrom ps (w # ws) k =
     take (startIndex w - k) (drop k ps) @ stopPoint ps w # collapseFrom ps ws (endIndex w + 1)"

definition collapseStationaryWindows :: "gps_fix list \<Rightarrow> gps_fix list" where
  "collapseStationaryWindows positions =
     (let stops = detectStopWindows positions
      in if stops = [] then positions else collapseFrom positions stops 0)"

subsection \<open>The inner loop\<close>

definition sumFrom :: "(gps_fix \<Rightarrow> real) \<Rightarrow> gps_fix list \<Rightarrow> nat \<Rightarrow> nat \<Rightarrow> real" where
  "sumFrom g ps i j = (\<Sum>k = i..<j. g (ps ! k))"

definition quietStep :: "gps_fix list \<Rightarrow> nat \<Rightarrow> bool" where
  "quietStep ps k \<longleftrightarrow>
     secs_between (timeOf (ps ! (k - 1))) (timeOf (ps ! k)) \<le> STATIONARY_MAX_SAMPLE_GAP_S
     \<and> \<not> movingHere (ps ! k)"

lemma runningMean_times: "runningMean c n x * real (n + 1) = c * real n + x"
  by (simp add: runningMean_def field_simps)

lemma growStop_spec:
  assumes "growStop ps j cLat cLng n = (j', la, lo)"
    and "i \<le> j" "n = j - i" "j \<le> length ps"
    and "cLat * real n = sumFrom fx_lat ps i j" "cLng * real n = sumFrom fx_lng ps i j"
  shows "j \<le> j' \<and> j' \<le> length ps \<and> (\<forall>k\<in>{j..<j'}. quietStep ps k)
    \<and> la * real (j' - i) = sumFrom fx_lat ps i j'
    \<and> lo * real (j' - i) = sumFrom fx_lng ps i j'"
  using assms
proof (induction ps j cLat cLng n arbitrary: j' la lo rule: growStop.induct)
  case (1 ps j cLat cLng n)
  let ?go = "j < length ps
         \<and> \<not> STATIONARY_MAX_SAMPLE_GAP_S < secs_between (timeOf (ps ! (j - 1))) (timeOf (ps ! j))
         \<and> \<not> movingHere (ps ! j)
         \<and> \<not> STOP_CLUSTER_RADIUS_M < haversineDistance cLat cLng (fx_lat (ps ! j)) (fx_lng (ps ! j))"
  show ?case
  proof (cases ?go)
    case True
    have snoc: "sumFrom g ps i (Suc j) = sumFrom g ps i j + g (ps ! j)" for g
      using "1.prems"(2) by (simp add: sumFrom_def)
    have eq: "growStop ps (j + 1) (runningMean cLat n (fx_lat (ps ! j)))
        (runningMean cLng n (fx_lng (ps ! j))) (n + 1) = (j', la, lo)"
      using True "1.prems"(1) by (simp add: growStop.simps [of ps j])
    have mean: "runningMean c n (g (ps ! j)) * real (n + 1) = sumFrom g ps i (j + 1)"
      if "c * real n = sumFrom g ps i j" for c g
      using that snoc [of g] by (simp only: runningMean_times) simp
    have "j + 1 \<le> j' \<and> j' \<le> length ps \<and> (\<forall>k\<in>{j + 1..<j'}. quietStep ps k)
      \<and> la * real (j' - i) = sumFrom fx_lat ps i j' \<and> lo * real (j' - i) = sumFrom fx_lng ps i j'"
      by (rule "1.IH" [OF True eq _ _ _ mean [OF "1.prems"(5)] mean [OF "1.prems"(6)]])
        (use True "1.prems"(2-4) in auto)
    moreover have "quietStep ps j"
      using True by (simp add: quietStep_def not_less)
    moreover have "{j..<j'} = insert j {j + 1..<j'}" if "j + 1 \<le> j'"
      using that by auto
    ultimately show ?thesis by auto
  next
    case False
    then have "growStop ps j cLat cLng n = (j, cLat, cLng)"
      by (subst growStop.simps) (simp only: if_False)
    with "1.prems" show ?thesis by simp
  qed
qed

lemma growStop_moving:
  assumes "\<And>k. k < length ps \<Longrightarrow> 0 < k \<Longrightarrow> movingHere (ps ! k)" "0 < j"
  shows "growStop ps j a b n = (j, a, b)"
  using assms(1) [of j] assms(2) by (subst growStop.simps) auto

subsection \<open>The outer loop\<close>

fun orderedFrom :: "nat \<Rightarrow> stop_window list \<Rightarrow> bool" where
  "orderedFrom lo [] = True"
| "orderedFrom lo (w # ws) = (lo \<le> startIndex w \<and> orderedFrom (endIndex w + 1) ws)"

definition goodWindow :: "gps_fix list \<Rightarrow> stop_window \<Rightarrow> bool" where
  "goodWindow ps w \<longleftrightarrow>
     startIndex w < endIndex w \<and> endIndex w < length ps
     \<and> durationSec w = secs_between (timeOf (ps ! startIndex w)) (timeOf (ps ! endIndex w))
     \<and> STOP_CLUSTER_MIN_DURATION_S \<le> durationSec w
     \<and> (\<forall>k\<in>{startIndex w <..endIndex w}. quietStep ps k)
     \<and> w_lat w * real (endIndex w + 1 - startIndex w) = sumFrom fx_lat ps (startIndex w) (endIndex w + 1)
     \<and> w_lng w * real (endIndex w + 1 - startIndex w) = sumFrom fx_lng ps (startIndex w) (endIndex w + 1)"

lemma orderedFrom_mono: "orderedFrom lo ws \<Longrightarrow> lo' \<le> lo \<Longrightarrow> orderedFrom lo' ws"
  by (cases ws) auto

lemma stopsFrom_step:
  assumes i: "i < length ps"
    and grow: "growStop ps (i + 1) (fx_lat (ps ! i)) (fx_lng (ps ! i)) 1 = (j, a, b)"
  shows "stopsFrom ps i =
    (let e = j - 1; dur = secs_between (timeOf (ps ! i)) (timeOf (ps ! e))
     in if i < e \<and> STOP_CLUSTER_MIN_DURATION_S \<le> dur
        then \<lparr>startIndex = i, endIndex = e, w_lat = a, w_lng = b, durationSec = dur\<rparr>
               # stopsFrom ps (e + 1)
        else stopsFrom ps (i + 1))"
  using assms by (subst stopsFrom.simps) simp

lemma stopsFrom_spec:
  "orderedFrom i (stopsFrom ps i) \<and> (\<forall>w\<in>set (stopsFrom ps i). goodWindow ps w)"
proof (induction "length ps - i" arbitrary: i rule: less_induct)
  case less
  show ?case
  proof (cases "i < length ps")
    case False
    then show ?thesis by (subst (1 2) stopsFrom.simps) simp
  next
    case True
    obtain j a b where grow: "growStop ps (i + 1) (fx_lat (ps ! i)) (fx_lng (ps ! i)) 1 = (j, a, b)"
      by (cases "growStop ps (i + 1) (fx_lat (ps ! i)) (fx_lng (ps ! i)) 1") auto
    have g: "i + 1 \<le> j" "j \<le> length ps" "\<forall>k\<in>{i + 1..<j}. quietStep ps k"
        "a * real (j - i) = sumFrom fx_lat ps i j" "b * real (j - i) = sumFrom fx_lng ps i j"
      using growStop_spec [OF grow, of i] True by (auto simp: sumFrom_def)
    define dur where "dur = secs_between (timeOf (ps ! i)) (timeOf (ps ! (j - 1)))"
    show ?thesis
    proof (cases "i < j - 1 \<and> STOP_CLUSTER_MIN_DURATION_S \<le> dur")
      case hit: True
      define w where "w = \<lparr>startIndex = i, endIndex = j - 1, w_lat = a, w_lng = b, durationSec = dur\<rparr>"
      have eq: "stopsFrom ps i = w # stopsFrom ps j"
        using hit g(1) by (simp add: stopsFrom_step [OF True grow] w_def dur_def Let_def)
      have "goodWindow ps w"
        using g hit by (auto simp: goodWindow_def w_def dur_def)
      moreover have "orderedFrom j (stopsFrom ps j) \<and> (\<forall>w\<in>set (stopsFrom ps j). goodWindow ps w)"
        using True g(1) by (intro less) auto
      ultimately show ?thesis
        using g(1) by (simp add: eq) (simp add: w_def)
    next
      case miss: False
      have eq: "stopsFrom ps i = stopsFrom ps (i + 1)"
        using miss unfolding dur_def by (subst stopsFrom_step [OF True grow]) (simp only: Let_def if_False)
      show ?thesis
        using less [of "i + 1"] True by (auto simp: eq intro: orderedFrom_mono [of "i + 1"])
    qed
  qed
qed

lemma detectStopWindows_good:
  "w \<in> set (detectStopWindows ps) \<Longrightarrow> goodWindow ps w"
  using stopsFrom_spec by (auto simp: detectStopWindows_def split: if_splits)

lemma detectStopWindows_ordered: "orderedFrom 0 (detectStopWindows ps)"
  using stopsFrom_spec by (auto simp: detectStopWindows_def)

lemma stopsFrom_moving:
  assumes "\<And>k. k < length ps \<Longrightarrow> 0 < k \<Longrightarrow> movingHere (ps ! k)"
  shows "stopsFrom ps i = []"
proof (induction "length ps - i" arbitrary: i rule: less_induct)
  case less
  show ?case
  proof (cases "i < length ps")
    case True
    have "growStop ps (i + 1) (fx_lat (ps ! i)) (fx_lng (ps ! i)) 1
        = (i + 1, fx_lat (ps ! i), fx_lng (ps ! i))"
      by (rule growStop_moving [OF assms]) auto
    from stopsFrom_step [OF True this] have "stopsFrom ps i = stopsFrom ps (i + 1)"
      by simp
    with less [of "i + 1"] True show ?thesis by simp
  qed (simp add: stopsFrom.simps)
qed

subsection \<open>The collapse\<close>

lemma collapseFrom_length:
  assumes "orderedFrom k ws" "\<forall>w\<in>set ws. goodWindow ps w"
  shows "length (collapseFrom ps ws k) + (\<Sum>w\<leftarrow>ws. endIndex w - startIndex w) = length ps - k"
  using assms
proof (induction ws arbitrary: k)
  case (Cons w ws)
  then have "k \<le> startIndex w" "startIndex w < endIndex w" "endIndex w < length ps"
    by (auto simp: goodWindow_def)
  moreover have "length (collapseFrom ps ws (endIndex w + 1))
      + (\<Sum>w\<leftarrow>ws. endIndex w - startIndex w) = length ps - (endIndex w + 1)"
    using Cons.prems by (intro Cons.IH) auto
  ultimately show ?case by simp
qed simp

lemma subseq_drop_mono: "k \<le> k' \<Longrightarrow> subseq xs (drop k' ys) \<Longrightarrow> subseq xs (drop k ys)"
  by (metis drop_drop le_add_diff_inverse2 subseq_order.trans suffix_drop suffix_imp_subseq)

lemma collapseFrom_times:
  assumes "orderedFrom k ws" "\<forall>w\<in>set ws. goodWindow ps w"
  shows "subseq (map fx_time (collapseFrom ps ws k)) (drop k (map fx_time ps))"
  using assms
proof (induction ws arbitrary: k)
  case Nil
  then show ?case by (simp add: drop_map)
next
  case (Cons w ws)
  let ?T = "map fx_time ps" and ?s = "startIndex w" and ?e = "endIndex w"
  have b: "k \<le> ?s" "?s < ?e" "?e < length ps"
    using Cons.prems by (auto simp: goodWindow_def)
  have "subseq (map fx_time (collapseFrom ps ws (?e + 1))) (drop (?e + 1) ?T)"
    using Cons by simp
  then have "subseq (?T ! ?e # map fx_time (collapseFrom ps ws (?e + 1))) (drop ?e ?T)"
    using b by (simp add: Cons_nth_drop_Suc [symmetric, of ?e ?T] del: drop_map)
  then have "subseq (?T ! ?e # map fx_time (collapseFrom ps ws (?e + 1))) (drop ?s ?T)"
    using b by (intro subseq_drop_mono [of ?s ?e]) auto
  moreover have "drop k ?T = take (?s - k) (drop k ?T) @ drop ?s ?T"
    using b by (metis append_take_drop_id drop_drop le_add_diff_inverse2)
  ultimately have "subseq (take (?s - k) (drop k ?T) @ ?T ! ?e
      # map fx_time (collapseFrom ps ws (?e + 1))) (drop k ?T)"
    by (metis subseq_append')
  then show ?case
    using b by (simp add: stopPoint_def take_map drop_map)
qed

lemma collapse_eq: "collapseStationaryWindows ps = collapseFrom ps (detectStopWindows ps) 0"
  by (simp add: collapseStationaryWindows_def Let_def)

lemma runningMean_same [simp]: "runningMean c n c = c"
  by (simp add: runningMean_def field_simps)

lemma runningMean_north [geo_simps]:
  "runningMean (north c) n (north x) = north ((c * real n + x) / (real n + 1))"
proof -
  define K where "K = 180 / (pi * EARTH_RADIUS_M)"
  have north: "north m = m * K" for m
    by (simp add: north_def K_def)
  have "c * K * real n + x * K = (c * real n + x) * K"
    by (simp add: algebra_simps)
  then show ?thesis by (simp only: runningMean_def north times_divide_eq_left)
qed

text \<open>A trace along a meridian: metres north of the equator and milliseconds.\<close>

definition trackFix :: "real option \<Rightarrow> real option \<Rightarrow> meters \<times> ms \<Rightarrow> gps_fix" where
  "trackFix spd acc = (\<lambda>(m, t).
     \<lparr>fx_lat = north m, fx_lng = 47, fx_time = Some t, fx_speed = spd, fx_acc = acc\<rparr>)"

lemma trackFix_simps [simp]:
  "fx_lat (trackFix spd acc (m, t)) = north m" "fx_lng (trackFix spd acc (m, t)) = 47"
  "fx_time (trackFix spd acc (m, t)) = Some t" "fx_speed (trackFix spd acc (m, t)) = spd"
  "fx_acc (trackFix spd acc (m, t)) = acc" "timeOf (trackFix spd acc (m, t)) = t"
  by (simp_all add: trackFix_def timeOf_def)

subsection \<open>Properties\<close>

text \<open>The detected stops are disjoint, in chronological order and inside the trace, and each of
  them is a real stop by the documented criteria: it has at least two fixes and lasts at least 60 s,
  no two consecutive fixes in it are more than 60 s apart, no fix after the first has a trusted
  speed above 1 m/s, and its centre is the arithmetic mean of its fixes.\<close>

theorem detectStopWindows_sound:
  "orderedFrom 0 (detectStopWindows ps) \<and> list_all (goodWindow ps) (detectStopWindows ps)"
  by (simp add: detectStopWindows_ordered detectStopWindows_good list_all_iff)

text \<open>Collapsing removes exactly the redundant fixes of the stops and invents no instant: the result
  is shorter by the sum of the window lengths, and its timestamps are a subsequence of the trace's
  timestamps, so a chronological trace stays chronological.\<close>

theorem collapseStationaryWindows_shape:
  "length (collapseStationaryWindows ps)
     + (\<Sum>w\<leftarrow>detectStopWindows ps. endIndex w - startIndex w) = length ps
   \<and> subseq (map fx_time (collapseStationaryWindows ps)) (map fx_time ps)"
  unfolding collapse_eq
  using collapseFrom_length [of 0 "detectStopWindows ps" ps]
    collapseFrom_times [of 0 "detectStopWindows ps" ps]
    detectStopWindows_ordered [of ps] detectStopWindows_good [of _ ps]
  by auto

text \<open>A real trip is never erased: when every fix after the first carries a trusted speed above
  1 m/s, the collapse returns the trace unchanged.\<close>

theorem moving_trace_not_collapsed:
  assumes "\<And>k. k < length ps \<Longrightarrow> 0 < k \<Longrightarrow> movingHere (ps ! k)"
  shows "collapseStationaryWindows ps = ps"
  using stopsFrom_moving [OF assms]
  by (simp add: collapseStationaryWindows_def detectStopWindows_def)

theorem moving_trace_not_collapsed_witness:
  "let ps = map (trackFix (Some 2) (Some 8)) [(0, 0), (4, 2000), (8, 4000), (12, 70000)]
   in collapseStationaryWindows ps = ps"
  unfolding Let_def
  by (rule moving_trace_not_collapsed)
     (auto simp: movingHere_def stop_consts MOVEMENT_TRUST_MAX_ACCURACY_M_def nth_Cons
        split: nat.splits)

text \<open>A slow trip without a trusted speed is erased, although the source's comment says that a
  vehicle at 1 m/s or more leaves the 50 m radius in less than a minute: the radius is measured from
  the running centre, which follows the vehicle at half its speed. Here a vehicle drives 75 m in a
  straight line at 1.25 m/s, one fix every 20 s with 8 m of accuracy and no speed, and the whole
  trip becomes one stop, a single point of the collapsed trace.\<close>

theorem slow_straight_trip_is_a_stop:
  "let ps = map (trackFix None (Some 8)) [(0, 0), (25, 20000), (50, 40000), (75, 60000)]
   in detectStopWindows ps
        = [\<lparr>startIndex = 0, endIndex = 3, w_lat = north (75 / 2), w_lng = 47, durationSec = 60\<rparr>]
      \<and> collapseStationaryWindows ps = [trackFix None (Some 8) (75 / 2, 60000)]"
proof -
  define ps where "ps = map (trackFix None (Some 8)) [(0, 0), (25, 20000), (50, 40000), (75, 60000)]"
  have grow: "growStop ps 1 (north 0) 47 1 = (4, north (75 / 2), 47)"
    by (simp add: growStop.simps ps_def geo_simps secs_between_def movingHere_def stop_consts)
  have "stopsFrom ps 0
      = [\<lparr>startIndex = 0, endIndex = 3, w_lat = north (75 / 2), w_lng = 47, durationSec = 60\<rparr>]"
    using stopsFrom_step [of 0 ps 4 "north (75 / 2)" 47] grow
    by (simp add: ps_def secs_between_def stop_consts) (simp add: stopsFrom.simps)
  then show ?thesis
    by (simp add: detectStopWindows_def collapse_eq trackFix_def flip: ps_def)
       (simp add: ps_def trackFix_def stopPoint_def)
qed

end
