(* ===== verification/FilteredDistance.thy ===== *)
theory FilteredDistance
  imports StopWindows
begin

text \<open>
  The distance of a trip, \<open>computeFilteredDistance\<close>, and the verdict on stationary noise,
  \<open>isStationaryNoise\<close>, of \<open>backend/src/common/geo/geo.utils.ts\<close>. One turn of the loop
  is \<open>distanceStep\<close> on the state \<open>total\<close>, \<open>runStart\<close>, \<open>runPending\<close> of
  the source; its four rules are the four branches, in the source's order.
\<close>

definition WANDER_RATIO_THRESHOLD :: real where "WANDER_RATIO_THRESHOLD = 4"
definition WANDER_MIN_AVG_ACCURACY_M :: real where "WANDER_MIN_AVG_ACCURACY_M = 35"
definition WANDER_MIN_DISTANCE_KM :: real where "WANDER_MIN_DISTANCE_KM = 3"

record run_state =
  total :: real
  runStart :: "gps_fix option"
  runPending :: real

definition resetRun :: "run_state \<Rightarrow> run_state" where
  "resetRun s = s\<lparr>runStart := None, runPending := 0\<rparr>"

definition fixDistance :: "gps_fix \<Rightarrow> gps_fix \<Rightarrow> meters" where
  "fixDistance p q = haversineDistance (fx_lat p) (fx_lng p) (fx_lat q) (fx_lng q)"

definition accOr25 :: "gps_fix \<Rightarrow> real" where
  "accOr25 p = pos_or GPS_ACCURACY_FALLBACK_M (fx_acc p)"

definition segmentSeconds :: "gps_fix \<Rightarrow> gps_fix \<Rightarrow> real option" where
  "segmentSeconds p1 p2 =
     (case (fx_time p1, fx_time p2) of
        (Some t1, Some t2) \<Rightarrow> Some (max 1 (secs_between t1 t2))
      | _ \<Rightarrow> None)"

definition speedAbove :: "real \<Rightarrow> gps_fix \<Rightarrow> bool" where
  "speedAbove v p = (case fx_speed p of Some s \<Rightarrow> v < s | None \<Rightarrow> False)"

definition speedTrusted :: "gps_fix \<Rightarrow> bool" where
  "speedTrusted p \<longleftrightarrow>
     accOr25 p \<le> SPEED_TRUST_MAX_ACCURACY_M \<and> speedAbove MOVEMENT_SPEED_THRESHOLD_MS p"

text \<open>Rule 4: the window that pairwise sub-noise segments open, extend and settle.\<close>

definition windowStart :: "run_state \<Rightarrow> gps_fix \<Rightarrow> gps_fix \<Rightarrow> gps_fix \<times> real" where
  "windowStart s p1 p2 =
     (case runStart s of
        None \<Rightarrow> (p1, 0)
      | Some r \<Rightarrow>
          (case fx_time r of
             None \<Rightarrow> (p1, 0)
           | Some t \<Rightarrow>
               if STATIONARY_MAX_SAMPLE_GAP_S < secs_between t (timeOf p2) then (p1, 0)
               else (r, runPending s)))"

definition windowRule :: "run_state \<Rightarrow> gps_fix \<Rightarrow> gps_fix \<Rightarrow> run_state" where
  "windowRule s p1 p2 =
     (let (rs, pending0) = windowStart s p1 p2;
          pending = pending0 + fixDistance p1 p2;
          netGate = combinedGpsNoiseGate (Some (accOr25 rs)) (Some (accOr25 p2))
      in if netGate \<le> fixDistance rs p2
         then s\<lparr>total := total s + pending, runStart := Some p2, runPending := 0\<rparr>
         else s\<lparr>runStart := Some rs, runPending := pending\<rparr>)"

definition distanceStep :: "run_state \<Rightarrow> gps_fix \<Rightarrow> gps_fix \<Rightarrow> run_state" where
  "distanceStep s p1 p2 =
     (let segDist = fixDistance p1 p2; a1 = accOr25 p1; a2 = accOr25 p2;
          dt = segmentSeconds p1 p2
      in if GPS_UNUSABLE_ACCURACY_M < a1 \<and> GPS_UNUSABLE_ACCURACY_M < a2 then resetRun s
         else if speedTrusted p1 \<or> speedTrusted p2 then
           (let maxSpeed = max (nullish (fx_speed p1) 0) (nullish (fx_speed p2) 0)
            in resetRun (s\<lparr>total := total s +
                 (case dt of
                    Some d \<Rightarrow> min segDist (maxSpeed * d * SPEED_DISTANCE_CAP_MULT)
                  | None \<Rightarrow> segDist)\<rparr>))
         else if combinedGpsNoiseGate (Some a1) (Some a2) \<le> segDist
         then resetRun (s\<lparr>total := total s + segDist\<rparr>)
         else if dt = None
              \<or> \<not> ((speedAbove STATIONARY_SPEED_MS p1 \<or> speedAbove STATIONARY_SPEED_MS p2)
                    \<or> (a1 \<le> MOVEMENT_TRUST_MAX_ACCURACY_M \<and> a2 \<le> MOVEMENT_TRUST_MAX_ACCURACY_M))
         then s
         else windowRule s p1 p2)"

fun distanceLoop :: "run_state \<Rightarrow> gps_fix list \<Rightarrow> run_state" where
  "distanceLoop s (p1 # p2 # ps) = distanceLoop (distanceStep s p1 p2) (p2 # ps)"
| "distanceLoop s _ = s"

definition initRun :: run_state where
  "initRun = \<lparr>total = 0, runStart = None, runPending = 0\<rparr>"

definition computeFilteredDistance :: "gps_fix list \<Rightarrow> meters" where
  "computeFilteredDistance positions = total (distanceLoop initRun (collapseStationaryWindows positions))"

text \<open>A ratio over a zero displacement is \<open>Infinity\<close>, above any threshold.\<close>

definition isStationaryNoise :: "real \<Rightarrow> real \<Rightarrow> real \<Rightarrow> bool" where
  "isStationaryNoise distanceKm netDisplacementKm avgAccuracy =
     (if distanceKm < WANDER_MIN_DISTANCE_KM then False
      else (if 0 < netDisplacementKm
            then WANDER_RATIO_THRESHOLD < distanceKm / netDisplacementKm else True)
           \<and> WANDER_MIN_AVG_ACCURACY_M < avgAccuracy)"

subsection \<open>One turn of the loop\<close>

interpretation trackm: geo_metric fixDistance
  by unfold_locales (simp_all add: fixDistance_def haversineDistance_commute)

text \<open>
  The amount the state accounts for: what is counted plus what is pending. A turn adds at most the
  length of its segment to it and never takes from the total.
\<close>

definition runInv :: "run_state \<Rightarrow> bool" where
  "runInv s \<longleftrightarrow> 0 \<le> total s \<and> 0 \<le> runPending s"

lemma maxSpeed_pos:
  assumes "speedTrusted p1 \<or> speedTrusted p2"
  shows "0 < max (nullish (fx_speed p1) 0) (nullish (fx_speed p2) 0)"
  using assms
  by (auto simp: speedTrusted_def speedAbove_def geo_consts less_max_iff_disj split: option.splits)

lemma windowStart_pending:
  "runInv s \<Longrightarrow> windowStart s p1 p2 = (rs, x) \<Longrightarrow> 0 \<le> x \<and> x \<le> runPending s"
  by (auto simp: windowStart_def runInv_def split: option.splits if_splits)

lemma windowRule_account:
  assumes "runInv s"
  shows "runInv (windowRule s p1 p2)" "total s \<le> total (windowRule s p1 p2)"
    "total (windowRule s p1 p2) + runPending (windowRule s p1 p2)
       \<le> total s + runPending s + fixDistance p1 p2"
proof -
  obtain rs x where ws: "windowStart s p1 p2 = (rs, x)"
    by (cases "windowStart s p1 p2")
  have "0 \<le> x" "x \<le> runPending s" "0 \<le> fixDistance p1 p2"
    using windowStart_pending [OF assms ws] trackm.d_nonneg by auto
  with ws assms show "runInv (windowRule s p1 p2)" "total s \<le> total (windowRule s p1 p2)"
    "total (windowRule s p1 p2) + runPending (windowRule s p1 p2)
       \<le> total s + runPending s + fixDistance p1 p2"
    by (auto simp: windowRule_def runInv_def Let_def)
qed

lemma distanceStep_account:
  assumes "runInv s"
  shows "runInv (distanceStep s p1 p2) \<and> total s \<le> total (distanceStep s p1 p2)
    \<and> total (distanceStep s p1 p2) + runPending (distanceStep s p1 p2)
       \<le> total s + runPending s + fixDistance p1 p2"
proof -
  have d: "0 \<le> fixDistance p1 p2" by (rule trackm.d_nonneg)
  have cap: "0 \<le> max (nullish (fx_speed p1) 0) (nullish (fx_speed p2) 0) * t * SPEED_DISTANCE_CAP_MULT"
    if "segmentSeconds p1 p2 = Some t" "speedTrusted p1 \<or> speedTrusted p2" for t
    using that less_imp_le [OF maxSpeed_pos [OF that(2)]]
    by (intro mult_nonneg_nonneg)
      (auto simp: segmentSeconds_def SPEED_DISTANCE_CAP_MULT_def split: option.splits)
  show ?thesis
    using assms d windowRule_account [OF assms] cap
    unfolding distanceStep_def Let_def runInv_def resetRun_def
    by (auto split: option.splits)
qed

lemma distanceLoop_account:
  assumes "runInv s"
  shows "runInv (distanceLoop s ps) \<and> total s \<le> total (distanceLoop s ps)
    \<and> total (distanceLoop s ps) + runPending (distanceLoop s ps)
       \<le> total s + runPending s + chords fixDistance ps"
  using assms
proof (induction s ps rule: distanceLoop.induct)
  case (1 s p1 p2 ps)
  note step = distanceStep_account [OF "1.prems", of p1 p2]
  from step "1.IH" show ?case by auto
qed (simp_all add: trackm.chords_nonneg)

lemma runInv_init [simp]: "runInv initRun"
  by (simp add: runInv_def initRun_def)

lemma accs_collapse:
  "fx_acc ` set (collapseStationaryWindows ps) \<subseteq> fx_acc ` set ps"
proof -
  have "fx_acc ` set (collapseFrom ps ws k) \<subseteq> fx_acc ` set ps"
    if "\<forall>w\<in>set ws. goodWindow ps w" for ws k
    using that
  proof (induction ws arbitrary: k)
    case Nil
    then show ?case using set_drop_subset by fastforce
  next
    case (Cons w ws)
    have "fx_acc ` set (take (startIndex w - k) (drop k ps)) \<subseteq> fx_acc ` set ps"
      by (meson image_mono order_trans set_drop_subset set_take_subset)
    moreover have "fx_acc (stopPoint ps w) \<in> fx_acc ` set ps"
      using Cons.prems by (auto simp: stopPoint_def goodWindow_def)
    ultimately show ?case using Cons by (simp add: image_Un)
  qed
  then show ?thesis by (simp add: collapse_eq detectStopWindows_good)
qed

lemma distanceLoop_unusable:
  assumes "\<forall>p\<in>set ps. GPS_UNUSABLE_ACCURACY_M < accOr25 p"
  shows "total (distanceLoop s ps) = total s"
  using assms
proof (induction s ps rule: distanceLoop.induct)
  case (1 s p1 p2 ps)
  then have "distanceStep s p1 p2 = resetRun s"
    by (simp add: distanceStep_def)
  with 1 show ?case by (simp add: resetRun_def)
qed simp_all

text \<open>One turn over two moving fixes adds at most what the larger speed allows in the elapsed time.\<close>

lemma distanceStep_moving:
  assumes "speedTrusted p2" "fx_time p1 = Some t1" "fx_time p2 = Some t2" "t1 + 1000 \<le> t2"
    and "nullish (fx_speed p1) 0 \<le> V" "nullish (fx_speed p2) 0 \<le> V"
  shows "total (distanceStep s p1 p2) \<le> total s + V * secs_between t1 t2 * SPEED_DISTANCE_CAP_MULT"
proof -
  have "accOr25 p2 \<le> 70"
    using assms(1) by (simp add: speedTrusted_def geo_consts)
  then have usable: "\<not> GPS_UNUSABLE_ACCURACY_M < accOr25 p2"
    by (simp add: geo_consts)
  have dt: "segmentSeconds p1 p2 = Some (secs_between t1 t2)" "0 \<le> secs_between t1 t2"
    using assms(2-4) by (simp_all add: segmentSeconds_def secs_between_def)
  have "max (nullish (fx_speed p1) 0) (nullish (fx_speed p2) 0) * secs_between t1 t2 * SPEED_DISTANCE_CAP_MULT
      \<le> V * secs_between t1 t2 * SPEED_DISTANCE_CAP_MULT"
    using assms(5,6) dt(2) by (intro mult_right_mono) (simp_all add: geo_consts)
  then show ?thesis
    using usable dt assms(1) by (simp add: distanceStep_def Let_def resetRun_def min.coboundedI2)
qed

fun pacedBy :: "real \<Rightarrow> gps_fix list \<Rightarrow> bool" where
  "pacedBy V (p # q # ps) =
     (speedTrusted q \<and> fx_time p \<noteq> None \<and> fx_time q \<noteq> None \<and> timeOf p + 1000 \<le> timeOf q
      \<and> nullish (fx_speed p) 0 \<le> V \<and> nullish (fx_speed q) 0 \<le> V \<and> pacedBy V (q # ps))"
| "pacedBy V _ = True"

lemma distanceLoop_paced:
  assumes "pacedBy V ps" "ps \<noteq> []"
  shows "total (distanceLoop s ps)
    \<le> total s + V * secs_between (timeOf (hd ps)) (timeOf (last ps)) * SPEED_DISTANCE_CAP_MULT"
  using assms
proof (induction s ps rule: distanceLoop.induct)
  case (1 s p q ps)
  have "total (distanceStep s p q)
      \<le> total s + V * secs_between (timeOf p) (timeOf q) * SPEED_DISTANCE_CAP_MULT"
    using "1.prems"(1) by (intro distanceStep_moving) (auto simp: timeOf_def)
  moreover have "total (distanceLoop (distanceStep s p q) (q # ps)) \<le> total (distanceStep s p q)
      + V * secs_between (timeOf q) (timeOf (last (q # ps))) * SPEED_DISTANCE_CAP_MULT"
    using 1 by simp
  moreover have "V * secs_between (timeOf p) (timeOf (last (q # ps))) * SPEED_DISTANCE_CAP_MULT
      = V * secs_between (timeOf p) (timeOf q) * SPEED_DISTANCE_CAP_MULT
        + V * secs_between (timeOf q) (timeOf (last (q # ps))) * SPEED_DISTANCE_CAP_MULT"
    unfolding secs_between_chain [of "timeOf p" "timeOf q" "timeOf (last (q # ps))", symmetric]
    by (simp only: distrib_left distrib_right)
  ultimately have "total (distanceLoop (distanceStep s p q) (q # ps)) \<le> total s
      + V * secs_between (timeOf p) (timeOf (last (q # ps))) * SPEED_DISTANCE_CAP_MULT"
    by linarith
  then show ?case by simp
qed simp_all

subsection \<open>Properties\<close>

text \<open>Every segment of the collapsed trace is counted at most once and nothing is subtracted: the
  filtered distance lies between 0 and the length of the polyline through the collapsed trace,
  whichever of the four rules (unusable pair, speed cap, noise gate, pending window) each segment
  takes.\<close>

theorem computeFilteredDistance_bounds:
  "0 \<le> computeFilteredDistance ps
   \<and> computeFilteredDistance ps \<le> chords fixDistance (collapseStationaryWindows ps)"
  using distanceLoop_account [OF runInv_init, of "collapseStationaryWindows ps"]
  by (auto simp: computeFilteredDistance_def runInv_def initRun_def)

text \<open>The distance of a trip is bounded by physics, not by the position jitter: over fixes at least
  one second apart whose trusted speeds never exceed \<open>V\<close>, the filtered distance is at most
  1.5 times \<open>V\<close> times the duration, however far apart the positions are.\<close>

theorem computeFilteredDistance_speed_cap:
  assumes "ps \<noteq> []" "pacedBy V ps"
    and "\<And>k. k < length ps \<Longrightarrow> 0 < k \<Longrightarrow> movingHere (ps ! k)"
  shows "computeFilteredDistance ps
    \<le> V * secs_between (timeOf (hd ps)) (timeOf (last ps)) * SPEED_DISTANCE_CAP_MULT"
  using distanceLoop_paced [OF assms(2,1), of initRun] stopsFrom_moving [OF assms(3)]
  by (simp add: computeFilteredDistance_def initRun_def collapse_eq detectStopWindows_def)

theorem computeFilteredDistance_speed_cap_witness:
  "computeFilteredDistance
     (map (trackFix (Some 2) (Some 8)) [(0, 0), (400, 2000), (0, 4000), (400, 7000)]) \<le> 21"
proof -
  let ?ps = "map (trackFix (Some 2) (Some 8)) [(0, 0), (400, 2000), (0, 4000), (400, 7000)]"
  have "computeFilteredDistance ?ps
      \<le> 2 * secs_between (timeOf (hd ?ps)) (timeOf (last ?ps)) * SPEED_DISTANCE_CAP_MULT"
    by (rule computeFilteredDistance_speed_cap)
      (auto simp: speedTrusted_def speedAbove_def accOr25_def movingHere_def geo_consts nth_Cons
        split: nat.splits)
  then show ?thesis by (simp add: secs_between_def geo_consts)
qed

text \<open>Positions too imprecise to prove anything count for nothing: when every fix of a trace is worse
  than 80 m, its filtered distance is 0, whatever speeds are reported.\<close>

theorem unusable_trace_has_no_distance:
  assumes "\<forall>p\<in>set ps. \<exists>a. fx_acc p = Some a \<and> GPS_UNUSABLE_ACCURACY_M < a"
  shows "computeFilteredDistance ps = 0"
proof -
  have "\<forall>p\<in>set (collapseStationaryWindows ps). GPS_UNUSABLE_ACCURACY_M < accOr25 p"
  proof
    fix p assume "p \<in> set (collapseStationaryWindows ps)"
    then have "fx_acc p \<in> fx_acc ` set ps" using accs_collapse by blast
    with assms obtain a where "fx_acc p = Some a" "GPS_UNUSABLE_ACCURACY_M < a" by force
    then show "GPS_UNUSABLE_ACCURACY_M < accOr25 p" by (simp add: accOr25_def geo_consts)
  qed
  then show ?thesis
    by (simp add: computeFilteredDistance_def distanceLoop_unusable initRun_def)
qed

theorem unusable_trace_has_no_distance_witness:
  "computeFilteredDistance
     (map (trackFix (Some 9) (Some 120)) [(0, 0), (400, 5000), (900, 10000)]) = 0"
  by (rule unusable_trace_has_no_distance) (simp add: geo_consts)

text \<open>
  The threshold of rule 3 is the combined noise of the two fixes and is not capped at 7.5 m, as the
  comment above the function still says: 50 m between two fixes of 30 m of accuracy count for
  nothing.
\<close>

lemma noise_gate_not_capped:
  "computeFilteredDistance (map (trackFix None (Some 30)) [(0, 0), (50, 10000)]) = 0"
  by (simp add: computeFilteredDistance_def collapse_eq detectStopWindows_def distanceStep_def
      windowRule_def windowStart_def segmentSeconds_def fixDistance_def accOr25_def geo_simps
      speedTrusted_def speedAbove_def geo_consts initRun_def Let_def)

end
