(* ===== verification/Teleport.thy ===== *)
theory Teleport
  imports Geo
begin

text \<open>
  The teleportation verdict, \<open>evaluateTeleportation\<close> of
  \<open>backend/src/common/geo/teleportation.utils.ts\<close>, shared by the real time and the batch
  ingestion. The condition and the bound of the third rule are \<open>jumpRuleApplies\<close> and
  \<open>plausibleDistance\<close>.
\<close>

definition TELEPORT_SPEED_THRESHOLD_MS :: real where "TELEPORT_SPEED_THRESHOLD_MS = 5556 / 100"
definition TELEPORT_DISTANCE_THRESHOLD_M :: real where "TELEPORT_DISTANCE_THRESHOLD_M = 5000"
definition TELEPORT_TIME_THRESHOLD_S :: real where "TELEPORT_TIME_THRESHOLD_S = 10"
definition INCOHERENT_JUMP_MAX_DT_S :: real where "INCOHERENT_JUMP_MAX_DT_S = 30"
definition INCOHERENT_JUMP_SPEED_MARGIN :: real where "INCOHERENT_JUMP_SPEED_MARGIN = 2"
definition INCOHERENT_JUMP_NOISE_MULT :: real where "INCOHERENT_JUMP_NOISE_MULT = 3"
definition INCOHERENT_JUMP_MIN_SPEED_MS :: real where "INCOHERENT_JUMP_MIN_SPEED_MS = 8"

lemmas teleport_consts =
  TELEPORT_SPEED_THRESHOLD_MS_def TELEPORT_DISTANCE_THRESHOLD_M_def TELEPORT_TIME_THRESHOLD_S_def
  INCOHERENT_JUMP_MAX_DT_S_def INCOHERENT_JUMP_SPEED_MARGIN_def INCOHERENT_JUMP_NOISE_MULT_def
  INCOHERENT_JUMP_MIN_SPEED_MS_def GPS_NOISE_MAX_ACCURACY_SCALE_def MOVEMENT_TRUST_MAX_ACCURACY_M_def

record teleport_reference =
  tr_lat :: real
  tr_lng :: real
  tr_time :: ms
  tr_speed :: "jsnum option"
  tr_acc :: "real option"

datatype teleport_reason = NonCroissant | Vitesse | SautCourt | SautIncoherent

record teleport_evaluation =
  suspect :: bool
  reason :: "teleport_reason option"
  timeDiffSec :: real
  jumpDistance :: real
  jumpSpeedMs :: real

text \<open>\<open>accuracy ? \<dots> : 1\<close> tests truthiness: an absent or zero accuracy gives the scale 1.\<close>

definition accuracyScale :: "real option \<Rightarrow> real" where
  "accuracyScale accuracy =
     (case accuracy of
        Some a \<Rightarrow> if a \<noteq> 0 then max 1 (min (a / 10) GPS_NOISE_MAX_ACCURACY_SCALE) else 1
      | None \<Rightarrow> 1)"

definition finiteSpeed :: "jsnum option \<Rightarrow> real option" where
  "finiteSpeed v = Option.bind v num_of"

definition jumpRuleApplies ::
    "teleport_reference \<Rightarrow> real \<Rightarrow> real option \<Rightarrow> jsnum option \<Rightarrow> bool" where
  "jumpRuleApplies ref dt accuracy speed \<longleftrightarrow>
     1 \<le> dt \<and> dt \<le> INCOHERENT_JUMP_MAX_DT_S
     \<and> finiteSpeed speed \<noteq> None
     \<and> (case accuracy of Some a \<Rightarrow> 0 < a \<and> a \<le> MOVEMENT_TRUST_MAX_ACCURACY_M | None \<Rightarrow> False)
     \<and> (case tr_acc ref of
          Some a \<Rightarrow> 0 < a \<and> a \<le> MOVEMENT_TRUST_MAX_ACCURACY_M | None \<Rightarrow> True)"

definition plausibleDistance ::
    "teleport_reference \<Rightarrow> real \<Rightarrow> real option \<Rightarrow> jsnum option \<Rightarrow> real" where
  "plausibleDistance ref dt accuracy speed =
     (let v = nullish (finiteSpeed speed) 0; refSpeed = nullish (finiteSpeed (tr_speed ref)) 0;
          refAcc = (case tr_acc ref of Some a \<Rightarrow> Some a | None \<Rightarrow> accuracy)
      in max v (max refSpeed INCOHERENT_JUMP_MIN_SPEED_MS) * dt * INCOHERENT_JUMP_SPEED_MARGIN
         + INCOHERENT_JUMP_NOISE_MULT * combinedGpsNoiseGate refAcc accuracy)"

definition evaluateTeleportation ::
    "teleport_reference \<Rightarrow> real \<Rightarrow> real \<Rightarrow> ms \<Rightarrow> real option \<Rightarrow> jsnum option
       \<Rightarrow> teleport_evaluation" where
  "evaluateTeleportation ref latitude longitude timestamp accuracy speed =
     (let dt = secs_between (tr_time ref) timestamp
      in if dt \<le> 0
         then \<lparr>suspect = True, reason = Some NonCroissant, timeDiffSec = dt, jumpDistance = 0,
               jumpSpeedMs = 0\<rparr>
         else
           (let distance = haversineDistance (tr_lat ref) (tr_lng ref) latitude longitude;
                v = distance / dt;
                verdict = (\<lambda>s r. \<lparr>suspect = s, reason = r, timeDiffSec = dt,
                                   jumpDistance = distance, jumpSpeedMs = v\<rparr>)
            in if TELEPORT_SPEED_THRESHOLD_MS < v then verdict True (Some Vitesse)
               else if TELEPORT_DISTANCE_THRESHOLD_M * accuracyScale accuracy < distance
                       \<and> dt < TELEPORT_TIME_THRESHOLD_S
               then verdict True (Some SautCourt)
               else if jumpRuleApplies ref dt accuracy speed
                       \<and> plausibleDistance ref dt accuracy speed < distance
               then verdict True (Some SautIncoherent)
               else verdict False None))"

subsection \<open>Lemmas\<close>

lemma accuracyScale_ge_1: "1 \<le> accuracyScale a"
  by (auto simp: accuracyScale_def split: option.splits)

lemma plausibleDistance_ge:
  assumes "0 \<le> dt"
  shows "16 * dt + 12 \<le> plausibleDistance ref dt accuracy speed"
proof -
  let ?m = "max (nullish (finiteSpeed speed) 0)
      (max (nullish (finiteSpeed (tr_speed ref)) 0) INCOHERENT_JUMP_MIN_SPEED_MS)"
  have "8 * dt \<le> ?m * dt"
    using assms by (intro mult_right_mono) (auto simp: teleport_consts le_max_iff_disj)
  then show ?thesis
    using combinedGpsNoiseGate_floor
      [of "case tr_acc ref of Some a \<Rightarrow> Some a | None \<Rightarrow> accuracy" accuracy]
    by (simp add: plausibleDistance_def Let_def teleport_consts)
qed

text \<open>Short jumps: over less than 10 s the distance rule asks for more than 500 m/s.\<close>

lemma short_jump_is_fast:
  assumes "0 < dt" "dt < TELEPORT_TIME_THRESHOLD_S"
    and "TELEPORT_DISTANCE_THRESHOLD_M * accuracyScale a < d"
  shows "TELEPORT_SPEED_THRESHOLD_MS < d / dt"
proof -
  have "TELEPORT_DISTANCE_THRESHOLD_M * 1 \<le> TELEPORT_DISTANCE_THRESHOLD_M * accuracyScale a"
    using accuracyScale_ge_1 [of a] by (intro mult_left_mono) (simp_all add: teleport_consts)
  with assms show ?thesis by (simp add: teleport_consts field_simps)
qed

lemma not_suspect_iff:
  "\<not> suspect (evaluateTeleportation ref lat lng t accuracy speed) \<longleftrightarrow>
     tr_time ref < t
     \<and> haversineDistance (tr_lat ref) (tr_lng ref) lat lng
         \<le> TELEPORT_SPEED_THRESHOLD_MS * secs_between (tr_time ref) t
     \<and> \<not> (jumpRuleApplies ref (secs_between (tr_time ref) t) accuracy speed
          \<and> plausibleDistance ref (secs_between (tr_time ref) t) accuracy speed
               < haversineDistance (tr_lat ref) (tr_lng ref) lat lng)"
proof (cases "tr_time ref < t")
  case False
  then show ?thesis
    by (simp add: evaluateTeleportation_def secs_between_def)
next
  case True
  define dt where "dt = secs_between (tr_time ref) t"
  define d where "d = haversineDistance (tr_lat ref) (tr_lng ref) lat lng"
  have dt: "0 < dt" using True by (simp add: dt_def secs_between_def)
  have "d \<le> TELEPORT_SPEED_THRESHOLD_MS * dt \<longleftrightarrow> \<not> TELEPORT_SPEED_THRESHOLD_MS < d / dt"
    using dt by (simp add: field_simps not_less)
  then show ?thesis
    using True dt short_jump_is_fast [of dt accuracy d]
    unfolding evaluateTeleportation_def by (fold dt_def d_def) (auto simp: Let_def)
qed

subsection \<open>Properties\<close>

text \<open>The short jump rule is dead, as the source's comment says: no evaluation ever gives the reason
  \<open>saut_court\<close>, because every such jump already exceeds the speed threshold.\<close>

theorem saut_court_unreachable:
  "reason (evaluateTeleportation ref lat lng t accuracy speed) \<noteq> Some SautCourt"
  using short_jump_is_fast [of "secs_between (tr_time ref) t" accuracy
      "haversineDistance (tr_lat ref) (tr_lng ref) lat lng"]
  by (auto simp: evaluateTeleportation_def Let_def not_le)

text \<open>A fix that is not suspect is strictly later than its reference and at most 200 km/h away, and
  inside the distance its announced speeds allow when the incoherent jump rule applies; conversely a
  fix with these three qualities is never suspect.\<close>

theorem not_suspect_iff_plausible:
  "\<not> suspect (evaluateTeleportation ref lat lng t accuracy speed) \<longleftrightarrow>
     tr_time ref < t
     \<and> haversineDistance (tr_lat ref) (tr_lng ref) lat lng
         \<le> TELEPORT_SPEED_THRESHOLD_MS * secs_between (tr_time ref) t
     \<and> \<not> (jumpRuleApplies ref (secs_between (tr_time ref) t) accuracy speed
          \<and> plausibleDistance ref (secs_between (tr_time ref) t) accuracy speed
               < haversineDistance (tr_lat ref) (tr_lng ref) lat lng)"
  by (rule not_suspect_iff)

text \<open>A legitimate fix is never flagged: with at least one second between the fixes, a distance of
  at most 16 m per elapsed second plus 12 m is accepted whatever the accuracies and speeds announced.\<close>

theorem ordinary_driving_not_suspect:
  assumes "tr_time ref + 1000 \<le> t"
    and "haversineDistance (tr_lat ref) (tr_lng ref) lat lng
           \<le> 16 * secs_between (tr_time ref) t + 12"
  shows "\<not> suspect (evaluateTeleportation ref lat lng t accuracy speed)"
proof -
  let ?dt = "secs_between (tr_time ref) t"
  have dt: "1 \<le> ?dt"
    using assms(1) by (simp add: secs_between_def)
  then have "16 * ?dt + 12 \<le> plausibleDistance ref ?dt accuracy speed"
    by (intro plausibleDistance_ge) simp
  moreover have "16 * ?dt + 12 \<le> TELEPORT_SPEED_THRESHOLD_MS * ?dt"
    using dt by (simp add: teleport_consts)
  ultimately show ?thesis
    using assms by (simp add: not_suspect_iff)
qed

theorem ordinary_driving_not_suspect_witness:
  "\<not> suspect (evaluateTeleportation
       \<lparr>tr_lat = north 0, tr_lng = 47, tr_time = 0, tr_speed = Some (Fin 2), tr_acc = Some 8\<rparr>
       (north 127) 47 20000 (Some 8) (Some (Fin (17 / 10))))"
  by (rule ordinary_driving_not_suspect) (simp_all add: secs_between_def geo_simps)

end
