(* ===== verification/GpsQuality.thy ===== *)
theory GpsQuality
  imports DT_Prelude
begin

text \<open>
  The quality of a fix, \<open>backend/src/common/geo/gps-quality.ts\<close>: the accuracy estimated from
  the satellites, the HDOP and the device, the confidence score, and the quarantine of the unreliable
  fixes a tracker sends when it wakes up, with the bookkeeping the Traccar bridge does around it
  (\<open>handlePosition\<close> of \<open>traccar-bridge.service.ts\<close>). The attributes a tracker sends are
  untyped; the model takes them after the code's own \<open>Number(\<dots>)\<close>, as a \<open>jsnum\<close>
  (\<open>Number(undefined)\<close> is NaN).
\<close>

definition HDOP_UERE :: real where "HDOP_UERE = 5"
definition MAX_PLAUSIBLE_HDOP :: real where "MAX_PLAUSIBLE_HDOP = 50"
definition MAX_ACCURACY_M :: real where "MAX_ACCURACY_M = 1000"
definition DEFAULT_ACCURACY_M :: real where "DEFAULT_ACCURACY_M = 50"
definition WAKE_TRUST_MIN_SAT :: real where "WAKE_TRUST_MIN_SAT = 10"
definition WAKE_SILENCE_MIN_S :: real where "WAKE_SILENCE_MIN_S = 120"
definition WAKE_QUARANTINE_MAX_S :: real where "WAKE_QUARANTINE_MAX_S = 120"
definition WAKE_QUARANTINE_STALE_S :: real where "WAKE_QUARANTINE_STALE_S = 600"

lemmas quality_consts =
  HDOP_UERE_def MAX_PLAUSIBLE_HDOP_def MAX_ACCURACY_M_def DEFAULT_ACCURACY_M_def
lemmas wake_consts =
  WAKE_TRUST_MIN_SAT_def WAKE_SILENCE_MIN_S_def WAKE_QUARANTINE_MAX_S_def WAKE_QUARANTINE_STALE_S_def

subsection \<open>Accuracy\<close>

fun accuracyFromSatellites :: "jsnum \<Rightarrow> real option" where
  "accuracyFromSatellites NonFinite = None"
| "accuracyFromSatellites (Fin n) =
     (if n \<le> 0 then None
      else if 12 \<le> n then Some 8
      else if 10 \<le> n then Some 12
      else if 8 \<le> n then Some 20
      else if n = 7 then Some 35
      else if n = 6 then Some 55
      else if n = 5 then Some 90
      else Some 150)"

text \<open>The trace \<open>hdopInfo\<close>, as the list of the fragments the code appends.\<close>

datatype acc_note =
  DeviceIs real | DeviceZero | DeviceUnset | HdopTo real int | HdopOutOfRange real
| SatTo real real | Retained | DeviceBetter | OtherBetter | DefaultNote | ClampNote

text \<open>\<open>accuracy === undefined || candidate > accuracy\<close>: the candidate replaces the estimate.\<close>

definition improves :: "real option \<Rightarrow> real \<Rightarrow> bool" where
  "improves acc candidate =
     (case acc of None \<Rightarrow> True | Some a \<Rightarrow> a < candidate)"

definition deviceStep :: "real option \<Rightarrow> real option \<times> acc_note list" where
  "deviceStep deviceAccuracy =
     (case deviceAccuracy of
        Some a \<Rightarrow> if 0 < a then (Some a, [DeviceIs a])
                  else if a = 0 then (None, [DeviceZero]) else (None, [DeviceUnset])
      | None \<Rightarrow> (None, [DeviceUnset]))"

definition hdopStep :: "jsnum option \<Rightarrow> real option \<times> acc_note list \<Rightarrow> real option \<times> acc_note list" where
  "hdopStep hdop st =
     (case (hdop, st) of
        (Some (Fin h), (acc, info)) \<Rightarrow>
          if 0 < h then
            (if h \<le> MAX_PLAUSIBLE_HDOP then
               (let fromHdop = js_round (h * HDOP_UERE)
                in if improves acc (real_of_int fromHdop)
                   then (Some (real_of_int fromHdop), info @ [HdopTo h fromHdop, Retained])
                   else (acc, info @ [HdopTo h fromHdop, DeviceBetter]))
             else (acc, info @ [HdopOutOfRange h]))
          else st
      | _ \<Rightarrow> st)"

definition satStep :: "jsnum \<Rightarrow> real option \<times> acc_note list \<Rightarrow> real option \<times> acc_note list" where
  "satStep sat st =
     (case (sat, accuracyFromSatellites sat, st) of
        (Fin n, Some a, (acc, info)) \<Rightarrow>
          if improves acc a then (Some a, info @ [SatTo n a, Retained])
          else (acc, info @ [SatTo n a, OtherBetter])
      | _ \<Rightarrow> st)"

definition computeCombinedAccuracy ::
    "real option \<Rightarrow> jsnum option \<Rightarrow> jsnum \<Rightarrow> real \<times> acc_note list" where
  "computeCombinedAccuracy deviceAccuracy hdop sat =
     (let (acc, info) = satStep sat (hdopStep hdop (deviceStep deviceAccuracy));
          (a, info') = (case acc of
                          Some a \<Rightarrow> (a, info)
                        | None \<Rightarrow> (DEFAULT_ACCURACY_M, info @ [DefaultNote]))
      in if MAX_ACCURACY_M < a then (MAX_ACCURACY_M, info' @ [ClampNote]) else (a, info'))"

definition computeConfidence :: "real option \<Rightarrow> bool \<Rightarrow> real option \<Rightarrow> int" where
  "computeConfidence accuracy isSuspect speed =
     (let s0 = 100;
          s1 = (case accuracy of
                  Some a \<Rightarrow>
                    if 0 < a then
                      (if a \<le> 5 then s0 - 5 else if a \<le> 10 then s0 - 10
                       else if a \<le> 20 then s0 - 20 else if a \<le> 50 then s0 - 40 else s0 - 60)
                    else s0 - 30
                | None \<Rightarrow> s0 - 30);
          s2 = (if isSuspect then s1 - 50 else s1);
          s3 = (case speed of Some v \<Rightarrow> if v < 1 / 10 then min s2 70 else s2 | None \<Rightarrow> s2)
      in max 0 (min 100 s3))"

subsection \<open>The wake-up quarantine\<close>

record wake_verdict =
  quarantine :: bool
  quarantineSinceMs :: "ms option"
  quarantineLastMs :: "ms option"

definition wakeNone :: wake_verdict where
  "wakeNone = \<lparr>quarantine = False, quarantineSinceMs = None, quarantineLastMs = None\<rparr>"

definition weakFix :: "jsnum \<Rightarrow> bool" where
  "weakFix sat = (case sat of Fin n \<Rightarrow> 0 < n \<and> n < WAKE_TRUST_MIN_SAT | NonFinite \<Rightarrow> False)"

definition newEpisode :: "real option \<Rightarrow> ms \<Rightarrow> wake_verdict" where
  "newEpisode gapSincePrevSec fixTimeMs =
     (if (case gapSincePrevSec of None \<Rightarrow> True | Some g \<Rightarrow> WAKE_SILENCE_MIN_S < g)
      then \<lparr>quarantine = True, quarantineSinceMs = Some fixTimeMs, quarantineLastMs = Some fixTimeMs\<rparr>
      else wakeNone)"

definition evaluateWakeFix ::
    "jsnum \<Rightarrow> real option \<Rightarrow> ms option \<Rightarrow> ms option \<Rightarrow> ms \<Rightarrow> wake_verdict" where
  "evaluateWakeFix sat gapSincePrevSec sinceMs lastMsOpt fixTimeMs =
     (if \<not> weakFix sat then wakeNone
      else case sinceMs of
             None \<Rightarrow> newEpisode gapSincePrevSec fixTimeMs
           | Some since \<Rightarrow>
               (let lastMs = max (nullish lastMsOpt since) since
                in if WAKE_QUARANTINE_STALE_S < secs_between lastMs fixTimeMs
                   then newEpisode gapSincePrevSec fixTimeMs
                   else if WAKE_QUARANTINE_MAX_S \<le> secs_between since fixTimeMs then wakeNone
                   else \<lparr>quarantine = True, quarantineSinceMs = Some since,
                         quarantineLastMs = Some (max lastMs fixTimeMs)\<rparr>))"

text \<open>
  The bridge's bookkeeping for one vehicle: the entry of \<open>wakeQuarantine\<close> and the time of the
  last stored fix; a fix that is not quarantined goes on to be stored.
\<close>

record wake_state =
  wakeEntry :: "(ms \<times> ms) option"
  lastStoredMs :: "ms option"

definition wakeStep :: "wake_state \<Rightarrow> jsnum \<times> ms \<Rightarrow> bool \<times> wake_state" where
  "wakeStep st = (\<lambda>(sat, t).
     (let v = evaluateWakeFix sat (map_option (\<lambda>p. secs_between p t) (lastStoredMs st))
                (map_option fst (wakeEntry st)) (map_option snd (wakeEntry st)) t;
          entry = (case quarantineSinceMs v of
                     None \<Rightarrow> None
                   | Some s \<Rightarrow> Some (s, nullish (quarantineLastMs v) s))
      in (quarantine v,
          \<lparr>wakeEntry = entry,
           lastStoredMs = (if quarantine v then lastStoredMs st else Some t)\<rparr>)))"

fun wakeRun :: "wake_state \<Rightarrow> (jsnum \<times> ms) list \<Rightarrow> bool list" where
  "wakeRun st [] = []"
| "wakeRun st (f # fs) = (let (q, st') = wakeStep st f in q # wakeRun st' fs)"

subsection \<open>Lemmas\<close>

lemma accuracyFromSatellites_range:
  "accuracyFromSatellites s = Some a \<Longrightarrow> 8 \<le> a \<and> a \<le> 150"
  by (cases s) (auto split: if_splits)

text \<open>The estimate as the largest of the usable indicators.\<close>

definition hdopAccuracy :: "jsnum option \<Rightarrow> real option" where
  "hdopAccuracy hdop =
     (case hdop of
        Some (Fin h) \<Rightarrow>
          if 0 < h \<and> h \<le> MAX_PLAUSIBLE_HDOP then Some (real_of_int (js_round (h * HDOP_UERE)))
          else None
      | _ \<Rightarrow> None)"

definition deviceIndicator :: "real option \<Rightarrow> real option" where
  "deviceIndicator d = (case d of Some a \<Rightarrow> if 0 < a then Some a else None | None \<Rightarrow> None)"

fun largest :: "real option \<Rightarrow> real option \<Rightarrow> real option" where
  "largest None b = b"
| "largest a None = a"
| "largest (Some a) (Some b) = Some (max a b)"

lemma deviceStep_fst: "fst (deviceStep d) = deviceIndicator d"
  by (simp add: deviceStep_def deviceIndicator_def split: option.splits)

lemma hdopStep_fst: "fst (hdopStep h st) = largest (fst st) (hdopAccuracy h)"
  by (cases st; cases "fst st")
     (auto simp: hdopStep_def hdopAccuracy_def improves_def Let_def max_def
        split: option.splits jsnum.splits)

lemma satStep_fst: "fst (satStep s st) = largest (fst st) (accuracyFromSatellites s)"
  by (cases st; cases "fst st"; cases s)
     (auto simp: satStep_def improves_def max_def split: option.splits)

lemma wakeStep_continues:
  assumes "weakFix sat" "wakeEntry st = Some (s, l)" "s \<le> l"
    and "secs_between l t \<le> WAKE_QUARANTINE_STALE_S"
  shows "fst (wakeStep st (sat, t)) \<longleftrightarrow> secs_between s t < WAKE_QUARANTINE_MAX_S"
    and "fst (wakeStep st (sat, t)) \<Longrightarrow>
           wakeEntry (snd (wakeStep st (sat, t))) = Some (s, max l t)"
  using assms by (auto simp: wakeStep_def evaluateWakeFix_def wakeNone_def Let_def)

lemma wakeStep_opens:
  assumes "weakFix sat" "\<And>l. lastStoredMs st = Some l \<Longrightarrow> WAKE_SILENCE_MIN_S < secs_between l t"
    and "\<And>s l. wakeEntry st = Some (s, l) \<Longrightarrow> WAKE_QUARANTINE_STALE_S < secs_between (max l s) t"
  shows "wakeStep st (sat, t)
           = (True, \<lparr>wakeEntry = Some (t, t), lastStoredMs = lastStoredMs st\<rparr>)"
  using assms
  by (cases "wakeEntry st"; cases "lastStoredMs st")
     (auto simp: wakeStep_def evaluateWakeFix_def newEpisode_def Let_def)

text \<open>Weak fixes that follow each other by at most the stale delay.\<close>

fun denseFrom :: "ms \<Rightarrow> (jsnum \<times> ms) list \<Rightarrow> bool" where
  "denseFrom l [] = True"
| "denseFrom l ((sat, t) # fs) =
     (weakFix sat \<and> l \<le> t \<and> secs_between l t \<le> WAKE_QUARANTINE_STALE_S \<and> denseFrom t fs)"

lemma denseFrom_times:
  "denseFrom l fs \<Longrightarrow> f \<in> set fs \<Longrightarrow> l \<le> snd f"
  by (induction l fs rule: denseFrom.induct) force+

lemma computeConfidence_range: "0 \<le> computeConfidence a b v" "computeConfidence a b v \<le> 100"
  by (simp_all add: computeConfidence_def Let_def)

lemma computeConfidence_suspect: "computeConfidence a True v \<le> 45"
  by (auto simp: computeConfidence_def Let_def split: option.splits)

lemma wakeRun_dense:
  assumes "denseFrom l fs" "wakeEntry st = Some (s, l)" "s \<le> l"
    and "list_all (\<lambda>q. q) (wakeRun st fs)"
  shows "\<forall>f\<in>set fs. secs_between s (snd f) < WAKE_QUARANTINE_MAX_S"
  using assms
proof (induction l fs arbitrary: st rule: denseFrom.induct)
  case (2 l sat t fs)
  have w: "weakFix sat" "l \<le> t" "secs_between l t \<le> WAKE_QUARANTINE_STALE_S"
    using "2.prems"(1) by auto
  have q: "fst (wakeStep st (sat, t))" and rest: "list_all (\<lambda>q. q) (wakeRun (snd (wakeStep st (sat, t))) fs)"
    using "2.prems"(4) by (simp_all add: split_def Let_def)
  note c = wakeStep_continues [OF w(1) "2.prems"(2,3) w(3)]
  have "\<forall>f\<in>set fs. secs_between s (snd f) < WAKE_QUARANTINE_MAX_S"
    using c(2) [OF q] w(2) "2.prems"(1,3) by (intro "2.IH" [OF _ _ _ rest]) (auto simp: max_def)
  then show ?case using c(1) q by simp
qed simp

lemma wakeRun_sparse:
  assumes "\<And>l. lastStoredMs st = Some l \<Longrightarrow> l \<le> t - 601000"
    and "\<And>s l. wakeEntry st = Some (s, l) \<Longrightarrow> l \<le> t - 601000 \<and> s \<le> t - 601000"
  shows "wakeRun st (map (\<lambda>k. (Fin 5, t + 601000 * int k)) [0..<n]) = replicate n True"
  using assms
proof (induction n arbitrary: st t)
  case (Suc n)
  have step: "wakeStep st (Fin 5, t)
      = (True, \<lparr>wakeEntry = Some (t, t), lastStoredMs = lastStoredMs st\<rparr>)"
    using Suc.prems
    by (intro wakeStep_opens) (force simp: weakFix_def wake_consts secs_between_def)+
  have shift: "map (\<lambda>k. (Fin 5, t + 601000 * int k)) [0..<Suc n]
      = (Fin 5, t) # map (\<lambda>k. (Fin 5, (t + 601000) + 601000 * int k)) [0..<n]"
    by (simp add: upt_conv_Cons map_Suc_upt [symmetric] algebra_simps del: upt_Suc)
  show ?case
    unfolding shift
    by (simp add: step) (rule Suc.IH, use Suc.prems in fastforce, simp)
qed simp

subsection \<open>Properties\<close>

text \<open>The combined accuracy is the most pessimistic of the usable indicators (the device's own
  accuracy, 5 m per unit of plausible HDOP, the satellite scale), 50 m when there is none, and never
  more than the 1000 m that the position DTO accepts.\<close>

theorem computeCombinedAccuracy_is_max:
  "fst (computeCombinedAccuracy device hdop sat)
     = min MAX_ACCURACY_M
         (nullish (largest (largest (deviceIndicator device) (hdopAccuracy hdop))
                     (accuracyFromSatellites sat)) DEFAULT_ACCURACY_M)"
proof -
  have "fst (satStep sat (hdopStep hdop (deviceStep device)))
      = largest (largest (deviceIndicator device) (hdopAccuracy hdop)) (accuracyFromSatellites sat)"
    by (simp add: satStep_fst hdopStep_fst deviceStep_fst)
  then show ?thesis
    by (auto simp: computeCombinedAccuracy_def Let_def split_def nullish_def split: option.splits)
qed



text \<open>The promise that a tracker under a limited sky is never blocked holds only up to the stale
  delay: a tracker that has never been stored and sends five-satellite fixes 601 s apart has every
  one of them quarantined, for any number of fixes.\<close>

theorem sparse_weak_fixes_starve:
  "wakeRun \<lparr>wakeEntry = None, lastStoredMs = None\<rparr>
     (map (\<lambda>k. (Fin 5, 601000 * int k)) [0..<n]) = replicate n True"
  using wakeRun_sparse [of "\<lparr>wakeEntry = None, lastStoredMs = None\<rparr>" 0 n] by simp

end
