(* ===== verification/Anchor.thy ===== *)
theory Anchor
  imports Geo
begin

text \<open>
  The displayed position of a stopped vehicle, \<open>backend/src/common/geo/stationary-anchor.ts\<close>.
  \<open>tryAnchorEndingAt\<close> and \<open>computeAnchoredPosition\<close> keep the source's names; the backward
  scan with its three \<open>break\<close>s is \<open>stopRun\<close>, the weighted sums are \<open>weightedCentre\<close>
  and the outer loop over the end index is \<open>scanAnchors\<close>.
\<close>

definition ANCHOR_WINDOW_MS :: ms where "ANCHOR_WINDOW_MS = 90 * 60000"
definition ANCHOR_MIN_FIXES :: nat where "ANCHOR_MIN_FIXES = 2"
definition ANCHOR_INITIAL_RADIUS_MIN_M :: real where "ANCHOR_INITIAL_RADIUS_MIN_M = 150"
definition ANCHOR_INITIAL_RADIUS_ACC_MULT :: real where "ANCHOR_INITIAL_RADIUS_ACC_MULT = 4"
definition ANCHOR_CLUSTER_RADIUS_MIN_M :: real where "ANCHOR_CLUSTER_RADIUS_MIN_M = 60"
definition ANCHOR_CLUSTER_RADIUS_ACC_MULT :: real where "ANCHOR_CLUSTER_RADIUS_ACC_MULT = 3"
definition ANCHOR_MAX_LAG_MIN_M :: real where "ANCHOR_MAX_LAG_MIN_M = 20"
definition ANCHOR_MAX_LAG_CONTINUOUS_S :: real where "ANCHOR_MAX_LAG_CONTINUOUS_S = 120"
definition ANCHOR_MAX_LAG_ACC_MULT :: real where "ANCHOR_MAX_LAG_ACC_MULT = 3"
definition ANCHOR_ACCURACY_FLOOR_M :: real where "ANCHOR_ACCURACY_FLOOR_M = 5"

lemmas anchor_consts =
  ANCHOR_WINDOW_MS_def ANCHOR_MIN_FIXES_def ANCHOR_INITIAL_RADIUS_MIN_M_def
  ANCHOR_INITIAL_RADIUS_ACC_MULT_def ANCHOR_CLUSTER_RADIUS_MIN_M_def
  ANCHOR_CLUSTER_RADIUS_ACC_MULT_def ANCHOR_MAX_LAG_MIN_M_def ANCHOR_MAX_LAG_CONTINUOUS_S_def
  ANCHOR_MAX_LAG_ACC_MULT_def ANCHOR_ACCURACY_FLOOR_M_def STATIONARY_SPEED_MS_def

record anchor_fix =
  an_lat :: jsnum
  an_lng :: jsnum
  an_acc :: "real option"
  an_speed :: "real option"
  an_motion :: "bool option"
  an_time :: ms

text \<open>The coordinates of a fix that passed the \<open>Number.isFinite\<close> filter.\<close>

definition latOf :: "anchor_fix \<Rightarrow> real" where "latOf f = nullish (num_of (an_lat f)) 0"
definition lngOf :: "anchor_fix \<Rightarrow> real" where "lngOf f = nullish (num_of (an_lng f)) 0"

definition accOf :: "anchor_fix \<Rightarrow> real" where
  "accOf f = pos_or 50 (an_acc f)"

definition isStoppedFix :: "anchor_fix \<Rightarrow> bool" where
  "isStoppedFix f =
     (case an_speed f of
        Some v \<Rightarrow> v < STATIONARY_SPEED_MS
      | None \<Rightarrow> (case an_motion f of Some True \<Rightarrow> False | Some False \<Rightarrow> True | None \<Rightarrow> True))"

definition anchorDistance :: "anchor_fix \<Rightarrow> anchor_fix \<Rightarrow> meters" where
  "anchorDistance p q = haversineDistance (latOf p) (lngOf p) (latOf q) (lngOf q)"

definition stopRun :: "anchor_fix list \<Rightarrow> nat \<Rightarrow> anchor_fix list" where
  "stopRun srt endIndex =
     (let newest = srt ! endIndex;
          initialRadius = max ANCHOR_INITIAL_RADIUS_MIN_M
                              (ANCHOR_INITIAL_RADIUS_ACC_MULT * accOf newest)
      in newest # takeWhile (\<lambda>f. \<not> ANCHOR_WINDOW_MS < an_time newest - an_time f
                               \<and> isStoppedFix f
                               \<and> \<not> initialRadius < anchorDistance newest f)
                    (rev (take endIndex srt)))"

definition pickPivot :: "anchor_fix list \<Rightarrow> anchor_fix" where
  "pickPivot run = foldl (\<lambda>best f. if accOf f < accOf best then f else best) (hd run) run"

definition pivotCluster :: "anchor_fix list \<Rightarrow> anchor_fix list" where
  "pivotCluster run =
     (let pivot = pickPivot run;
          clusterRadius = max ANCHOR_CLUSTER_RADIUS_MIN_M
                              (ANCHOR_CLUSTER_RADIUS_ACC_MULT * accOf pivot)
      in filter (\<lambda>f. anchorDistance pivot f \<le> clusterRadius) run)"

definition fixWeight :: "anchor_fix \<Rightarrow> real" where
  "fixWeight f = (let a = max ANCHOR_ACCURACY_FLOOR_M (accOf f) in 1 / (a * a))"

definition weightedCentre :: "anchor_fix list \<Rightarrow> point option" where
  "weightedCentre cluster =
     (let wSum = sum_list (map fixWeight cluster)
      in if \<not> 0 < wSum then None
         else Some (sum_list (map (\<lambda>f. latOf f * fixWeight f) cluster) / wSum,
                    sum_list (map (\<lambda>f. lngOf f * fixWeight f) cluster) / wSum))"

definition tryAnchorEndingAt :: "anchor_fix list \<Rightarrow> nat \<Rightarrow> point option" where
  "tryAnchorEndingAt srt endIndex =
     (if \<not> isStoppedFix (srt ! endIndex) then None
      else let run = stopRun srt endIndex
           in if length run < ANCHOR_MIN_FIXES then None
              else let cluster = pivotCluster run
                   in if length cluster < ANCHOR_MIN_FIXES then None
                      else weightedCentre cluster)"

text \<open>The loop \<open>for endIndex = k, k - 1, \<dots>, ANCHOR_MIN_FIXES - 1\<close>.\<close>

fun scanAnchors :: "anchor_fix list \<Rightarrow> nat \<Rightarrow> point option" where
  "scanAnchors srt 0 = None"
| "scanAnchors srt (Suc k) =
     (case tryAnchorEndingAt srt (Suc k) of
        Some anchor \<Rightarrow> Some anchor
      | None \<Rightarrow> scanAnchors srt k)"

definition finiteSorted :: "anchor_fix list \<Rightarrow> anchor_fix list" where
  "finiteSorted fs =
     sort_key an_time (filter (\<lambda>f. isFiniteNum (an_lat f) \<and> isFiniteNum (an_lng f)) fs)"

definition maxLag :: "anchor_fix \<Rightarrow> real" where
  "maxLag newest = max ANCHOR_MAX_LAG_MIN_M (ANCHOR_MAX_LAG_ACC_MULT * accOf newest)"

definition isContinuous :: "anchor_fix list \<Rightarrow> bool" where
  "isContinuous srt \<longleftrightarrow>
     secs_between (an_time (srt ! (length srt - 2))) (an_time (last srt))
       \<le> ANCHOR_MAX_LAG_CONTINUOUS_S"

definition computeAnchoredPosition :: "anchor_fix list \<Rightarrow> point option" where
  "computeAnchoredPosition fs =
     (if length fs < ANCHOR_MIN_FIXES then None
      else let srt = finiteSorted fs
           in if length srt < ANCHOR_MIN_FIXES then None
              else if \<not> isStoppedFix (last srt) then None
              else case scanAnchors srt (length srt - 1) of
                     None \<Rightarrow> None
                   | Some anchor \<Rightarrow>
                       if isContinuous srt
                          \<and> maxLag (last srt)
                              < point_distance anchor (latOf (last srt), lngOf (last srt))
                       then None else Some anchor)"

subsection \<open>Lemmas\<close>

lemma accOf_pos: "0 < accOf f"
  by (simp add: accOf_def pos_or_pos)

lemma fixWeight_pos: "0 < fixWeight f"
  using accOf_pos [of f] by (simp add: fixWeight_def Let_def anchor_consts)

lemma fixWeight_le: "fixWeight f \<le> 1 / 25"
proof -
  have "5 * 5 \<le> max 5 (accOf f) * max 5 (accOf f)"
    by (rule mult_mono) auto
  then show ?thesis by (simp add: fixWeight_def Let_def anchor_consts field_simps)
qed

lemma sum_weights_pos: "fs \<noteq> [] \<Longrightarrow> 0 < sum_list (map fixWeight fs)"
proof (induction fs)
  case (Cons f fs)
  then show ?case using fixWeight_pos [of f] by (cases "fs = []") auto
qed simp

text \<open>A mean with positive weights lies between any bounds of the values.\<close>

lemma weighted_mean_bounds:
  assumes "fs \<noteq> []" "\<forall>f\<in>set fs. lo \<le> g f \<and> g f \<le> hi"
  shows "lo \<le> sum_list (map (\<lambda>f. g f * fixWeight f) fs) / sum_list (map fixWeight fs)"
    and "sum_list (map (\<lambda>f. g f * fixWeight f) fs) / sum_list (map fixWeight fs) \<le> hi"
proof -
  have "lo * sum_list (map fixWeight fs) \<le> sum_list (map (\<lambda>f. g f * fixWeight f) fs)"
    unfolding sum_list_const_mult [symmetric]
    using assms(2) fixWeight_pos by (intro sum_list_mono) (auto intro: mult_right_mono less_imp_le)
  moreover have "sum_list (map (\<lambda>f. g f * fixWeight f) fs) \<le> hi * sum_list (map fixWeight fs)"
    unfolding sum_list_const_mult [symmetric]
    using assms(2) fixWeight_pos by (intro sum_list_mono) (auto intro: mult_right_mono less_imp_le)
  ultimately show "lo \<le> sum_list (map (\<lambda>f. g f * fixWeight f) fs) / sum_list (map fixWeight fs)"
    "sum_list (map (\<lambda>f. g f * fixWeight f) fs) / sum_list (map fixWeight fs) \<le> hi"
    using sum_weights_pos [OF assms(1)] by (simp_all add: field_simps)
qed

lemma stopRun_subset: "endIndex < length srt \<Longrightarrow> set (stopRun srt endIndex) \<subseteq> set srt"
  by (auto simp: stopRun_def Let_def dest!: set_takeWhileD in_set_takeD)

lemma tryAnchor_mean:
  assumes "tryAnchorEndingAt srt e = Some p" "e < length srt"
  obtains cluster where "cluster \<noteq> []" "set cluster \<subseteq> set srt"
    "p = (sum_list (map (\<lambda>f. latOf f * fixWeight f) cluster) / sum_list (map fixWeight cluster),
          sum_list (map (\<lambda>f. lngOf f * fixWeight f) cluster) / sum_list (map fixWeight cluster))"
proof -
  let ?c = "pivotCluster (stopRun srt e)"
  have "2 \<le> length ?c" "weightedCentre ?c = Some p"
    using assms(1)
    by (auto simp: tryAnchorEndingAt_def Let_def ANCHOR_MIN_FIXES_def split: if_splits)
  moreover have "set ?c \<subseteq> set srt"
    using stopRun_subset [OF assms(2)] by (auto simp: pivotCluster_def Let_def)
  ultimately show ?thesis
    by (intro that [of ?c]) (auto simp: weightedCentre_def Let_def split: if_splits)
qed

lemma scanAnchors_found:
  "scanAnchors srt k = Some p \<Longrightarrow> \<exists>e\<le>k. 0 < e \<and> tryAnchorEndingAt srt e = Some p"
proof (induction k)
  case (Suc k)
  then show ?case
    by (cases "tryAnchorEndingAt srt (Suc k)") (auto intro: le_SucI)
qed simp

lemma finiteSorted_set: "set (finiteSorted fs) \<subseteq> set fs"
  by (auto simp: finiteSorted_def)

lemma computeAnchoredPosition_Some:
  assumes "computeAnchoredPosition fs = Some p"
  shows "2 \<le> length (finiteSorted fs)" "isStoppedFix (last (finiteSorted fs))"
    and "scanAnchors (finiteSorted fs) (length (finiteSorted fs) - 1) = Some p"
    and "isContinuous (finiteSorted fs) \<Longrightarrow>
      point_distance p (latOf (last (finiteSorted fs)), lngOf (last (finiteSorted fs)))
        \<le> maxLag (last (finiteSorted fs))"
  using assms
  by (auto simp: computeAnchoredPosition_def Let_def ANCHOR_MIN_FIXES_def
      split: if_splits option.splits)

subsection \<open>Properties\<close>

text \<open>An anchor is never outside the fixes it comes from: it lies in every latitude and longitude box
  that contains the fixes of the history, it is only shown when the most recent usable fix is a
  stopped one, and when the tracker reports continuously it is at most 20 m, or three times the last
  fix's accuracy, away from that last fix.\<close>

theorem anchor_stays_with_the_fixes:
  assumes "computeAnchoredPosition fs = Some (la, lo)"
    and "\<forall>f\<in>set fs. s \<le> latOf f \<and> latOf f \<le> n" "\<forall>f\<in>set fs. w \<le> lngOf f \<and> lngOf f \<le> e"
  shows "s \<le> la \<and> la \<le> n \<and> w \<le> lo \<and> lo \<le> e
    \<and> isStoppedFix (last (finiteSorted fs))
    \<and> (isContinuous (finiteSorted fs) \<longrightarrow>
         haversineDistance la lo (latOf (last (finiteSorted fs))) (lngOf (last (finiteSorted fs)))
           \<le> maxLag (last (finiteSorted fs)))"
proof -
  note found = computeAnchoredPosition_Some [OF assms(1)]
  obtain k where "k \<le> length (finiteSorted fs) - 1" "0 < k"
      and anchor: "tryAnchorEndingAt (finiteSorted fs) k = Some (la, lo)"
    using scanAnchors_found [OF found(3)] by blast
  with found(1) have "k < length (finiteSorted fs)" by simp
  with anchor obtain c where c: "c \<noteq> []" "set c \<subseteq> set (finiteSorted fs)"
      "(la, lo) = (sum_list (map (\<lambda>f. latOf f * fixWeight f) c) / sum_list (map fixWeight c),
          sum_list (map (\<lambda>f. lngOf f * fixWeight f) c) / sum_list (map fixWeight c))"
    by (rule tryAnchor_mean)
  then have "\<forall>f\<in>set c. s \<le> latOf f \<and> latOf f \<le> n" "\<forall>f\<in>set c. w \<le> lngOf f \<and> lngOf f \<le> e"
    using assms(2,3) finiteSorted_set by blast+
  from weighted_mean_bounds [OF c(1) this(1)] weighted_mean_bounds [OF c(1) this(2)] c(3) have "s \<le> la \<and> la \<le> n \<and> w \<le> lo \<and> lo \<le> e"
    by simp
  with found show ?thesis by simp
qed

definition parkedFix :: "meters \<Rightarrow> ms \<Rightarrow> anchor_fix" where
  "parkedFix m t = \<lparr>an_lat = Fin (north m), an_lng = Fin 47, an_acc = Some 8, an_speed = Some 0,
     an_motion = Some True, an_time = t\<rparr>"

lemma parkedFix_simps [simp]:
  "an_lat (parkedFix m t) = Fin (north m)" "an_lng (parkedFix m t) = Fin 47"
  "latOf (parkedFix m t) = north m" "lngOf (parkedFix m t) = 47" "accOf (parkedFix m t) = 8"
  "isStoppedFix (parkedFix m t)" "an_time (parkedFix m t) = t"
  by (simp_all add: parkedFix_def latOf_def lngOf_def accOf_def isStoppedFix_def anchor_consts)

theorem anchor_stays_with_the_fixes_witness:
  "computeAnchoredPosition [parkedFix 10 9000, parkedFix 0 0] = Some (north 5, 47)
   \<and> north 0 \<le> north 5 \<and> north 5 \<le> north 10"
proof -
  let ?fs = "[parkedFix 10 9000, parkedFix 0 0]"
  have srt: "finiteSorted ?fs = [parkedFix 0 0, parkedFix 10 9000]"
    by (simp add: finiteSorted_def)
  have run: "stopRun [parkedFix 0 0, parkedFix 10 9000] 1 = [parkedFix 10 9000, parkedFix 0 0]"
    by (simp add: stopRun_def anchorDistance_def anchor_consts geo_simps)
  have cluster: "pivotCluster [parkedFix 10 9000, parkedFix 0 0]
      = [parkedFix 10 9000, parkedFix 0 0]"
    by (simp add: pivotCluster_def pickPivot_def anchorDistance_def anchor_consts geo_simps)
  have "weightedCentre [parkedFix 10 9000, parkedFix 0 0] = Some (north 5, 47)"
    by (simp add: weightedCentre_def fixWeight_def anchor_consts north_def)
  then have anchor: "computeAnchoredPosition ?fs = Some (north 5, 47)"
    using run cluster
    by (simp add: computeAnchoredPosition_def srt tryAnchorEndingAt_def Let_def maxLag_def
        anchor_consts geo_simps)
  have "north 0 \<le> north 10"
    by (simp add: north_def EARTH_RADIUS_M_def)
  with anchor anchor_stays_with_the_fixes [OF anchor, of "north 0" "north 10" 47 47]
  show ?thesis by simp
qed

end
