(* ===== verification/RouteMatch.thy ===== *)
theory RouteMatch
  imports FilteredDistance
begin

text \<open>
  Map matching: the window, the radii and the acceptance test of
  \<open>backend/src/common/geo/live-map-match.ts\<close>, and the road distance of a day,
  \<open>computeRouteMatchedDistance\<close> of \<open>backend/src/common/geo/route-distance.ts\<close>. The OSRM
  service is outside the repository: \<open>matchFn\<close> is a parameter. Its answer may depend on when it
  is asked, so it also receives the number of calls still allowed; a rejected promise is
  \<open>Inl ()\<close>, an answer \<open>null\<close> is \<open>Inr None\<close>.
\<close>

definition MATCH_MIN_FIXES :: nat where "MATCH_MIN_FIXES = 4"
definition MATCH_WINDOW_SIZE :: nat where "MATCH_WINDOW_SIZE = 8"
definition MATCH_MIN_CONFIDENCE :: real where "MATCH_MIN_CONFIDENCE = 1 / 2"
definition MATCH_MAX_SNAP_DISTANCE_M :: real where "MATCH_MAX_SNAP_DISTANCE_M = 50"
definition MATCH_RADIUS_MIN_M :: real where "MATCH_RADIUS_MIN_M = 15"
definition MATCH_RADIUS_MAX_M :: real where "MATCH_RADIUS_MAX_M = 50"
definition ROUTE_MATCH_MIN_CONFIDENCE :: real where "ROUTE_MATCH_MIN_CONFIDENCE = 5 / 100"
definition MATCH_CHUNK_SIZE :: nat where "MATCH_CHUNK_SIZE = 80"
definition MAX_MATCH_CHUNKS :: nat where "MAX_MATCH_CHUNKS = 80"

subsection \<open>Live map matching\<close>

definition selectMatchWindow :: "'a list \<Rightarrow> 'a list option" where
  "selectMatchWindow fs =
     (if length fs < MATCH_MIN_FIXES then None else Some (drop (length fs - MATCH_WINDOW_SIZE) fs))"

definition matchRadiuses :: "gps_fix list \<Rightarrow> int list" where
  "matchRadiuses window =
     map (\<lambda>f. js_round (max MATCH_RADIUS_MIN_M (min MATCH_RADIUS_MAX_M (pos_or 25 (fx_acc f))))) window"

definition acceptSnappedTail :: "point \<Rightarrow> (jsnum \<times> jsnum) option \<Rightarrow> jsnum \<Rightarrow> point option" where
  "acceptSnappedTail rawLast snappedTail confidence =
     (case (snappedTail, confidence) of
        (Some (Fin latitude, Fin longitude), Fin c) \<Rightarrow>
          if \<not> MATCH_MIN_CONFIDENCE \<le> c then None
          else if MATCH_MAX_SNAP_DISTANCE_M < point_distance rawLast (latitude, longitude) then None
          else Some (latitude, longitude)
      | _ \<Rightarrow> None)"

lemma selectMatchWindow_length:
  "selectMatchWindow fs = Some w \<Longrightarrow> 4 \<le> length w \<and> length w \<le> 8"
  by (auto simp: selectMatchWindow_def MATCH_MIN_FIXES_def MATCH_WINDOW_SIZE_def split: if_splits)

lemma matchRadiuses_range: "r \<in> set (matchRadiuses w) \<Longrightarrow> 15 \<le> r \<and> r \<le> 50"
proof -
  assume "r \<in> set (matchRadiuses w)"
  then obtain x where "r = js_round (max 15 (min 50 x))"
    by (auto simp: matchRadiuses_def MATCH_RADIUS_MIN_M_def MATCH_RADIUS_MAX_M_def)
  moreover have "js_round 15 \<le> js_round (max 15 (min 50 x))"
    "js_round (max 15 (min 50 x)) \<le> js_round 50"
    by (rule js_round_mono, simp)+
  ultimately show ?thesis
    using js_round_of_int [of 15] js_round_of_int [of 50] by simp
qed

subsection \<open>Road distance by chunks\<close>

record match_result =
  m_distance :: real
  m_confidence :: real

type_synonym match_fn = "nat \<Rightarrow> point list \<Rightarrow> int list \<Rightarrow> unit + match_result option"

definition chunkDistance :: "match_fn \<Rightarrow> gps_fix list \<Rightarrow> nat \<Rightarrow> real \<times> nat" where
  "chunkDistance matchFn chunk remaining =
     (if MATCH_MIN_FIXES \<le> length chunk \<and> 0 < remaining then
        (let answer = matchFn remaining (map (\<lambda>f. (fx_lat f, fx_lng f)) chunk) (matchRadiuses chunk);
             matched = (case answer of Inl _ \<Rightarrow> None | Inr m \<Rightarrow> m)
         in (case matched of
               Some m \<Rightarrow>
                 if ROUTE_MATCH_MIN_CONFIDENCE \<le> m_confidence m then m_distance m
                 else computeFilteredDistance chunk
             | None \<Rightarrow> computeFilteredDistance chunk,
             remaining - 1))
      else (computeFilteredDistance chunk, remaining))"

function chunkLoop :: "match_fn \<Rightarrow> gps_fix list \<Rightarrow> nat \<Rightarrow> real \<Rightarrow> nat \<Rightarrow> real \<times> nat" where
  "chunkLoop matchFn ps i tot remaining =
     (if i + 1 < length ps then
        (let e = min (i + MATCH_CHUNK_SIZE) (length ps);
             (d, remaining') = chunkDistance matchFn (take (e - i) (drop i ps)) remaining
         in if length ps \<le> e then (tot + d, remaining')
            else chunkLoop matchFn ps (e - 1) (tot + d) remaining')
      else (tot, remaining))"
  by pat_completeness auto
termination
  by (relation "measure (\<lambda>(_, ps, i, _). length ps - i)") (auto simp: MATCH_CHUNK_SIZE_def)

declare chunkLoop.simps [simp del]

definition computeRouteMatchedDistance :: "gps_fix list \<Rightarrow> match_fn \<Rightarrow> nat \<Rightarrow> real \<times> nat" where
  "computeRouteMatchedDistance positions matchFn remaining =
     (let withTimestamps = filter (\<lambda>p. fx_time p \<noteq> None) positions
      in if length withTimestamps < 2 then (computeFilteredDistance positions, remaining)
         else chunkLoop matchFn (collapseStationaryWindows (sort_key timeOf withTimestamps)) 0 0 remaining)"

subsection \<open>The chunks as a list\<close>

function chunksFrom :: "'a list \<Rightarrow> nat \<Rightarrow> 'a list list" where
  "chunksFrom ps i =
     (if i + 1 < length ps then
        (let e = min (i + MATCH_CHUNK_SIZE) (length ps); c = take (e - i) (drop i ps)
         in if length ps \<le> e then [c] else c # chunksFrom ps (e - 1))
      else [])"
  by pat_completeness auto
termination
  by (relation "measure (\<lambda>(ps, i). length ps - i)") (auto simp: MATCH_CHUNK_SIZE_def)

declare chunksFrom.simps [simp del]

fun sumChunks :: "match_fn \<Rightarrow> gps_fix list list \<Rightarrow> real \<Rightarrow> nat \<Rightarrow> real \<times> nat" where
  "sumChunks matchFn [] tot remaining = (tot, remaining)"
| "sumChunks matchFn (c # cs) tot remaining =
     (let (d, remaining') = chunkDistance matchFn c remaining
      in sumChunks matchFn cs (tot + d) remaining')"

lemma chunkLoop_eq: "chunkLoop matchFn ps i tot r = sumChunks matchFn (chunksFrom ps i) tot r"
proof (induction matchFn ps i tot r rule: chunkLoop.induct)
  case (1 matchFn ps i tot r)
  show ?case
  proof (cases "i + 1 < length ps")
    case False
    then show ?thesis by (simp add: chunkLoop.simps chunksFrom.simps)
  next
    case True
    define e where "e = min (i + MATCH_CHUNK_SIZE) (length ps)"
    obtain d r' where d: "chunkDistance matchFn (take (e - i) (drop i ps)) r = (d, r')"
      by (cases "chunkDistance matchFn (take (e - i) (drop i ps)) r")
    show ?thesis
    proof (cases "length ps \<le> e")
      case last: True
      with True d show ?thesis
        by (simp add: chunkLoop.simps [of _ _ i] chunksFrom.simps [of _ i] flip: e_def)
    next
      case more: False
      have "chunkLoop matchFn ps (e - 1) (tot + d) r'
          = sumChunks matchFn (chunksFrom ps (e - 1)) (tot + d) r'"
        using True more by (intro "1.IH") (simp_all add: d flip: e_def)
      with True d more show ?thesis
        by (simp add: chunkLoop.simps [of _ _ i] chunksFrom.simps [of _ i] flip: e_def)
    qed
  qed
qed

lemma chunksFrom_length: "c \<in> set (chunksFrom ps i) \<Longrightarrow> 2 \<le> length c \<and> length c \<le> MATCH_CHUNK_SIZE"
proof (induction ps i rule: chunksFrom.induct)
  case (1 ps i)
  define e where "e = min (i + MATCH_CHUNK_SIZE) (length ps)"
  have here: "2 \<le> length (take (e - i) (drop i ps)) \<and> length (take (e - i) (drop i ps)) \<le> MATCH_CHUNK_SIZE"
    if "i + 1 < length ps"
    using that by (auto simp: e_def MATCH_CHUNK_SIZE_def)
  show ?case
    using 1 here by (subst (asm) (2) chunksFrom.simps) (auto simp: Let_def e_def split: if_splits)
qed

text \<open>
  A chunk and the rest share one point: the segment between them is in exactly one of the two.
\<close>

context geo_metric begin

lemma chords_split:
  assumes "i < m" "m \<le> length ps"
  shows "chords d (drop i ps) = chords d (take (m - i) (drop i ps)) + chords d (drop (m - 1) ps)"
proof -
  define xs k where "xs = drop i ps" and "k = m - 1 - i"
  have k: "k < length xs" "m - i = Suc k" "drop (m - 1) ps = drop k xs"
    using assms by (auto simp: xs_def k_def)
  have "xs = take k xs @ xs ! k # drop (Suc k) xs"
    using k(1) by (rule id_take_nth_drop)
  then have "chords d xs = chords d (take k xs @ [xs ! k]) + chords d (xs ! k # drop (Suc k) xs)"
    using chords_append by metis
  also have "take k xs @ [xs ! k] = take (m - i) xs"
    using k by (simp add: take_Suc_conv_app_nth)
  also have "xs ! k # drop (Suc k) xs = drop (m - 1) ps"
    using k by (simp add: Cons_nth_drop_Suc)
  finally show ?thesis by (simp add: xs_def)
qed

lemma chords_short: "length ps \<le> 1 \<Longrightarrow> chords d ps = 0"
  by (cases ps) auto

lemma chunks_cover: "(\<Sum>c\<leftarrow>chunksFrom ps i. chords d c) = chords d (drop i ps)"
proof (induction ps i rule: chunksFrom.induct)
  case (1 ps i)
  define e where "e = min (i + MATCH_CHUNK_SIZE) (length ps)"
  show ?case
  proof (cases "i + 1 < length ps")
    case False
    then show ?thesis by (simp add: chunksFrom.simps chords_short)
  next
    case True
    then have e: "i < e" "e \<le> length ps" by (simp_all add: e_def MATCH_CHUNK_SIZE_def)
    show ?thesis
    proof (cases "length ps \<le> e")
      case last: True
      then show ?thesis
        using True by (simp add: chunksFrom.simps [of ps i] flip: e_def)
    next
      case more: False
      have "(\<Sum>c\<leftarrow>chunksFrom ps (e - 1). chords d c) = chords d (drop (e - 1) ps)"
        using True more by (intro "1.IH") (simp_all add: e_def)
      with True more chords_split [OF e] show ?thesis
        by (simp add: chunksFrom.simps [of ps i] flip: e_def)
    qed
  qed
qed

end

definition matchable :: "gps_fix list \<Rightarrow> bool" where
  "matchable c \<longleftrightarrow> MATCH_MIN_FIXES \<le> length c"

lemma sumChunks_budget:
  "snd (sumChunks matchFn cs tot r) = r - length (filter matchable cs)"
proof (induction cs arbitrary: tot r)
  case (Cons c cs)
  have "snd (chunkDistance matchFn c r) = (if matchable c then r - 1 else r)"
    by (simp add: chunkDistance_def matchable_def Let_def)
  with Cons show ?case by (simp add: split_def)
qed simp

lemma computeFilteredDistance_nonneg: "0 \<le> computeFilteredDistance ps"
  using distanceLoop_account [OF runInv_init, of "collapseStationaryWindows ps"]
  by (simp add: computeFilteredDistance_def runInv_def)

lemma sumChunks_unmatched:
  assumes "\<And>r pts rad m. matchFn r pts rad = Inr (Some m) \<Longrightarrow> m_confidence m < ROUTE_MATCH_MIN_CONFIDENCE"
  shows "fst (sumChunks matchFn cs tot r) = tot + (\<Sum>c\<leftarrow>cs. computeFilteredDistance c)"
proof (induction cs arbitrary: tot r)
  case (Cons c cs)
  have "fst (chunkDistance matchFn c r) = computeFilteredDistance c"
    using assms [of r "map (\<lambda>f. (fx_lat f, fx_lng f)) c" "matchRadiuses c"]
    by (auto simp: chunkDistance_def Let_def not_le split: sum.splits option.splits)
  with Cons show ?case by (simp add: split_def)
qed simp

subsection \<open>Properties\<close>

text \<open>The overlap by one point loses no segment and doubles none: for every notion of distance with
  the laws of \<open>geo_metric\<close>, here the code's own, the polyline lengths of the chunks add up to the
  polyline length of the whole collapsed day, no chunk is longer than the 80 points OSRM accepts, and
  the shared budget decreases by exactly one per chunk of at least four points, never below zero.\<close>

theorem route_chunks_partition_the_trace:
  "(\<Sum>c\<leftarrow>chunksFrom day 0. chords fixDistance c) = chords fixDistance day
   \<and> list_all (\<lambda>c. 2 \<le> length c \<and> length c \<le> MATCH_CHUNK_SIZE) (chunksFrom day 0)
   \<and> snd (chunkLoop matchFn day 0 0 remaining)
       = remaining - length (filter matchable (chunksFrom day 0))"
  using trackm.chunks_cover [of day 0] chunksFrom_length [of _ day 0]
  by (auto simp: list_all_iff chunkLoop_eq sumChunks_budget)

text \<open>A day whose matching fails everywhere (OSRM down, no answer, or a confidence below 0.05) falls
  back chunk by chunk: the result is the sum of the filtered distances of the chunks.\<close>

theorem route_distance_fallback:
  assumes "\<And>r pts rad m. matchFn r pts rad = Inr (Some m)
             \<Longrightarrow> m_confidence m < ROUTE_MATCH_MIN_CONFIDENCE"
    and "2 \<le> length (filter (\<lambda>p. fx_time p \<noteq> None) positions)"
  shows "fst (computeRouteMatchedDistance positions matchFn remaining)
    = (\<Sum>c\<leftarrow>chunksFrom (collapseStationaryWindows
           (sort_key timeOf (filter (\<lambda>p. fx_time p \<noteq> None) positions))) 0.
         computeFilteredDistance c)"
  using assms(2)
  by (simp add: computeRouteMatchedDistance_def chunkLoop_eq sumChunks_unmatched [OF assms(1)])

theorem route_distance_fallback_witness:
  "fst (computeRouteMatchedDistance
         (map (trackFix (Some 5) (Some 8)) [(0, 0), (40, 10000), (80, 20000)])
         (\<lambda>_ _ _. Inl ()) 80)
   = computeFilteredDistance (map (trackFix (Some 5) (Some 8)) [(0, 0), (40, 10000), (80, 20000)])"
proof -
  let ?ps = "map (trackFix (Some 5) (Some 8)) [(0, 0), (40, 10000), (80, 20000)]"
  have srt: "sort_key timeOf (filter (\<lambda>p. fx_time p \<noteq> None) ?ps) = ?ps"
    by simp
  have "collapseStationaryWindows ?ps = ?ps"
    using stopsFrom_moving [of ?ps 0]
    by (simp add: collapse_eq detectStopWindows_def movingHere_def geo_consts nth_Cons
        split: nat.splits)
  moreover have "chunksFrom ?ps 0 = [?ps]"
    by (simp add: chunksFrom.simps MATCH_CHUNK_SIZE_def)
  ultimately show ?thesis
    using route_distance_fallback [of "\<lambda>_ _ _. Inl ()" ?ps 80] unfolding srt by simp
qed

end
