(* ===== verification/Telemetry.thy ===== *)
theory Telemetry
  imports DT_Prelude
begin

text \<open>
  Tracker telemetry: \<open>backend/src/common/geo/tracker-telemetry.ts\<close>, the stored form that the
  Traccar bridge builds from it (\<open>buildStoredAttributes\<close>, \<open>parseStoredTelemetry\<close>,
  \<open>classifySilenceCause\<close> of \<open>traccar-bridge.service.ts\<close>) and the cause of a silence that the
  tracking service reads back from it (\<open>classifyTrackerSilenceCause\<close> of
  \<open>tracking.service.ts\<close>). A raw attribute is untyped: numeric ones are taken after the code's own
  \<open>Number(\<dots>)\<close>, \<open>None\<close> for null or undefined; flags are values of \<open>jsval\<close>.
\<close>

datatype jsval = JBool bool | JNum jsnum | JStr string

record raw_attributes =
  at_power :: "jsnum option"
  at_powerVoltage :: "jsnum option"
  at_voltage :: "jsnum option"
  at_battery :: "jsnum option"
  at_batteryLevel :: "jsnum option"
  at_batteryLevelPct :: "jsnum option"
  at_ignition :: "jsval option"
  at_sat :: jsnum
  at_motion :: "jsval option"

record tracker_telemetry =
  powerVolts :: "real option"
  batteryPercent :: "real option"
  ignition :: "bool option"

definition POWER_CUT_VOLTS :: real where "POWER_CUT_VOLTS = 1 / 2"
definition BATTERY_CRITICAL_PCT :: real where "BATTERY_CRITICAL_PCT = 20"

fun parseFinite :: "jsnum option list \<Rightarrow> real option" where
  "parseFinite [] = None"
| "parseFinite (Some (Fin n) # vs) = Some n"
| "parseFinite (_ # vs) = parseFinite vs"

definition round2 :: "real \<Rightarrow> real" where
  "round2 n = real_of_int (js_round (n * 100)) / 100"

definition clampPercent :: "real \<Rightarrow> real" where
  "clampPercent x = real_of_int (max 0 (min 100 (js_round x)))"

definition batteryToPercent :: "real \<Rightarrow> real" where
  "batteryToPercent battery =
     (if 100 < battery then clampPercent (((battery / 1000 - 3) / (12 / 10)) * 100)
      else clampPercent battery)"

definition ignitionOn :: "jsval \<Rightarrow> bool" where
  "ignitionOn v \<longleftrightarrow> v \<in> {JBool True, JNum (Fin 1), JStr ''1'', JStr ''true''}"

definition extractTrackerTelemetry :: "raw_attributes option \<Rightarrow> tracker_telemetry" where
  "extractTrackerTelemetry attributes =
     (case attributes of
        None \<Rightarrow> \<lparr>powerVolts = None, batteryPercent = None, ignition = None\<rparr>
      | Some a \<Rightarrow>
          (let power = parseFinite [at_power a, at_powerVoltage a, at_voltage a];
               battery = parseFinite [at_battery a, at_batteryLevel a, at_batteryLevelPct a]
           in \<lparr>powerVolts = map_option (\<lambda>p. if 50 < p then round2 (p / 1000) else round2 p) power,
               batteryPercent = map_option batteryToPercent battery,
               ignition = map_option ignitionOn (at_ignition a)\<rparr>))"

text \<open>The JSON object stored with a position; a field that is absent is \<open>None\<close>.\<close>

record stored_attributes =
  st_power :: "real option"
  st_battery :: "real option"
  st_ignition :: "bool option"
  st_sat :: "real option"
  st_motion :: "bool option"

definition emptyStored :: stored_attributes where
  "emptyStored = \<lparr>st_power = None, st_battery = None, st_ignition = None, st_sat = None, st_motion = None\<rparr>"

definition toJsonValue :: "tracker_telemetry \<Rightarrow> stored_attributes option" where
  "toJsonValue t =
     (if powerVolts t = None \<and> batteryPercent t = None \<and> ignition t = None then None
      else Some (emptyStored\<lparr>st_power := powerVolts t, st_battery := batteryPercent t,
                             st_ignition := ignition t\<rparr>))"

definition buildStoredAttributes :: "tracker_telemetry \<Rightarrow> raw_attributes option \<Rightarrow> stored_attributes option" where
  "buildStoredAttributes telemetry raw =
     (let base = nullish (toJsonValue telemetry) emptyStored;
          withSat = (case map_option at_sat raw of
                       Some (Fin n) \<Rightarrow> if 0 < n then base\<lparr>st_sat := Some n\<rparr> else base
                     | _ \<Rightarrow> base);
          withMotion = (case Option.bind raw at_motion of
                          Some (JBool b) \<Rightarrow> withSat\<lparr>st_motion := Some b\<rparr>
                        | _ \<Rightarrow> withSat)
      in if withMotion = emptyStored then None else Some withMotion)"

definition parseStoredTelemetry :: "stored_attributes option \<Rightarrow> real option \<times> real option" where
  "parseStoredTelemetry attributes =
     (case attributes of None \<Rightarrow> (None, None) | Some a \<Rightarrow> (st_power a, st_battery a))"

definition isPowerCut :: "real option \<Rightarrow> bool" where
  "isPowerCut volts = (case volts of Some v \<Rightarrow> v \<le> POWER_CUT_VOLTS | None \<Rightarrow> False)"

definition isBatteryCritical :: "real option \<Rightarrow> bool" where
  "isBatteryCritical pct =
     (case pct of Some b \<Rightarrow> 0 < b \<and> b \<le> BATTERY_CRITICAL_PCT | None \<Rightarrow> False)"

datatype silence_cause = PowerCut | BatteryCritical | NoTelemetry | NormalThenSilence

definition classifySilenceCause :: "real option \<times> real option \<Rightarrow> silence_cause" where
  "classifySilenceCause = (\<lambda>(volts, pct).
     if isPowerCut volts then PowerCut
     else if isBatteryCritical pct then BatteryCritical
     else if volts = None \<and> pct = None then NoTelemetry
     else NormalThenSilence)"

text \<open>The tracking service's own reading, with its thresholds written as literals.\<close>

definition classifyTrackerSilenceCause :: "stored_attributes option \<Rightarrow> silence_cause" where
  "classifyTrackerSilenceCause attributes =
     (case attributes of
        None \<Rightarrow> NoTelemetry
      | Some a \<Rightarrow>
          if (case st_power a of Some p \<Rightarrow> p \<le> 1 / 2 | None \<Rightarrow> False) then PowerCut
          else if (case st_battery a of Some b \<Rightarrow> 0 < b \<and> b \<le> 20 | None \<Rightarrow> False) then BatteryCritical
          else if st_power a = None \<and> st_battery a = None then NoTelemetry
          else NormalThenSilence)"

subsection \<open>Lemmas\<close>

lemma clampPercent_range: "0 \<le> clampPercent x" "clampPercent x \<le> 100"
  by (simp_all add: clampPercent_def)

lemma clampPercent_mono: "x \<le> y \<Longrightarrow> clampPercent x \<le> clampPercent y"
  using js_round_mono [of x y] by (auto simp: clampPercent_def)

lemma batteryToPercent_range: "0 \<le> batteryToPercent b" "batteryToPercent b \<le> 100"
  by (simp_all add: batteryToPercent_def clampPercent_range)

lemma buildStored_fields:
  "map_option st_power (buildStoredAttributes t raw) = Some p \<Longrightarrow> p = powerVolts t"
  "map_option st_battery (buildStoredAttributes t raw) = Some b \<Longrightarrow> b = batteryPercent t"
  by (auto simp: buildStoredAttributes_def toJsonValue_def emptyStored_def Let_def
      split: if_splits option.splits jsnum.splits jsval.splits)

lemma buildStored_None:
  "buildStoredAttributes t raw = None \<Longrightarrow> powerVolts t = None \<and> batteryPercent t = None"
  by (auto simp: buildStoredAttributes_def toJsonValue_def emptyStored_def Let_def
      split: if_splits option.splits jsnum.splits jsval.splits)

lemma parseStored_build:
  "parseStoredTelemetry (buildStoredAttributes t raw) = (powerVolts t, batteryPercent t)"
  using buildStored_None [of t raw] buildStored_fields [of t raw]
  by (cases "buildStoredAttributes t raw") (auto simp: parseStoredTelemetry_def)

lemma classifiers_agree:
  "classifyTrackerSilenceCause a = classifySilenceCause (parseStoredTelemetry a)"
  by (auto simp: classifyTrackerSilenceCause_def classifySilenceCause_def parseStoredTelemetry_def
      isPowerCut_def isBatteryCritical_def POWER_CUT_VOLTS_def BATTERY_CRITICAL_PCT_def
      split: option.splits)

subsection \<open>Properties\<close>

text \<open>Storing telemetry and reading it back loses nothing that the silence diagnosis needs: for any
  attributes a tracker sends, the stored object gives back the extracted voltage and battery level,
  and the tracking service (which has its own thresholds) names the same cause of silence as the
  Traccar bridge does from the live values. The battery level is always a percentage.\<close>

theorem silence_cause_roundtrip:
  "let t = extractTrackerTelemetry raw; stored = buildStoredAttributes t raw
   in parseStoredTelemetry stored = (powerVolts t, batteryPercent t)
      \<and> classifyTrackerSilenceCause stored = classifySilenceCause (powerVolts t, batteryPercent t)
      \<and> pred_option (\<lambda>b. 0 \<le> b \<and> b \<le> 100) (batteryPercent t)"
  by (auto simp: Let_def parseStored_build classifiers_agree extractTrackerTelemetry_def
      batteryToPercent_range option.pred_map comp_def option.pred_True split: option.splits)

text \<open>
  The comment of \<open>extractTrackerTelemetry\<close> names 3.7 to 4.2 as the range of an internal battery
  voltage; a reading in that range is taken as a percentage, so a full battery at 4.2 counts as 4 per
  cent and raises the critical battery alert.
\<close>

lemma full_battery_in_volts_is_critical:
  "batteryToPercent (42 / 10) = 4 \<and> isBatteryCritical (Some (batteryToPercent (42 / 10)))"
proof -
  have "js_round (42 / 10) = 4"
    unfolding js_round_def by (simp add: floor_eq_iff)
  then show ?thesis
    by (simp add: batteryToPercent_def clampPercent_def isBatteryCritical_def BATTERY_CRITICAL_PCT_def)
qed

end
