(* ===== verification/Delivery_Data.thy ===== *)
theory Delivery_Data
  imports Geo
begin

text \<open>
  The data of \<open>backend/src/modules/deliveries\<close>: the rows the service reads and writes (table
  \<open>deliveries\<close> of \<open>schema.prisma\<close> and the columns of vehicles, drivers and positions it
  queries), the transition matrix, the outgoing effects, and the table operations. A table is a map
  from identifiers to rows; \<open>createdAt\<close>/\<open>updatedAt\<close>, the joined columns of a response and
  failures of the database itself are not modelled. \<open>orderIndex\<close> is the unique index of the table on company and external
  order reference. The effects (queue jobs, notifications, webhooks,
  bus messages) are appended in order to \<open>outbox\<close>.
\<close>

datatype delivery_status = Pending | Assigned | InProgress | Delivered | Failed | Cancelled

fun TRANSITION_MATRIX :: "delivery_status \<Rightarrow> delivery_status list" where
  "TRANSITION_MATRIX Pending = [Assigned, Cancelled]"
| "TRANSITION_MATRIX Assigned = [InProgress, Cancelled]"
| "TRANSITION_MATRIX InProgress = [Delivered, Failed, Cancelled]"
| "TRANSITION_MATRIX Delivered = []"
| "TRANSITION_MATRIX Failed = []"
| "TRANSITION_MATRIX Cancelled = []"

definition isValidTransition :: "delivery_status \<Rightarrow> delivery_status \<Rightarrow> bool" where
  "isValidTransition a b \<longleftrightarrow> b \<in> set (TRANSITION_MATRIX a)"

definition isFuelReportTriggerStatus :: "delivery_status \<Rightarrow> bool" where
  "isFuelReportTriggerStatus st \<longleftrightarrow> st = Delivered \<or> st = Failed"

text \<open>The columns no operation of the service branches on.\<close>

record delivery_info =
  description :: "string option"
  pickupAddress :: string
  pickupPoint :: "real option \<times> real option"
  pickupLocationLabel :: "string option"
  deliveryLocationLabel :: "string option"
  scheduledDate :: "ms option"
  noteText :: "string option"
  clientPhone :: "string option"
  amount :: "int option"
  articlePrice :: "int option"
  productDescription :: "string option"

record delivery =
  companyId :: ident
  title :: string
  status :: delivery_status
  deliveryAddress :: string
  deliveryLat :: "real option"
  deliveryLng :: "real option"
  vehicleId :: "ident option"
  driverId :: "ident option"
  assignedDriverId :: "ident option"
  clientId :: "ident option"
  completedAt :: "ms option"
  proofLat :: "real option"
  proofLng :: "real option"
  proofDistance :: "int option"
  proofAccuracy :: "real option"
  locationMismatch :: bool
  mismatchResolved :: bool
  externalOrderRef :: "string option"
  tourSequence :: "nat option"
  deletedAt :: "ms option"
  info :: delivery_info

record driver_row =
  drv_company :: ident
  drv_user :: "ident option"
  drv_deleted :: bool

record vehicle_row =
  veh_company :: ident
  veh_deleted :: bool

record gps_row =
  g_delivery :: ident
  g_suspect :: bool
  g_time :: ms
  g_lat :: real
  g_lng :: real

text \<open>A field of a request body can be absent, null or a value: \<open>@IsOptional\<close> lets null
  through, and the services test for \<open>undefined\<close>.\<close>

datatype 'a field = Unset | Null | Val 'a

fun applyField :: "'a field \<Rightarrow> 'a option \<Rightarrow> 'a option" where
  "applyField Unset old = old"
| "applyField Null old = None"
| "applyField (Val x) old = Some x"

subsection \<open>Effects\<close>

datatype mismatch_reason = NoMismatch | TooFar int | NoCoords

datatype priority = Low | Medium | High

datatype notification_kind = LocationMismatch mismatch_reason | DeliveryStatusChange delivery_status

datatype effect =
  FuelJob ident ident ms delivery_status
| Notify ident ident notification_kind priority "ident option"
| HookStatusChanged ident ident delivery_status
| HookDelivered ident ident ms
| HookDriverAssigned ident ident ident
| BusUpdate ident ident delivery_status
| BusAssigned ident ident ident

record dstate =
  deliveries :: "ident \<rightharpoonup> delivery"
  orderIndex :: "ident \<times> string \<rightharpoonup> ident"
  drivers :: "ident \<rightharpoonup> driver_row"
  vehicles :: "ident \<rightharpoonup> vehicle_row"
  positions :: "gps_row list"
  outbox :: "effect list"
  clock :: ms

datatype api_error =
  DeliveryNotFound | VehicleNotFound | DriverNotFound | NotAssignedToYou
| TransitionRefused delivery_status delivery_status | AlreadyModified | TerminalCreation
| NoLocationMismatch | DeleteInProgress | TooFewStops | TripIndexOutOfRange | EmptyImport
| UnreadableImport | RoutingUnavailable | NoTripFound | UniqueViolation | InvalidReference

definition emit :: "effect list \<Rightarrow> dstate \<Rightarrow> dstate" where
  "emit es s = s\<lparr>outbox := outbox s @ es\<rparr>"

definition setRow :: "ident \<Rightarrow> delivery \<Rightarrow> dstate \<Rightarrow> dstate" where
  "setRow i d s = s\<lparr>deliveries := (deliveries s)(i \<mapsto> d)\<rparr>"

text \<open>\<open>prisma.delivery.update(where id)\<close> on a row that exists; the rows are never hard deleted.\<close>

definition updateRow :: "ident \<Rightarrow> (delivery \<Rightarrow> delivery) \<Rightarrow> dstate \<Rightarrow> dstate" where
  "updateRow i f s = (case deliveries s i of None \<Rightarrow> s | Some d \<Rightarrow> setRow i (f d) s)"

lemma emit_simps [simp, frame_simps]:
  "deliveries (emit es s) = deliveries s" "drivers (emit es s) = drivers s"
  "orderIndex (emit es s) = orderIndex s" "vehicles (emit es s) = vehicles s" "positions (emit es s) = positions s"
  "clock (emit es s) = clock s" "outbox (emit es s) = outbox s @ es"
  by (simp_all add: emit_def)

lemma setRow_simps [simp, frame_simps]:
  "deliveries (setRow i d s) = (deliveries s)(i \<mapsto> d)" "drivers (setRow i d s) = drivers s"
  "orderIndex (setRow i d s) = orderIndex s" "vehicles (setRow i d s) = vehicles s" "positions (setRow i d s) = positions s"
  "clock (setRow i d s) = clock s" "outbox (setRow i d s) = outbox s"
  by (simp_all add: setRow_def)

lemma updateRow_simps [simp, frame_simps]:
  "deliveries (updateRow i f s) = (deliveries s)(i := map_option f (deliveries s i))"
  "drivers (updateRow i f s) = drivers s" "vehicles (updateRow i f s) = vehicles s"
  "orderIndex (updateRow i f s) = orderIndex s"
  "positions (updateRow i f s) = positions s" "clock (updateRow i f s) = clock s"
  "outbox (updateRow i f s) = outbox s"
  by (simp_all add: updateRow_def fun_upd_idem split: option.splits)

subsection \<open>Queries\<close>

datatype role = Admin | Dispatcher | DriverRole | ClientRole

definition visible :: "ident \<Rightarrow> delivery \<Rightarrow> bool" where
  "visible company d \<longleftrightarrow> companyId d = company \<and> deletedAt d = None"

definition findOne ::
    "ident \<Rightarrow> ident \<Rightarrow> role option \<Rightarrow> ident option \<Rightarrow> dstate \<Rightarrow> api_error + delivery" where
  "findOne company i rl user s =
     (case deliveries s i of
        Some d \<Rightarrow>
          if visible company d
             \<and> (rl = Some ClientRole \<longrightarrow> clientId d = user)
             \<and> (rl = Some DriverRole \<longrightarrow> assignedDriverId d = user)
          then Inr d else Inl DeliveryNotFound
      | None \<Rightarrow> Inl DeliveryNotFound)"

text \<open>\<open>vehicle.findFirst\<close> and \<open>driver.findFirst\<close> scoped to the company and not deleted.\<close>

definition vehicleExists :: "ident \<Rightarrow> ident \<Rightarrow> dstate \<Rightarrow> bool" where
  "vehicleExists company v s =
     (case vehicles s v of Some r \<Rightarrow> veh_company r = company \<and> \<not> veh_deleted r | None \<Rightarrow> False)"

definition findDriver :: "ident \<Rightarrow> ident \<Rightarrow> dstate \<Rightarrow> driver_row option" where
  "findDriver company dr s =
     (case drivers s dr of
        Some r \<Rightarrow> if drv_company r = company \<and> \<not> drv_deleted r then Some r else None
      | None \<Rightarrow> None)"

lemma findOne_Inr:
  "findOne company i rl user s = Inr d \<Longrightarrow> deliveries s i = Some d \<and> visible company d"
  by (auto simp: findOne_def split: option.splits if_splits)

subsection \<open>Progress of a status\<close>

definition terminal :: "delivery_status \<Rightarrow> bool" where
  "terminal st \<longleftrightarrow> TRANSITION_MATRIX st = []"

fun stage :: "delivery_status \<Rightarrow> nat" where
  "stage Pending = 0"
| "stage Assigned = 1"
| "stage InProgress = 2"
| "stage _ = 3"

definition progresses :: "delivery_status \<Rightarrow> delivery_status \<Rightarrow> bool" where
  "progresses a b \<longleftrightarrow> a = b \<or> stage a < stage b"

lemma terminal_simps [simp]:
  "terminal Delivered" "terminal Failed" "terminal Cancelled"
  "\<not> terminal Pending" "\<not> terminal Assigned" "\<not> terminal InProgress"
  by (simp_all add: terminal_def)

lemma progresses_refl [simp]: "progresses a a"
  by (simp add: progresses_def)

lemma progresses_trans: "progresses a b \<Longrightarrow> progresses b c \<Longrightarrow> progresses a c"
  by (auto simp: progresses_def)

lemma valid_progresses: "isValidTransition a b \<Longrightarrow> progresses a b"
  by (cases a) (auto simp: isValidTransition_def progresses_def)

lemma progresses_terminal: "terminal a \<Longrightarrow> progresses a b \<Longrightarrow> b = a"
  by (cases a; cases b) (auto simp: progresses_def)

lemma progresses_antisym: "progresses a b \<Longrightarrow> progresses b a \<Longrightarrow> a = b"
  by (auto simp: progresses_def)


subsection \<open>The contract of an endpoint\<close>

text \<open>What a request of company \<open>c\<close> may do to one row: create it for the company, or change a row
  of the company that is not deleted, keeping its owner and its order reference and moving its
  status only forward. Rows are never removed.\<close>

fun rowStep :: "ident \<Rightarrow> delivery option \<Rightarrow> delivery option \<Rightarrow> bool" where
  "rowStep c None None = True"
| "rowStep c None (Some d') = (companyId d' = c)"
| "rowStep c (Some d) None = False"
| "rowStep c (Some d) (Some d') =
     (d' = d \<or> (companyId d = c \<and> deletedAt d = None \<and> companyId d' = c
        \<and> externalOrderRef d' = externalOrderRef d \<and> progresses (status d) (status d')))"

lemma rowStep_refl [simp, intro]: "rowStep c x x"
  by (cases x) simp_all

lemma rowStep_trans: "rowStep c x y \<Longrightarrow> rowStep c y z \<Longrightarrow> rowStep c x z"
  by (cases x; cases y; cases z) (auto dest: progresses_trans)

lemma rowStep_update:
  assumes "deliveries s i = Some d" and "visible c d" and "companyId (f d) = c"
    and "externalOrderRef (f d) = externalOrderRef d" and "progresses (status d) (status (f d))"
  shows "rowStep c (deliveries s j) (deliveries (updateRow i f s) j)"
  using assms by (cases "j = i") (simp_all add: visible_def)

locale delivery_endpoint =
  fixes run :: "ident \<Rightarrow> dstate \<Rightarrow> dstate"
  assumes row: "rowStep c (deliveries s i) (deliveries (run c s) i)"
    and directory: "drivers (run c s) = drivers s \<and> vehicles (run c s) = vehicles s"
begin

lemma other_company:
  "deliveries s i = Some d \<Longrightarrow> companyId d \<noteq> c \<Longrightarrow> deliveries (run c s) i = Some d"
  using row [of c s i] by (cases "deliveries (run c s) i") auto

lemma deleted_row:
  "deliveries s i = Some d \<Longrightarrow> deletedAt d \<noteq> None \<Longrightarrow> deliveries (run c s) i = Some d"
  using row [of c s i] by (cases "deliveries (run c s) i") auto

lemma forward:
  "deliveries s i = Some d \<Longrightarrow>
     \<exists>d'. deliveries (run c s) i = Some d' \<and> companyId d' = companyId d
        \<and> externalOrderRef d' = externalOrderRef d \<and> progresses (status d) (status d')"
  using row [of c s i] by (cases "deliveries (run c s) i") auto

lemma new_row:
  "deliveries s i = None \<Longrightarrow> deliveries (run c s) i = Some d' \<Longrightarrow> companyId d' = c"
  using row [of c s i] by simp

end

text \<open>Several requests, each with its company, one after the other.\<close>

definition runAll :: "('r \<Rightarrow> ident \<Rightarrow> dstate \<Rightarrow> dstate) \<Rightarrow> (ident \<times> 'r) list \<Rightarrow> dstate \<Rightarrow> dstate" where
  "runAll run qs s = fold (\<lambda>(c, r). run r c) qs s"

lemma runAll_simps [simp]:
  "runAll run [] s = s" "runAll run ((c, r) # qs) s = runAll run qs (run r c s)"
  by (simp_all add: runAll_def)

locale delivery_requests =
  fixes run :: "'r \<Rightarrow> ident \<Rightarrow> dstate \<Rightarrow> dstate"
  assumes endpoint: "delivery_endpoint (run r)"
begin

lemma runAll_forward:
  "deliveries s i = Some d \<Longrightarrow>
     \<exists>d'. deliveries (runAll run qs s) i = Some d' \<and> companyId d' = companyId d
        \<and> externalOrderRef d' = externalOrderRef d \<and> progresses (status d) (status d')"
proof (induction qs arbitrary: s d)
  case (Cons q qs)
  obtain c r where q: "q = (c, r)" by fastforce
  from delivery_endpoint.forward [OF endpoint Cons.prems] obtain d1 where
    d1: "deliveries (run r c s) i = Some d1" "companyId d1 = companyId d"
      "externalOrderRef d1 = externalOrderRef d" "progresses (status d) (status d1)" by blast
  from Cons.IH [OF d1(1)] d1 show ?case
    unfolding q runAll_simps by (metis progresses_trans)
qed simp

lemma runAll_other:
  "deliveries s i = Some d \<Longrightarrow> companyId d \<notin> fst ` set qs \<Longrightarrow> deliveries (runAll run qs s) i = Some d"
proof (induction qs arbitrary: s)
  case (Cons q qs)
  then show ?case
    using delivery_endpoint.other_company [OF endpoint, of s i d "fst q" "snd q"]
    by (cases q) auto
qed simp

lemma runAll_deleted:
  "deliveries s i = Some d \<Longrightarrow> deletedAt d \<noteq> None \<Longrightarrow> deliveries (runAll run qs s) i = Some d"
proof (induction qs arbitrary: s)
  case (Cons q qs)
  then show ?case
    using delivery_endpoint.deleted_row [OF endpoint, of s i d "snd q" "fst q"]
    by (cases q) auto
qed simp

lemma runAll_terminal:
  assumes "deliveries s i = Some d" "terminal (status d)"
  shows "\<exists>d'. deliveries (runAll run qs s) i = Some d' \<and> status d' = status d"
  using runAll_forward [OF assms(1), of qs] progresses_terminal [OF assms(2)] by metis

end

end
