(* ===== verification/Delivery_Status.thy ===== *)
theory Delivery_Status
  imports Delivery_Data
begin

text \<open>
  The status flow of \<open>backend/src/modules/deliveries/deliveries.service.ts\<close>: the proof of
  location (\<open>verifyDeliveryLocation\<close>), the single notification, the optimistic lock and the two
  endpoints \<open>updateDriverStatus\<close> and \<open>updateStatus\<close>. An endpoint reads the row, prepares its
  update and writes it back under the lock with other requests running in between, so each is the
  composition of a \<open>prepare\<close> part and the common part \<open>commitPlan\<close>; the relation \<open>wstep\<close>
  interleaves any number of them. The geocoding service is outside the model: its answer is the
  parameter \<open>geocode\<close>, \<open>Inl ()\<close> when the call is rejected.
\<close>

record proof_config =
  mismatchThresholdM :: int
  gpsProofWindowMin :: int

record status_dto =
  sd_status :: delivery_status
  sd_lat :: "real field"
  sd_lng :: "real field"
  sd_acc :: "real field"

type_synonym geocoder = "string \<Rightarrow> unit + (real \<times> real) list"

text \<open>A coordinate used as a number: JavaScript reads null as 0.\<close>

definition fieldNum :: "real field \<Rightarrow> real" where
  "fieldNum v = (case v of Val x \<Rightarrow> x | _ \<Rightarrow> 0)"

text \<open>The keys of \<open>proofData\<close> that are set; \<open>Unset\<close> and \<open>None\<close> leave the column as it is.\<close>

record proof_data =
  pd_lat :: "real field"
  pd_lng :: "real field"
  pd_acc :: "real field"
  pd_distance :: "int option"
  pd_mismatch :: "bool option"
  pd_resolved :: "bool option"

definition noProof :: proof_data where
  "noProof = \<lparr>pd_lat = Unset, pd_lng = Unset, pd_acc = Unset, pd_distance = None,
              pd_mismatch = None, pd_resolved = None\<rparr>"

definition keepOr :: "'a option \<Rightarrow> 'a option \<Rightarrow> 'a option" where
  "keepOr new old = (case new of Some x \<Rightarrow> Some x | None \<Rightarrow> old)"

definition applyProof :: "proof_data \<Rightarrow> delivery \<Rightarrow> delivery" where
  "applyProof p d = d\<lparr>proofLat := applyField (pd_lat p) (proofLat d),
     proofLng := applyField (pd_lng p) (proofLng d),
     proofAccuracy := applyField (pd_acc p) (proofAccuracy d),
     proofDistance := keepOr (pd_distance p) (proofDistance d),
     locationMismatch := nullish (pd_mismatch p) (locationMismatch d),
     mismatchResolved := nullish (pd_resolved p) (mismatchResolved d)\<rparr>"

subsection \<open>Proof of location\<close>

definition geocodeDestination ::
    "geocoder \<Rightarrow> ident \<Rightarrow> delivery \<Rightarrow> dstate \<Rightarrow> (real option \<times> real option) \<times> dstate" where
  "geocodeDestination geocode i d s =
     (if deliveryLat d = None \<and> deliveryLng d = None \<and> deliveryAddress d \<noteq> [] then
        (case geocode (deliveryAddress d) of
           Inr ((lat, lng) # _) \<Rightarrow>
             ((Some lat, Some lng),
              updateRow i (\<lambda>r. r\<lparr>deliveryLat := Some lat, deliveryLng := Some lng\<rparr>) s)
         | _ \<Rightarrow> ((deliveryLat d, deliveryLng d), s))
      else ((deliveryLat d, deliveryLng d), s))"

fun latestFix :: "gps_row option \<Rightarrow> gps_row list \<Rightarrow> gps_row option" where
  "latestFix best [] = best"
| "latestFix best (g # gs) =
     latestFix (case best of None \<Rightarrow> Some g | Some b \<Rightarrow> if g_time b < g_time g then Some g else Some b) gs"

definition lastGps :: "proof_config \<Rightarrow> ident \<Rightarrow> dstate \<Rightarrow> gps_row option" where
  "lastGps cfg i s =
     latestFix None (filter (\<lambda>g. g_delivery g = i \<and> \<not> g_suspect g
                          \<and> clock s - gpsProofWindowMin cfg * 60 * 1000 \<le> g_time g) (positions s))"

definition roundedDistance :: "real \<Rightarrow> real \<Rightarrow> real \<Rightarrow> real \<Rightarrow> int" where
  "roundedDistance a b c d = js_round (haversineDistance a b c d)"

definition verifyDeliveryLocation ::
    "proof_config \<Rightarrow> geocoder \<Rightarrow> ident \<Rightarrow> delivery \<Rightarrow> status_dto \<Rightarrow> dstate
       \<Rightarrow> proof_data \<times> mismatch_reason \<times> dstate" where
  "verifyDeliveryLocation cfg geocode i d dto s =
     (if \<not> (sd_status dto = Delivered \<or> sd_status dto = Failed) then (noProof, NoMismatch, s)
      else if sd_lat dto = Unset \<or> sd_lng dto = Unset then
        (noProof\<lparr>pd_mismatch := Some True, pd_resolved := Some False\<rparr>, NoCoords, s)
      else
        (let lat = fieldNum (sd_lat dto); lng = fieldNum (sd_lng dto);
             ((destLat, destLng), s1) = geocodeDestination geocode i d s;
             distance = (case (destLat, destLng) of
                           (Some a, Some b) \<Rightarrow> roundedDistance lat lng a b | _ \<Rightarrow> 0);
             p = noProof\<lparr>pd_lat := sd_lat dto, pd_lng := sd_lng dto, pd_acc := sd_acc dto,
                          pd_distance := Some distance, pd_resolved := Some False\<rparr>;
             threshold = mismatchThresholdM cfg;
             (mismatch, far) =
               (case lastGps cfg i s1 of
                  Some g \<Rightarrow>
                    (let gpsDistance = roundedDistance lat lng (g_lat g) (g_lng g)
                     in if threshold < gpsDistance then (True, gpsDistance)
                        else (threshold < distance, distance))
                | None \<Rightarrow> (threshold < distance, distance))
         in if mismatch then (p\<lparr>pd_mismatch := Some True\<rparr>, TooFar far, s1)
            else (p\<lparr>pd_mismatch := Some False\<rparr>, NoMismatch, s1)))"

subsection \<open>Notification and webhooks\<close>

definition statusPriority :: "delivery_status \<Rightarrow> priority" where
  "statusPriority st = (case st of Delivered \<Rightarrow> Low | Failed \<Rightarrow> High | _ \<Rightarrow> Medium)"

definition buildDeliveryStatusNotification ::
    "ident \<Rightarrow> ident \<Rightarrow> delivery_status \<Rightarrow> mismatch_reason \<Rightarrow> ident option \<Rightarrow> effect" where
  "buildDeliveryStatusNotification company i st mismatch user =
     (if mismatch \<noteq> NoMismatch then Notify company i (LocationMismatch mismatch) High user
      else Notify company i (DeliveryStatusChange st) (statusPriority st) user)"

definition dispatchWebhook :: "ident \<Rightarrow> ident \<Rightarrow> delivery_status \<Rightarrow> ms \<Rightarrow> effect list" where
  "dispatchWebhook company i st now =
     HookStatusChanged company i st # (if st = Delivered then [HookDelivered company i now] else [])"

definition dispatchDailyFuelReportRecompute ::
    "ident \<Rightarrow> ident option \<Rightarrow> delivery_status \<Rightarrow> ms \<Rightarrow> effect list" where
  "dispatchDailyFuelReportRecompute company drv st now =
     (if isFuelReportTriggerStatus st
      then (case drv of Some x \<Rightarrow> if x = [] then [] else [FuelJob company x now st] | None \<Rightarrow> [])
      else [])"

subsection \<open>The endpoints\<close>

text \<open>\<open>updateWithOptimisticLock\<close>: the WHERE clause holds the status that was read.\<close>

definition updateWithOptimisticLock ::
    "ident \<Rightarrow> delivery_status \<Rightarrow> (delivery \<Rightarrow> delivery) \<Rightarrow> dstate \<Rightarrow> api_error + delivery \<times> dstate" where
  "updateWithOptimisticLock i expected f s =
     (case deliveries s i of
        Some d \<Rightarrow> if status d = expected then Inr (f d, setRow i (f d) s) else Inl AlreadyModified
      | None \<Rightarrow> Inl AlreadyModified)"

record plan =
  pl_company :: ident
  pl_id :: ident
  pl_read :: delivery
  pl_target :: delivery_status
  pl_proof :: proof_data
  pl_mismatch :: mismatch_reason
  pl_time :: ms
  pl_toDriver :: bool

definition planFor ::
    "proof_config \<Rightarrow> geocoder \<Rightarrow> ident \<Rightarrow> ident \<Rightarrow> delivery \<Rightarrow> status_dto \<Rightarrow> bool \<Rightarrow> dstate
       \<Rightarrow> plan \<times> dstate" where
  "planFor cfg geocode company i d dto toDriver s =
     (let (p, m, s1) = verifyDeliveryLocation cfg geocode i d dto s
      in (\<lparr>pl_company = company, pl_id = i, pl_read = d, pl_target = sd_status dto, pl_proof = p,
           pl_mismatch = m, pl_time = clock s1, pl_toDriver = toDriver\<rparr>, s1))"

definition prepareDriverStatus ::
    "proof_config \<Rightarrow> geocoder \<Rightarrow> ident \<Rightarrow> ident \<Rightarrow> ident \<Rightarrow> status_dto \<Rightarrow> dstate
       \<Rightarrow> (api_error + plan) \<times> dstate" where
  "prepareDriverStatus cfg geocode company i user dto s =
     (case findOne company i None None s of
        Inl e \<Rightarrow> (Inl e, s)
      | Inr d \<Rightarrow>
          if assignedDriverId d \<noteq> Some user then (Inl NotAssignedToYou, s)
          else if sd_status dto \<notin> set (filter (\<lambda>x. x = InProgress \<or> x = Delivered \<or> x = Failed)
                                      (TRANSITION_MATRIX (status d)))
          then (Inl (TransitionRefused (status d) (sd_status dto)), s)
          else (let (p, s1) = planFor cfg geocode company i d dto False s in (Inr p, s1)))"

definition prepareStatus ::
    "proof_config \<Rightarrow> geocoder \<Rightarrow> ident \<Rightarrow> ident \<Rightarrow> status_dto \<Rightarrow> dstate
       \<Rightarrow> (api_error + plan) \<times> dstate" where
  "prepareStatus cfg geocode company i dto s =
     (case findOne company i None None s of
        Inl e \<Rightarrow> (Inl e, s)
      | Inr d \<Rightarrow>
          if sd_status dto \<notin> set (TRANSITION_MATRIX (status d))
          then (Inl (TransitionRefused (status d) (sd_status dto)), s)
          else (let (p, s1) = planFor cfg geocode company i d dto True s in (Inr p, s1)))"

definition planUpdate :: "plan \<Rightarrow> delivery \<Rightarrow> delivery" where
  "planUpdate p d =
     (let d1 = (applyProof (pl_proof p) d)\<lparr>status := pl_target p\<rparr>
      in if pl_target p = Delivered then d1\<lparr>completedAt := Some (pl_time p)\<rparr> else d1)"

definition commitEffects :: "plan \<Rightarrow> delivery \<Rightarrow> ms \<Rightarrow> effect list" where
  "commitEffects p updated now =
     dispatchDailyFuelReportRecompute (pl_company p) (driverId (pl_read p)) (pl_target p) now
     @ [buildDeliveryStatusNotification (pl_company p) (pl_id p) (pl_target p) (pl_mismatch p)
          (if pl_toDriver p then assignedDriverId updated else None)]
     @ dispatchWebhook (pl_company p) (pl_id p) (pl_target p) now
     @ [BusUpdate (pl_company p) (pl_id p) (pl_target p)]"

definition commitPlan :: "plan \<Rightarrow> dstate \<Rightarrow> (api_error + delivery) \<times> dstate" where
  "commitPlan p s =
     (case updateWithOptimisticLock (pl_id p) (status (pl_read p)) (planUpdate p) s of
        Inl e \<Rightarrow> (Inl e, s)
      | Inr (updated, s1) \<Rightarrow> (Inr updated, emit (commitEffects p updated (clock s1)) s1))"

definition andCommit :: "(api_error + plan) \<times> dstate \<Rightarrow> (api_error + delivery) \<times> dstate" where
  "andCommit r = (case r of (Inl e, s) \<Rightarrow> (Inl e, s) | (Inr p, s) \<Rightarrow> commitPlan p s)"

definition updateDriverStatus ::
    "proof_config \<Rightarrow> geocoder \<Rightarrow> ident \<Rightarrow> ident \<Rightarrow> ident \<Rightarrow> status_dto \<Rightarrow> dstate
       \<Rightarrow> (api_error + delivery) \<times> dstate" where
  "updateDriverStatus cfg geocode company i user dto s =
     andCommit (prepareDriverStatus cfg geocode company i user dto s)"

definition updateStatus ::
    "proof_config \<Rightarrow> geocoder \<Rightarrow> ident \<Rightarrow> ident \<Rightarrow> status_dto \<Rightarrow> dstate
       \<Rightarrow> (api_error + delivery) \<times> dstate" where
  "updateStatus cfg geocode company i dto s = andCommit (prepareStatus cfg geocode company i dto s)"

subsection \<open>Interleaved requests\<close>

record world =
  db :: dstate
  inFlight :: "plan list"

inductive wstep :: "proof_config \<Rightarrow> geocoder \<Rightarrow> world \<Rightarrow> world \<Rightarrow> bool" for cfg geocode where
  readDriver: "prepareDriverStatus cfg geocode company i user dto (db w) = (Inr p, s) \<Longrightarrow>
     wstep cfg geocode w \<lparr>db = s, inFlight = p # inFlight w\<rparr>"
| readDispatcher: "prepareStatus cfg geocode company i dto (db w) = (Inr p, s) \<Longrightarrow>
     wstep cfg geocode w \<lparr>db = s, inFlight = p # inFlight w\<rparr>"
| writeBack: "p \<in> set (inFlight w) \<Longrightarrow> commitPlan p (db w) = (r, s) \<Longrightarrow>
     wstep cfg geocode w \<lparr>db = s, inFlight = remove1 p (inFlight w)\<rparr>"
| tick: "0 \<le> dt \<Longrightarrow> wstep cfg geocode w (w\<lparr>db := (db w)\<lparr>clock := clock (db w) + dt\<rparr>\<rparr>)"

inductive wreach :: "proof_config \<Rightarrow> geocoder \<Rightarrow> dstate \<Rightarrow> world \<Rightarrow> bool" for cfg geocode s0 where
  start: "wreach cfg geocode s0 \<lparr>db = s0, inFlight = []\<rparr>"
| step: "wreach cfg geocode s0 w \<Longrightarrow> wstep cfg geocode w w' \<Longrightarrow> wreach cfg geocode s0 w'"


inductive_cases wstepE: "wstep cfg geocode w w'"

subsection \<open>Lemmas on the parts of a request\<close>

lemmas prepare_defs = prepareDriverStatus_def prepareStatus_def planFor_def

lemma geocodeDestination_frame:
  assumes "geocodeDestination geocode i d s = (x, s1)"
  shows "map_option status (deliveries s1 j) = map_option status (deliveries s j)"
    and "j \<noteq> i \<Longrightarrow> deliveries s1 j = deliveries s j"
    and "map_option companyId (deliveries s1 j) = map_option companyId (deliveries s j)"
    and "map_option deletedAt (deliveries s1 j) = map_option deletedAt (deliveries s j)"
    and "outbox s1 = outbox s" "clock s1 = clock s" "positions s1 = positions s"
    and "drivers s1 = drivers s" "vehicles s1 = vehicles s"
  using assms by (auto simp: geocodeDestination_def map_option_case split: if_splits sum.splits list.splits option.splits)

lemma geocodeDestination_state:
  "snd (geocodeDestination geocode i d s) = s
   \<or> (\<exists>a b. snd (geocodeDestination geocode i d s)
        = updateRow i (\<lambda>r. r\<lparr>deliveryLat := a, deliveryLng := b\<rparr>) s)"
  by (auto simp: geocodeDestination_def split: sum.splits list.splits)

lemma verify_state:
  assumes "verifyDeliveryLocation cfg geocode i d dto s = (p, m, s1)"
  shows "s1 = s \<or> s1 = snd (geocodeDestination geocode i d s)"
  using assms by (auto simp: verifyDeliveryLocation_def Let_def split: if_splits option.splits prod.splits)

lemma verify_frame:
  assumes "verifyDeliveryLocation cfg geocode i d dto s = (p, m, s1)"
  shows "map_option status (deliveries s1 j) = map_option status (deliveries s j)"
    and "j \<noteq> i \<Longrightarrow> deliveries s1 j = deliveries s j"
    and "map_option companyId (deliveries s1 j) = map_option companyId (deliveries s j)"
    and "map_option deletedAt (deliveries s1 j) = map_option deletedAt (deliveries s j)"
    and "outbox s1 = outbox s" "clock s1 = clock s" "positions s1 = positions s"
    and "drivers s1 = drivers s" "vehicles s1 = vehicles s"
  using verify_state [OF assms] geocodeDestination_frame [of geocode i d s]
  by (metis prod.collapse)+

text \<open>What an accepted \<open>prepare\<close> establishes: the row was visible and the matrix allows the move.\<close>

definition goodPlan :: "plan \<Rightarrow> bool" where
  "goodPlan p \<longleftrightarrow> isValidTransition (status (pl_read p)) (pl_target p)"

lemma planFor_frame:
  assumes "planFor cfg geocode company i d dto b s = (p, s1)"
  shows "pl_company p = company" "pl_id p = i" "pl_read p = d" "pl_target p = sd_status dto"
    "pl_toDriver p = b"
    and "map_option status (deliveries s1 j) = map_option status (deliveries s j)"
    and "j \<noteq> i \<Longrightarrow> deliveries s1 j = deliveries s j"
    and "map_option companyId (deliveries s1 j) = map_option companyId (deliveries s j)"
    and "map_option deletedAt (deliveries s1 j) = map_option deletedAt (deliveries s j)"
    and "outbox s1 = outbox s"
  using assms verify_frame
  by (auto simp: planFor_def split: prod.splits) 

lemma prepare_Inr:
  assumes "prepareDriverStatus cfg geocode company i user dto s = (Inr p, s1)
         \<or> prepareStatus cfg geocode company i dto s = (Inr p, s1)"
  shows "goodPlan p" "\<exists>b. planFor cfg geocode company i (pl_read p) dto b s = (p, s1)"
    "deliveries s i = Some (pl_read p)" "visible company (pl_read p)"
  using assms
  by (auto simp: prepareDriverStatus_def prepareStatus_def goodPlan_def isValidTransition_def
      planFor_def findOne_Inr split: sum.splits if_splits prod.splits)

lemma prepare_frame:
  assumes "prepareDriverStatus cfg geocode company i user dto s = (Inr p, s1)
         \<or> prepareStatus cfg geocode company i dto s = (Inr p, s1)"
  shows "map_option status (deliveries s1 j) = map_option status (deliveries s j)"
    and "outbox s1 = outbox s"
  using prepare_Inr(2) [OF assms] planFor_frame by metis+


lemma planUpdate_status [simp]: "status (planUpdate p d) = pl_target p"
  by (simp add: planUpdate_def Let_def)

lemma planUpdate_keys [simp]:
  "companyId (planUpdate p d) = companyId d" "deletedAt (planUpdate p d) = deletedAt d"
  "assignedDriverId (planUpdate p d) = assignedDriverId d" "driverId (planUpdate p d) = driverId d"
  by (simp_all add: planUpdate_def applyProof_def Let_def)

lemma commitPlan_cases:
  assumes "commitPlan p s = (r, s1)"
  obtains (won) d where "deliveries s (pl_id p) = Some d" "status d = status (pl_read p)"
      "r = Inr (planUpdate p d)"
      "deliveries s1 = (deliveries s)(pl_id p \<mapsto> planUpdate p d)"
      "outbox s1 = outbox s @ commitEffects p (planUpdate p d) (clock s)"
      "drivers s1 = drivers s" "vehicles s1 = vehicles s" "positions s1 = positions s"
      "clock s1 = clock s"
    | (lost) "r = Inl AlreadyModified" "s1 = s"
        "map_option status (deliveries s (pl_id p)) \<noteq> Some (status (pl_read p))"
  using assms
  by (auto simp: commitPlan_def updateWithOptimisticLock_def split: option.splits if_splits)

lemma commitPlan_stale:
  "map_option status (deliveries s (pl_id p)) \<noteq> Some (status (pl_read p))
   \<Longrightarrow> commitPlan p s = (Inl AlreadyModified, s)"
  by (auto simp: commitPlan_def updateWithOptimisticLock_def split: option.splits)

subsection \<open>Invariants of the interleaved requests\<close>

lemma wreach_goodPlans: "wreach cfg geocode s0 w \<Longrightarrow> \<forall>p\<in>set (inFlight w). goodPlan p"
proof (induction rule: wreach.induct)
  case (step w w')
  from step.hyps(2) step.IH show ?case
    by (cases rule: wstep.cases) (auto dest: prepare_Inr(1) [OF disjI1] prepare_Inr(1) [OF disjI2] dest: notin_set_remove1)
qed simp

definition rowStage :: "ident \<Rightarrow> dstate \<Rightarrow> nat" where
  "rowStage i s = (case deliveries s i of Some d \<Rightarrow> stage (status d) | None \<Rightarrow> 0)"

definition isNotifyOf :: "ident \<Rightarrow> effect \<Rightarrow> bool" where
  "isNotifyOf i e = (case e of Notify c j k p u \<Rightarrow> j = i | _ \<Rightarrow> False)"

definition notifyCount :: "ident \<Rightarrow> dstate \<Rightarrow> nat" where
  "notifyCount i s = length (filter (isNotifyOf i) (outbox s))"

lemma isNotifyOf_simps [simp]:
  "isNotifyOf i (Notify c j k p u) \<longleftrightarrow> j = i" "\<not> isNotifyOf i (FuelJob c' d t st)"
  "\<not> isNotifyOf i (HookStatusChanged c' d st)" "\<not> isNotifyOf i (HookDelivered c' d t)"
  "\<not> isNotifyOf i (HookDriverAssigned c' d dr)" "\<not> isNotifyOf i (BusUpdate c' d st)"
  "\<not> isNotifyOf i (BusAssigned c' d dr)"
  by (simp_all add: isNotifyOf_def)

lemma notify_free [simp]:
  "filter (isNotifyOf i) (dispatchDailyFuelReportRecompute c dr st now) = []"
  "filter (isNotifyOf i) (dispatchWebhook c j st now) = []"
proof -
  show "filter (isNotifyOf i) (dispatchDailyFuelReportRecompute c dr st now) = []"
    unfolding dispatchDailyFuelReportRecompute_def
    by (cases dr) (simp_all only: option.case filter.simps isNotifyOf_simps if_cancel split: if_split, simp)
  show "filter (isNotifyOf i) (dispatchWebhook c j st now) = []"
    unfolding dispatchWebhook_def by simp
qed

lemma notify_built [simp]:
  "isNotifyOf i (buildDeliveryStatusNotification c j st m u) \<longleftrightarrow> j = i"
  by (simp add: buildDeliveryStatusNotification_def)

lemma commitEffects_notify:
  "length (filter (isNotifyOf i) (commitEffects p d now)) = (if pl_id p = i then 1 else 0)"
  by (simp add: commitEffects_def)

text \<open>One step moves a row along the matrix, with one notification, or leaves its status.\<close>

lemma wstep_row:
  assumes "wstep cfg geocode w w'" and "\<forall>p\<in>set (inFlight w). goodPlan p"
  shows "(map_option status (deliveries (db w') i) = map_option status (deliveries (db w) i)
            \<and> notifyCount i (db w') = notifyCount i (db w))
       \<or> (\<exists>d d'. deliveries (db w) i = Some d \<and> deliveries (db w') i = Some d'
            \<and> isValidTransition (status d) (status d')
            \<and> notifyCount i (db w') = Suc (notifyCount i (db w)))"
  using assms(1)
proof (cases rule: wstep.cases)
  case (readDriver company j user dto p s)
  then show ?thesis
    using prepare_frame [OF disjI1, OF readDriver(2)] by (simp add: notifyCount_def)
next
  case (readDispatcher company j dto p s)
  then show ?thesis
    using prepare_frame [OF disjI2, OF readDispatcher(2)] by (simp add: notifyCount_def)
next
  case (writeBack p r s)
  from writeBack(3) show ?thesis
  proof (cases rule: commitPlan_cases)
    case (won d)
    moreover have "goodPlan p" using assms(2) writeBack(2) by blast
    ultimately show ?thesis
      using writeBack(1) by (auto simp: notifyCount_def commitEffects_notify goodPlan_def)
  next
    case lost
    then show ?thesis using writeBack(1) by simp
  qed
next
  case (tick dt)
  then show ?thesis by (simp add: notifyCount_def)
qed

lemma valid_stage: "isValidTransition a b \<Longrightarrow> stage a < stage b"
  by (cases a) (auto simp: isValidTransition_def)

lemma stage_le: "stage st \<le> 3"
  by (cases st) simp_all

lemma wreach_stage:
  assumes "wreach cfg geocode s0 w"
  shows "notifyCount i (db w) + rowStage i s0 \<le> notifyCount i s0 + rowStage i (db w)"
  using assms
proof (induction rule: wreach.induct)
  case (step w w')
  from wstep_row [OF step.hyps(2) wreach_goodPlans [OF step.hyps(1)], of i] step.IH
  show ?case
    by (elim disjE) (auto simp: rowStage_def map_option_case dest!: valid_stage split: option.splits)
qed simp


lemma rowStage_le: "rowStage i s \<le> 3"
  by (auto simp: rowStage_def stage_le split: option.splits)

lemma wreach_steps: "(wstep cfg geocode)\<^sup>*\<^sup>* w w2 \<Longrightarrow> wreach cfg geocode s0 w \<Longrightarrow> wreach cfg geocode s0 w2"
  by (induction rule: rtranclp_induct) (auto intro: wreach.step)

lemma wsteps_stage:
  "(wstep cfg geocode)\<^sup>*\<^sup>* w w2 \<Longrightarrow> wreach cfg geocode s0 w \<Longrightarrow> rowStage i (db w) \<le> rowStage i (db w2)"
proof (induction rule: rtranclp_induct)
  case (step y z)
  from wstep_row [OF step.hyps(2) wreach_goodPlans [OF wreach_steps [OF step.hyps(1) step.prems]], of i]
  have "rowStage i (db y) \<le> rowStage i (db z)"
    by (elim disjE) (auto simp: rowStage_def map_option_case dest!: valid_stage split: option.splits)
  with step.IH [OF step.prems] show ?case by simp
qed simp

subsection \<open>What the proof of location promises\<close>

text \<open>A completion is proved when coordinates were sent and lie within the threshold of the
  destination (when it is known) and of the last recent fix of the delivery (when there is one).\<close>

definition proofAccepted ::
    "proof_config \<Rightarrow> status_dto \<Rightarrow> real option \<times> real option \<Rightarrow> gps_row option \<Rightarrow> bool" where
  "proofAccepted cfg dto dest gps =
     (sd_lat dto \<noteq> Unset \<and> sd_lng dto \<noteq> Unset
      \<and> (case dest of (Some a, Some b) \<Rightarrow> roundedDistance (fieldNum (sd_lat dto)) (fieldNum (sd_lng dto)) a b
          | _ \<Rightarrow> 0) \<le> mismatchThresholdM cfg
      \<and> (case gps of Some g \<Rightarrow> roundedDistance (fieldNum (sd_lat dto)) (fieldNum (sd_lng dto))
                                  (g_lat g) (g_lng g) \<le> mismatchThresholdM cfg
          | None \<Rightarrow> True))"

lemma lastGps_cong: "positions s1 = positions s \<Longrightarrow> clock s1 = clock s \<Longrightarrow> lastGps cfg i s1 = lastGps cfg i s"
  by (simp add: lastGps_def)

lemma verify_completion:
  assumes "verifyDeliveryLocation cfg geocode i d dto s = (p, m, s1)"
    and "sd_status dto = Delivered \<or> sd_status dto = Failed"
  shows "pd_mismatch p = Some (\<not> proofAccepted cfg dto (fst (geocodeDestination geocode i d s)) (lastGps cfg i s))"
    and "pd_resolved p = Some False"
    and "m = NoMismatch \<longleftrightarrow> proofAccepted cfg dto (fst (geocodeDestination geocode i d s)) (lastGps cfg i s)"
proof -
  obtain lat lng s2 where geo: "geocodeDestination geocode i d s = ((lat, lng), s2)"
    by (metis prod.collapse)
  have gps: "lastGps cfg i s2 = lastGps cfg i s"
    by (rule lastGps_cong [OF geocodeDestination_frame(7,6) [OF geo]])
  let ?A = "proofAccepted cfg dto (fst (geocodeDestination geocode i d s)) (lastGps cfg i s)"
  have "pd_mismatch p = Some (\<not> ?A) \<and> pd_resolved p = Some False \<and> (m = NoMismatch \<longleftrightarrow> ?A)"
  proof (cases "sd_lat dto = Unset \<or> sd_lng dto = Unset")
    case True
    then show ?thesis using assms by (auto simp: verifyDeliveryLocation_def proofAccepted_def noProof_def)
  next
    case False
    show ?thesis
      using assms geo gps False
      by (cases "lastGps cfg i s"; cases lat; cases lng)
        (auto simp: verifyDeliveryLocation_def proofAccepted_def Let_def noProof_def split: if_splits)
  qed
  then show "pd_mismatch p = Some (\<not> ?A)" "pd_resolved p = Some False" "m = NoMismatch \<longleftrightarrow> ?A"
    by simp_all
qed

text \<open>A body with explicit nulls passes the test for missing coordinates: when the destination is
  unknown and there is no recent fix, the completion counts as proved although the stored proof
  coordinates are null.\<close>

lemma null_coordinates_count_as_proof:
  assumes "sd_status dto = Delivered" and "sd_lat dto = Null" and "sd_lng dto = Null"
    and "0 \<le> mismatchThresholdM cfg" and "lastGps cfg i s = None"
    and "deliveryLat d = None" and "deliveryLng d = None" and "deliveryAddress d = []"
  shows "\<exists>p. verifyDeliveryLocation cfg geocode i d dto s = (p, NoMismatch, s)
       \<and> pd_mismatch p = Some False \<and> pd_lat p = Null \<and> pd_lng p = Null"
  using assms by (simp add: verifyDeliveryLocation_def geocodeDestination_def Let_def)

text \<open>The decision of the driver endpoint, as its documentation gives it.\<close>

definition driverDecision ::
    "ident \<Rightarrow> ident \<Rightarrow> ident \<Rightarrow> delivery_status \<Rightarrow> dstate \<Rightarrow> api_error option" where
  "driverDecision company i user target s =
     (case deliveries s i of
        None \<Rightarrow> Some DeliveryNotFound
      | Some d \<Rightarrow>
          if companyId d \<noteq> company \<or> deletedAt d \<noteq> None then Some DeliveryNotFound
          else if assignedDriverId d \<noteq> Some user then Some NotAssignedToYou
          else if (status d = Assigned \<and> target = InProgress)
                  \<or> (status d = InProgress \<and> (target = Delivered \<or> target = Failed)) then None
          else Some (TransitionRefused (status d) target))"

lemma driver_matrix:
  "t \<in> set (filter (\<lambda>x. x = InProgress \<or> x = Delivered \<or> x = Failed) (TRANSITION_MATRIX a))
   \<longleftrightarrow> (a = Assigned \<and> t = InProgress) \<or> (a = InProgress \<and> (t = Delivered \<or> t = Failed))"
  by (cases a; cases t) simp_all

lemma commitPlan_fresh:
  assumes "planFor cfg geocode company i d dto b s = (p, s1)" "deliveries s i = Some d"
  obtains e s2 where "commitPlan p s1 = (Inr (planUpdate p e), s2)" "deliveries s1 i = Some e"
    "companyId e = companyId d" "deletedAt e = deletedAt d" "status e = status d"
    "completedAt e = completedAt d"
proof -
  from assms(1) obtain pr m where ver: "verifyDeliveryLocation cfg geocode i d dto s = (pr, m, s1)"
    by (auto simp: planFor_def split: prod.splits)
  have "s1 = s \<or> (\<exists>a b. s1 = updateRow i (\<lambda>r. r\<lparr>deliveryLat := a, deliveryLng := b\<rparr>) s)"
    using verify_state [OF ver] geocodeDestination_state [of geocode i d s] by metis
  then obtain e where e: "deliveries s1 i = Some e" "companyId e = companyId d"
      "deletedAt e = deletedAt d" "status e = status d"
      "completedAt e = completedAt d"
  proof
    assume "s1 = s" then show thesis using that [of d] assms(2) by simp
  next
    assume "\<exists>a b. s1 = updateRow i (\<lambda>r. r\<lparr>deliveryLat := a, deliveryLng := b\<rparr>) s"
    then obtain a b where "s1 = updateRow i (\<lambda>r. r\<lparr>deliveryLat := a, deliveryLng := b\<rparr>) s" by blast
    then show thesis
      using that [of "d\<lparr>deliveryLat := a, deliveryLng := b\<rparr>"] assms(2) by simp
  qed
  have "\<exists>s2. commitPlan p s1 = (Inr (planUpdate p e), s2)"
    using planFor_frame(2,3) [OF assms(1)] e(1,4)
    by (simp add: commitPlan_def updateWithOptimisticLock_def)
  with e that show thesis by blast
qed

subsection \<open>Both endpoints keep the contract\<close>

lemma commitPlan_rowStep:
  assumes "planFor cfg geocode company i d dto b s = (p, s1)"
    and "deliveries s i = Some d" "visible company d" "goodPlan p"
  shows "rowStep company (deliveries s j) (deliveries (snd (commitPlan p s1)) j)"
    and "drivers (snd (commitPlan p s1)) = drivers s \<and> vehicles (snd (commitPlan p s1)) = vehicles s"
proof -
  have ver: "\<exists>pr m. verifyDeliveryLocation cfg geocode i d dto s = (pr, m, s1)"
    using assms(1) by (auto simp: planFor_def split: prod.splits)
  have st: "s1 = s \<or> (\<exists>a b. s1 = updateRow i (\<lambda>r. r\<lparr>deliveryLat := a, deliveryLng := b\<rparr>) s)"
    using ver verify_state geocodeDestination_state [of geocode i d s] by metis
  have one: "rowStep company (deliveries s j) (deliveries s1 j)"
    using st rowStep_update [OF assms(2,3)] assms(3) by (auto simp: visible_def)
  obtain r s2 where com: "commitPlan p s1 = (r, s2)" by fastforce
  have "rowStep company (deliveries s1 j) (deliveries s2 j)"
    using com
  proof (cases rule: commitPlan_cases)
    case (won e)
    have "visible company e"
      using won(1) st assms(2,3) planFor_frame(2) [OF assms(1)] by (auto simp: visible_def)
    with won assms(4) show ?thesis
      by (auto simp: goodPlan_def visible_def planUpdate_def applyProof_def Let_def dest: valid_progresses)
  qed simp
  then show "rowStep company (deliveries s j) (deliveries (snd (commitPlan p s1)) j)"
    using one com by (auto intro: rowStep_trans)
  show "drivers (snd (commitPlan p s1)) = drivers s \<and> vehicles (snd (commitPlan p s1)) = vehicles s"
  proof -
    from ver obtain pr m where v: "verifyDeliveryLocation cfg geocode i d dto s = (pr, m, s1)" by blast
    have "drivers s2 = drivers s \<and> vehicles s2 = vehicles s"
      using com verify_frame(8,9) [OF v] by (elim commitPlan_cases) simp_all
    then show ?thesis by (simp add: com)
  qed
qed

lemma prepare_Inl:
  "prepareDriverStatus cfg geocode company i user dto s = (Inl e, s1) \<Longrightarrow> s1 = s"
  "prepareStatus cfg geocode company i dto s = (Inl e, s1) \<Longrightarrow> s1 = s"
  by (auto simp: prepareDriverStatus_def prepareStatus_def split: sum.splits if_splits prod.splits)

lemma andCommit_rowStep:
  assumes "(r, s1) = prepareDriverStatus cfg geocode company i user dto s
         \<or> (r, s1) = prepareStatus cfg geocode company i dto s"
  shows "rowStep company (deliveries s j) (deliveries (snd (andCommit (r, s1))) j)
       \<and> drivers (snd (andCommit (r, s1))) = drivers s
       \<and> vehicles (snd (andCommit (r, s1))) = vehicles s"
proof (cases r)
  case (Inl e)
  with assms have "s1 = s" by (auto dest: prepare_Inl [OF sym])
  with Inl show ?thesis by (simp add: andCommit_def)
next
  case (Inr p)
  then have pre: "prepareDriverStatus cfg geocode company i user dto s = (Inr p, s1)
         \<or> prepareStatus cfg geocode company i dto s = (Inr p, s1)"
    using assms by auto
  obtain b where "planFor cfg geocode company i (pl_read p) dto b s = (p, s1)"
    using prepare_Inr(2) [OF pre] by blast
  from commitPlan_rowStep [OF this prepare_Inr(3,4,1) [OF pre]] Inr show ?thesis
    by (simp add: andCommit_def)
qed

interpretation driver_status: delivery_endpoint
  "\<lambda>c s. snd (updateDriverStatus cfg geocode c i user dto s)" for cfg geocode i user dto
  using andCommit_rowStep [OF disjI1, OF prod.collapse]
  by unfold_locales (simp_all add: updateDriverStatus_def)

interpretation dispatcher_status: delivery_endpoint
  "\<lambda>c s. snd (updateStatus cfg geocode c i dto s)" for cfg geocode i dto
  using andCommit_rowStep [OF disjI2, OF prod.collapse]
  by unfold_locales (simp_all add: updateStatus_def)

lemma driver_update_decided:
  "(case updateDriverStatus cfg geocode company i user dto s of
      (Inl e, s') \<Rightarrow> driverDecision company i user (sd_status dto) s = Some e \<and> s' = s
    | (Inr d', s') \<Rightarrow> driverDecision company i user (sd_status dto) s = None
        \<and> deliveries s' i = Some d' \<and> status d' = sd_status dto \<and> companyId d' = company
        \<and> (if sd_status dto = Delivered then completedAt d' = Some (clock s)
           else completedAt d' = (case deliveries s i of Some d \<Rightarrow> completedAt d | None \<Rightarrow> None)))"
proof (cases "findOne company i None None s")
  case (Inl e)
  then show ?thesis
    by (auto simp: updateDriverStatus_def prepareDriverStatus_def andCommit_def driverDecision_def
        findOne_def visible_def split: option.splits if_splits)
next
  case (Inr d)
  then have row: "deliveries s i = Some d" "companyId d = company" "deletedAt d = None"
    using findOne_Inr [OF Inr] by (auto simp: visible_def)
  consider (other) "assignedDriverId d \<noteq> Some user"
    | (refused) "assignedDriverId d = Some user"
        "sd_status dto \<notin> set (filter (\<lambda>x. x = InProgress \<or> x = Delivered \<or> x = Failed) (TRANSITION_MATRIX (status d)))"
    | (accepted) "assignedDriverId d = Some user"
        "sd_status dto \<in> set (filter (\<lambda>x. x = InProgress \<or> x = Delivered \<or> x = Failed) (TRANSITION_MATRIX (status d)))"
    by blast
  then show ?thesis
  proof cases
    case other
    with Inr row show ?thesis
      by (simp add: updateDriverStatus_def prepareDriverStatus_def andCommit_def driverDecision_def)
  next
    case refused
    with Inr row driver_matrix [of "sd_status dto" "status d"] show ?thesis
      by (simp add: updateDriverStatus_def prepareDriverStatus_def andCommit_def driverDecision_def)
  next
    case accepted
    obtain p s1 where plan: "planFor cfg geocode company i d dto False s = (p, s1)" by fastforce
    obtain e s2 where com: "commitPlan p s1 = (Inr (planUpdate p e), s2)" "deliveries s1 i = Some e"
      "companyId e = companyId d" "completedAt e = completedAt d"
      using commitPlan_fresh [OF plan row(1)] by metis
    have "driverDecision company i user (sd_status dto) s = None"
      using row accepted driver_matrix [of "sd_status dto" "status d"] by (simp add: driverDecision_def)
    moreover have "deliveries s2 i = Some (planUpdate p e)"
      using com(1,2) planFor_frame(2) [OF plan] by (elim commitPlan_cases) simp_all
    moreover have "pl_time p = clock s" "pl_target p = sd_status dto"
      using plan verify_frame(6) by (auto simp: planFor_def split: prod.splits)
    ultimately show ?thesis
      using Inr row accepted plan com
      by (simp add: updateDriverStatus_def prepareDriverStatus_def andCommit_def planUpdate_def
          applyProof_def Let_def)
  qed
qed

lemma updateDriverStatus_other:
  assumes "j \<noteq> i"
  shows "deliveries (snd (updateDriverStatus cfg geocode c i user dto s)) j = deliveries s j"
proof (cases "prepareDriverStatus cfg geocode c i user dto s")
  case (Pair r s1)
  show ?thesis
  proof (cases r)
    case (Inl e)
    with Pair prepare_Inl(1) [OF Pair [unfolded Inl]] show ?thesis
      by (simp add: updateDriverStatus_def andCommit_def)
  next
    case (Inr p)
    obtain b where "planFor cfg geocode c i (pl_read p) dto b s = (p, s1)"
      using prepare_Inr(2) [OF disjI1, OF Pair [unfolded Inr]] by blast
    note f = planFor_frame(2) [OF this] planFor_frame(7) [OF this assms]
    obtain q s2 where com: "commitPlan p s1 = (q, s2)" by fastforce
    then have "deliveries s2 j = deliveries s1 j"
      using f assms by (elim commitPlan_cases) simp_all
    with f com Pair Inr show ?thesis by (simp add: updateDriverStatus_def andCommit_def)
  qed
qed

subsection \<open>A concrete company for the witnesses\<close>

definition demoInfo :: delivery_info where
  "demoInfo = \<lparr>description = None, pickupAddress = ''depot'', pickupPoint = (None, None),
     pickupLocationLabel = None, deliveryLocationLabel = None, scheduledDate = None,
     noteText = None, clientPhone = None, amount = None, articlePrice = None,
     productDescription = None\<rparr>"

definition demoDelivery :: "delivery_status \<Rightarrow> delivery" where
  "demoDelivery st = \<lparr>companyId = ''acme'', title = ''T1'', status = st, deliveryAddress = ''A'',
     deliveryLat = None, deliveryLng = None, vehicleId = None, driverId = Some ''drv'',
     assignedDriverId = Some ''usr'', clientId = None, completedAt = None, proofLat = None,
     proofLng = None, proofDistance = None, proofAccuracy = None, locationMismatch = False,
     mismatchResolved = False, externalOrderRef = None, tourSequence = None, deletedAt = None,
     info = demoInfo\<rparr>"

definition demoState :: "delivery_status \<Rightarrow> dstate" where
  "demoState st = \<lparr>deliveries = [''d1'' \<mapsto> demoDelivery st],
     orderIndex = Map.empty, drivers = [''drv'' \<mapsto> \<lparr>drv_company = ''acme'', drv_user = Some ''usr'', drv_deleted = False\<rparr>],
     vehicles = Map.empty, positions = [], outbox = [], clock = 0\<rparr>"

definition noGeocoder :: geocoder where
  "noGeocoder a = Inl ()"

definition demoConfig :: proof_config where
  "demoConfig = \<lparr>mismatchThresholdM = 200, gpsProofWindowMin = 30\<rparr>"

definition dtoFor :: "delivery_status \<Rightarrow> status_dto" where
  "dtoFor st = \<lparr>sd_status = st, sd_lat = Unset, sd_lng = Unset, sd_acc = Unset\<rparr>"

definition demoPlan :: "delivery_status \<Rightarrow> delivery_status \<Rightarrow> plan" where
  "demoPlan st st' = fst (planFor demoConfig noGeocoder ''acme'' ''d1'' (demoDelivery st) (dtoFor st') True (demoState st))"

lemmas demo_defs = demoDelivery_def demoState_def demoConfig_def dtoFor_def demoInfo_def

lemma demo_planFor:
  "planFor demoConfig noGeocoder ''acme'' ''d1'' (demoDelivery st) (dtoFor st') True (demoState st)
     = (demoPlan st st', demoState st)"
  by (simp add: demoPlan_def planFor_def verifyDeliveryLocation_def dtoFor_def)

lemma demo_findOne [simp]:
  "findOne ''acme'' ''d1'' None None (demoState st) = Inr (demoDelivery st)"
  by (simp add: findOne_def demoState_def visible_def demoDelivery_def)

lemma demo_status [simp]: "status (demoDelivery st) = st" "sd_status (dtoFor st) = st"
  by (simp_all add: demoDelivery_def dtoFor_def)

lemma demo_row [simp]: "deliveries (demoState st) ''d1'' = Some (demoDelivery st)"
  by (simp add: demoState_def)

lemma demo_prepare:
  "isValidTransition st st' \<Longrightarrow>
   prepareStatus demoConfig noGeocoder ''acme'' ''d1'' (dtoFor st') (demoState st)
     = (Inr (demoPlan st st'), demoState st)"
  by (simp add: prepareStatus_def demo_planFor isValidTransition_def)

lemma demo_reach:
  "isValidTransition st st' \<Longrightarrow>
   wreach demoConfig noGeocoder (demoState st) \<lparr>db = demoState st, inFlight = [demoPlan st st']\<rparr>"
  using wreach.step [OF wreach.start wstep.readDispatcher, of demoConfig noGeocoder "''acme''"
      "''d1''" "dtoFor st'" "demoState st" "demoPlan st st'" "demoState st"]
  by (simp add: demo_prepare)

lemma demoPlan_keys [simp]:
  "pl_id (demoPlan st st') = ''d1''" "pl_read (demoPlan st st') = demoDelivery st"
  "pl_target (demoPlan st st') = st'"
  by (simp_all add: demoPlan_def planFor_def verifyDeliveryLocation_def dtoFor_def)

lemma demo_commit:
  "\<exists>s1. commitPlan (demoPlan st st') (demoState st)
         = (Inr (planUpdate (demoPlan st st') (demoDelivery st)), s1)"
  by (simp add: commitPlan_def updateWithOptimisticLock_def)

subsection \<open>Properties\<close>



text \<open>A delivery gets at most one notification per stage it has passed: in every reachable
  state the notifications sent for a row are at most the stages it has advanced since the start.\<close>

theorem notifications_bounded_by_progress:
  assumes "wreach cfg geocode s0 w"
  shows "notifyCount i (db w) + rowStage i s0 \<le> notifyCount i s0 + rowStage i (db w)
       \<and> notifyCount i (db w) \<le> notifyCount i s0 + 3"
  using wreach_stage [OF assms, of i] rowStage_le [of i "db w"] by linarith

lemma notifications_bounded_by_progress_witness:
  "\<exists>w. wreach demoConfig noGeocoder (demoState InProgress) w
     \<and> rowStage ''d1'' (db w) = 3 \<and> notifyCount ''d1'' (db w) \<le> 1"
proof -
  let ?w = "\<lparr>db = demoState InProgress, inFlight = [demoPlan InProgress Delivered]\<rparr>"
  have reach: "wreach demoConfig noGeocoder (demoState InProgress) ?w"
    by (rule demo_reach) (simp add: isValidTransition_def)
  obtain s1 where com: "commitPlan (demoPlan InProgress Delivered) (demoState InProgress)
      = (Inr (planUpdate (demoPlan InProgress Delivered) (demoDelivery InProgress)), s1)"
    using demo_commit by blast
  then have r2: "wreach demoConfig noGeocoder (demoState InProgress) \<lparr>db = s1, inFlight = []\<rparr>"
    using wreach.step [OF reach wstep.writeBack [of "demoPlan InProgress Delivered" ?w]] by simp
  have "rowStage ''d1'' s1 = 3"
    using com by (auto simp: rowStage_def elim!: commitPlan_cases)
  moreover have "rowStage ''d1'' (demoState InProgress) = 2" "notifyCount ''d1'' (demoState InProgress) = 0"
    by (simp_all add: rowStage_def notifyCount_def, simp add: demoState_def)
  ultimately show ?thesis
    using notifications_bounded_by_progress [OF r2, of "''d1''"] r2 by (intro exI conjI) auto
qed




text \<open>Run without interference, the driver endpoint does exactly what its guards say: it
  refuses a delivery that is not the company's or deleted, one that is not assigned to the caller,
  and every move other than assigned to in progress and in progress to delivered or failed, with
  the matching error and an unchanged state; otherwise the row is in the requested status, with a
  completion time when it is delivered.\<close>

theorem driver_update_outcome:
  "(case updateDriverStatus cfg geocode company i user dto s of
      (Inl e, s') \<Rightarrow> driverDecision company i user (sd_status dto) s = Some e \<and> s' = s
    | (Inr d', s') \<Rightarrow> driverDecision company i user (sd_status dto) s = None
        \<and> deliveries s' i = Some d' \<and> status d' = sd_status dto \<and> companyId d' = company
        \<and> (if sd_status dto = Delivered then completedAt d' = Some (clock s)
           else completedAt d' = (case deliveries s i of Some d \<Rightarrow> completedAt d | None \<Rightarrow> None)))"
  by (rule driver_update_decided)



end
