(* ===== verification/Delivery_Admin.thy ===== *)
theory Delivery_Admin
  imports Delivery_Status "HOL-Library.Multiset"
begin

text \<open>
  The dispatcher's operations of \<open>backend/src/modules/deliveries/deliveries.service.ts\<close>:
  \<open>create\<close>, the generic update \<open>update\<close> (PATCH \<open>/deliveries/:id\<close>, here
  \<open>updateDelivery\<close>), \<open>resolveMismatch\<close>, \<open>remove\<close> and \<open>bulkAction\<close>. The identifier the
  database generates is an argument of \<open>create\<close>. An empty
  identifier is rejected by the database (the columns are UUIDs). Like the status endpoints,
  \<open>updateDelivery\<close> is a read part and a write part, so that the race between them can be stated.
\<close>

fun truthyId :: "ident field \<Rightarrow> ident option" where
  "truthyId (Val x) = (if x = [] then None else Some x)"
| "truthyId _ = None"

subsection \<open>Create\<close>

record create_dto =
  cr_title :: string
  cr_address :: string
  cr_lat :: "real field"
  cr_lng :: "real field"
  cr_status :: "delivery_status option"
  cr_vehicle :: "ident option"
  cr_driver :: "ident option"
  cr_info :: delivery_info

definition autoGeocode ::
    "geocoder \<Rightarrow> string \<Rightarrow> real field \<times> real field \<Rightarrow> real option \<times> real option" where
  "autoGeocode geocode address given =
     (let asGiven = (applyField (fst given) None, applyField (snd given) None) in
      if fst given = Unset \<and> snd given = Unset \<and> address \<noteq> [] then
        (case geocode address of Inr ((lat, lng) # _) \<Rightarrow> (Some lat, Some lng) | _ \<Rightarrow> asGiven)
      else asGiven)"

definition insertDelivery :: "ident \<Rightarrow> delivery \<Rightarrow> dstate \<Rightarrow> api_error + dstate" where
  "insertDelivery i d s =
     (if vehicleId d = Some [] \<or> driverId d = Some [] then Inl InvalidReference
      else if deliveries s i \<noteq> None then Inl UniqueViolation
      else case externalOrderRef d of
        None \<Rightarrow> Inr (setRow i d s)
      | Some ref \<Rightarrow>
          if orderIndex s (companyId d, ref) \<noteq> None then Inl UniqueViolation
          else Inr ((setRow i d s)\<lparr>orderIndex := (orderIndex s)((companyId d, ref) \<mapsto> i)\<rparr>))"

definition vehicleMissing :: "ident \<Rightarrow> ident option \<Rightarrow> dstate \<Rightarrow> bool" where
  "vehicleMissing company v s = (case v of Some x \<Rightarrow> \<not> vehicleExists company x s | None \<Rightarrow> False)"

text \<open>The driver lookup of both operations: the user account of the driver named, if one is.\<close>

definition resolveDriver :: "ident \<Rightarrow> ident option \<Rightarrow> dstate \<Rightarrow> api_error + ident option option" where
  "resolveDriver company dr s =
     (case dr of None \<Rightarrow> Inr None
      | Some x \<Rightarrow> (case findDriver company x s of None \<Rightarrow> Inl DriverNotFound
                  | Some r \<Rightarrow> Inr (Some (drv_user r))))"

definition optField :: "'a option \<Rightarrow> 'a field" where
  "optField v = (case v of Some x \<Rightarrow> Val x | None \<Rightarrow> Unset)"

definition newDelivery :: "ident \<Rightarrow> create_dto \<Rightarrow> real option \<times> real option \<Rightarrow> ident option \<Rightarrow> delivery" where
  "newDelivery company dto dest user =
     \<lparr>companyId = company, title = cr_title dto, status = InProgress,
      deliveryAddress = cr_address dto, deliveryLat = fst dest, deliveryLng = snd dest,
      vehicleId = cr_vehicle dto, driverId = cr_driver dto, assignedDriverId = user,
      clientId = None, completedAt = None, proofLat = None, proofLng = None, proofDistance = None,
      proofAccuracy = None, locationMismatch = False, mismatchResolved = False,
      externalOrderRef = None, tourSequence = None, deletedAt = None, info = cr_info dto\<rparr>"

definition create ::
    "geocoder \<Rightarrow> ident \<Rightarrow> create_dto \<Rightarrow> ident \<Rightarrow> dstate \<Rightarrow> (api_error + delivery) \<times> dstate" where
  "create geocode company dto i s =
     (if vehicleMissing company (truthyId (optField (cr_vehicle dto))) s then (Inl VehicleNotFound, s)
      else case resolveDriver company (truthyId (optField (cr_driver dto))) s of
        Inl e \<Rightarrow> (Inl e, s)
      | Inr found \<Rightarrow>
          (let dest = autoGeocode geocode (cr_address dto) (cr_lat dto, cr_lng dto);
               d = newDelivery company dto dest (nullish found None)
           in if cr_status dto = Some Delivered \<or> cr_status dto = Some Failed
                 \<or> cr_status dto = Some Cancelled
              then (Inl TerminalCreation, s)
              else case insertDelivery i d s of
                Inl e \<Rightarrow> (Inl e, s)
              | Inr s1 \<Rightarrow> (Inr d, emit [HookStatusChanged company i (status d),
                                      BusUpdate company i (status d)] s1)))"

subsection \<open>Generic update\<close>

record update_dto =
  up_title :: "string option"
  up_address :: "string option"
  up_lat :: "real field"
  up_lng :: "real field"
  up_status :: "delivery_status option"
  up_vehicle :: "ident field"
  up_driver :: "ident field"
  up_description :: "string field"
  up_pickupAddress :: "string option"
  up_pickupLat :: "real field"
  up_pickupLng :: "real field"
  up_pickupLabel :: "string field"
  up_deliveryLabel :: "string field"
  up_scheduled :: "ms field"
  up_notes :: "string field"

definition applyInfo :: "update_dto \<Rightarrow> delivery_info \<Rightarrow> delivery_info" where
  "applyInfo dto x = x\<lparr>description := applyField (up_description dto) (description x),
     pickupAddress := nullish (up_pickupAddress dto) (pickupAddress x),
     pickupPoint := (applyField (up_pickupLat dto) (fst (pickupPoint x)),
                     applyField (up_pickupLng dto) (snd (pickupPoint x))),
     pickupLocationLabel := applyField (up_pickupLabel dto) (pickupLocationLabel x),
     deliveryLocationLabel := applyField (up_deliveryLabel dto) (deliveryLocationLabel x),
     scheduledDate := applyField (up_scheduled dto) (scheduledDate x),
     noteText := applyField (up_notes dto) (noteText x)\<rparr>"

text \<open>\<open>updateData\<close>: the body, and the keys the service adds to it.\<close>

record patch =
  pa_dto :: update_dto
  pa_point :: "real field \<times> real field"
  pa_assigned :: "ident field"
  pa_completed :: "ms field"

definition applyPatch :: "patch \<Rightarrow> delivery \<Rightarrow> delivery" where
  "applyPatch u d = d\<lparr>
     title := nullish (up_title (pa_dto u)) (title d),
     deliveryAddress := nullish (up_address (pa_dto u)) (deliveryAddress d),
     deliveryLat := applyField (fst (pa_point u)) (deliveryLat d),
     deliveryLng := applyField (snd (pa_point u)) (deliveryLng d),
     status := nullish (up_status (pa_dto u)) (status d),
     vehicleId := applyField (up_vehicle (pa_dto u)) (vehicleId d),
     driverId := applyField (up_driver (pa_dto u)) (driverId d),
     assignedDriverId := applyField (pa_assigned u) (assignedDriverId d),
     completedAt := applyField (pa_completed u) (completedAt d),
     info := applyInfo (pa_dto u) (info d)\<rparr>"

definition patchPoint :: "geocoder \<Rightarrow> update_dto \<Rightarrow> delivery \<Rightarrow> real field \<times> real field" where
  "patchPoint geocode dto d =
     (case up_address dto of
        Some a \<Rightarrow>
          if up_lat dto = Unset \<and> up_lng dto = Unset \<and> a \<noteq> [] \<and> a \<noteq> deliveryAddress d then
            (case geocode a of Inr ((lat, lng) # _) \<Rightarrow> (Val lat, Val lng)
             | _ \<Rightarrow> (up_lat dto, up_lng dto))
          else (up_lat dto, up_lng dto)
      | None \<Rightarrow> (up_lat dto, up_lng dto))"

record patch_plan =
  pp_company :: ident
  pp_id :: ident
  pp_read :: delivery
  pp_patch :: patch

definition statusChanged :: "update_dto \<Rightarrow> delivery \<Rightarrow> bool" where
  "statusChanged dto d \<longleftrightarrow> up_status dto \<noteq> None \<and> up_status dto \<noteq> Some (status d)"

definition prepareUpdate ::
    "geocoder \<Rightarrow> ident \<Rightarrow> ident \<Rightarrow> update_dto \<Rightarrow> dstate \<Rightarrow> (api_error + patch_plan) \<times> dstate" where
  "prepareUpdate geocode company i dto s =
     (case findOne company i None None s of
        Inl e \<Rightarrow> (Inl e, s)
      | Inr d \<Rightarrow>
          if vehicleMissing company (truthyId (up_vehicle dto)) s then (Inl VehicleNotFound, s)
          else case resolveDriver company (truthyId (up_driver dto)) s of
            Inl e \<Rightarrow> (Inl e, s)
          | Inr found \<Rightarrow>
              (let assigned = (case found of None \<Rightarrow> Unset | Some None \<Rightarrow> Null | Some (Some u) \<Rightarrow> Val u);
                   done = (if statusChanged dto d \<and> up_status dto = Some Delivered
                           then Val (clock s) else Unset);
                   p = \<lparr>pp_company = company, pp_id = i, pp_read = d,
                        pp_patch = \<lparr>pa_dto = dto, pa_point = patchPoint geocode dto d,
                                    pa_assigned = assigned, pa_completed = done\<rparr>\<rparr>
               in case up_status dto of
                    Some st \<Rightarrow>
                      if statusChanged dto d \<and> st \<notin> set (TRANSITION_MATRIX (status d))
                      then (Inl (TransitionRefused (status d) st), s)
                      else if statusChanged dto d
                      then (Inr p, emit (dispatchDailyFuelReportRecompute company
                              (applyField (if up_driver dto = Null then Unset else up_driver dto)
                                 (driverId d)) st (clock s)) s)
                      else (Inr p, s)
                  | None \<Rightarrow> (Inr p, s)))"

definition patchEffects :: "patch_plan \<Rightarrow> delivery \<Rightarrow> ms \<Rightarrow> effect list" where
  "patchEffects p updated now =
     (let dto = pa_dto (pp_patch p); company = pp_company p; i = pp_id p in
      (if statusChanged dto (pp_read p) then
         (case up_status dto of
            Some st \<Rightarrow> Notify company i (DeliveryStatusChange st) (statusPriority st)
                         (assignedDriverId updated)
                      # dispatchWebhook company i st now @ [BusUpdate company i st]
          | None \<Rightarrow> [])
       else [])
      @ (case truthyId (up_driver dto) of
           Some x \<Rightarrow> if Some x \<noteq> driverId (pp_read p)
                     then [HookDriverAssigned company i x, BusAssigned company i x] else []
         | None \<Rightarrow> []))"

definition commitUpdate :: "patch_plan \<Rightarrow> dstate \<Rightarrow> (api_error + delivery) \<times> dstate" where
  "commitUpdate p s =
     (case deliveries s (pp_id p) of
        None \<Rightarrow> (Inl DeliveryNotFound, s)
      | Some d \<Rightarrow>
          if up_vehicle (pa_dto (pp_patch p)) = Val [] \<or> up_driver (pa_dto (pp_patch p)) = Val []
          then (Inl InvalidReference, s)
          else (let d' = applyPatch (pp_patch p) d
                in (Inr d', emit (patchEffects p d' (clock s)) (setRow (pp_id p) d' s))))"

definition updateDelivery ::
    "geocoder \<Rightarrow> ident \<Rightarrow> ident \<Rightarrow> update_dto \<Rightarrow> dstate \<Rightarrow> (api_error + delivery) \<times> dstate" where
  "updateDelivery geocode company i dto s =
     (case prepareUpdate geocode company i dto s of
        (Inl e, s1) \<Rightarrow> (Inl e, s1)
      | (Inr p, s1) \<Rightarrow> commitUpdate p s1)"

subsection \<open>Mismatch and deletion\<close>

definition resolveMismatch :: "ident \<Rightarrow> ident \<Rightarrow> dstate \<Rightarrow> (api_error + delivery) \<times> dstate" where
  "resolveMismatch company i s =
     (case findOne company i None None s of
        Inl e \<Rightarrow> (Inl e, s)
      | Inr d \<Rightarrow>
          if \<not> locationMismatch d then (Inl NoLocationMismatch, s)
          else (let d' = d\<lparr>mismatchResolved := True\<rparr> in (Inr d', setRow i d' s)))"

definition remove :: "ident \<Rightarrow> ident \<Rightarrow> dstate \<Rightarrow> (api_error + delivery) \<times> dstate" where
  "remove company i s =
     (case findOne company i None None s of
        Inl e \<Rightarrow> (Inl e, s)
      | Inr d \<Rightarrow>
          if status d = InProgress then (Inl DeleteInProgress, s)
          else (let d' = d\<lparr>deletedAt := Some (clock s)\<rparr> in (Inr d', setRow i d' s)))"

subsection \<open>Bulk actions\<close>

datatype bulk_action =
  BulkDelete | BulkStatus "delivery_status option" | BulkAssign "ident option"

datatype bulk_reason = BulkError api_error | NoDriverProvided | UnknownAction

record bulk_result =
  succeeded :: "ident list"
  failed :: "(ident \<times> bulk_reason) list"

text \<open>The rows read before the loop: \<open>findMany\<close> with \<open>id in ids\<close>, the company, not deleted.\<close>

definition snapshotOf :: "ident \<Rightarrow> ident list \<Rightarrow> dstate \<Rightarrow> ident \<rightharpoonup> delivery" where
  "snapshotOf company ids s = (\<lambda>i.
     case deliveries s i of
       Some d \<Rightarrow> if i \<in> set ids \<and> visible company d then Some d else None
     | None \<Rightarrow> None)"

definition bulkOne ::
    "ident \<Rightarrow> bulk_action \<Rightarrow> (ident \<rightharpoonup> delivery) \<Rightarrow> ident \<Rightarrow> dstate \<Rightarrow> bulk_reason option \<times> dstate" where
  "bulkOne company action snap i s =
     (case snap i of
        None \<Rightarrow> (Some (BulkError DeliveryNotFound), s)
      | Some d \<Rightarrow>
          (case action of
             BulkDelete \<Rightarrow>
               if status d = InProgress then (Some (BulkError DeleteInProgress), s)
               else (None, updateRow i (\<lambda>r. r\<lparr>deletedAt := Some (clock s)\<rparr>) s)
           | BulkStatus None \<Rightarrow> (Some UnknownAction, s)
           | BulkStatus (Some st) \<Rightarrow>
               if st \<notin> set (TRANSITION_MATRIX (status d))
               then (Some (BulkError (TransitionRefused (status d) st)), s)
               else (None, emit [HookStatusChanged company i st, BusUpdate company i st]
                       (updateRow i (\<lambda>r. if st = Delivered
                                         then r\<lparr>status := st, completedAt := Some (clock s)\<rparr>
                                         else r\<lparr>status := st\<rparr>)
                         (emit (dispatchDailyFuelReportRecompute company (driverId d) st (clock s)) s)))
           | BulkAssign None \<Rightarrow> (Some NoDriverProvided, s)
           | BulkAssign (Some x) \<Rightarrow>
               if x = [] then (Some NoDriverProvided, s)
               else (case findDriver company x s of
                  None \<Rightarrow> (Some (BulkError DriverNotFound), s)
                | Some r \<Rightarrow>
                    (None, emit [HookDriverAssigned company i x, BusAssigned company i x]
                       (updateRow i (\<lambda>q. q\<lparr>driverId := Some x, assignedDriverId := drv_user r\<rparr>) s)))))"

fun bulkLoop ::
    "ident \<Rightarrow> bulk_action \<Rightarrow> (ident \<rightharpoonup> delivery) \<Rightarrow> ident list \<Rightarrow> bulk_result \<Rightarrow> dstate
       \<Rightarrow> bulk_result \<times> dstate" where
  "bulkLoop company action snap [] r s = (r, s)"
| "bulkLoop company action snap (i # is) r s =
     (case bulkOne company action snap i s of
        (None, s1) \<Rightarrow> bulkLoop company action snap is (r\<lparr>succeeded := succeeded r @ [i]\<rparr>) s1
      | (Some e, s1) \<Rightarrow> bulkLoop company action snap is (r\<lparr>failed := failed r @ [(i, e)]\<rparr>) s1)"

definition bulkAction :: "ident \<Rightarrow> ident list \<Rightarrow> bulk_action \<Rightarrow> dstate \<Rightarrow> bulk_result \<times> dstate" where
  "bulkAction company ids action s =
     bulkLoop company action (snapshotOf company ids s) ids \<lparr>succeeded = [], failed = []\<rparr> s"


subsection \<open>Every operation keeps the contract\<close>

lemma insertDelivery_Inr:
  "insertDelivery i d s = Inr s1 \<Longrightarrow> deliveries s i = None
     \<and> deliveries s1 = (deliveries s)(i \<mapsto> d) \<and> drivers s1 = drivers s \<and> vehicles s1 = vehicles s
     \<and> outbox s1 = outbox s \<and> clock s1 = clock s"
  by (auto simp: insertDelivery_def split: if_splits option.splits)

lemma newDelivery_keys [simp]:
  "companyId (newDelivery c dto p u) = c" "status (newDelivery c dto p u) = InProgress"
  "deletedAt (newDelivery c dto p u) = None" "externalOrderRef (newDelivery c dto p u) = None"
  "assignedDriverId (newDelivery c dto p u) = u" "driverId (newDelivery c dto p u) = cr_driver dto"
  "vehicleId (newDelivery c dto p u) = cr_vehicle dto"
  by (simp_all add: newDelivery_def)

lemma create_cases:
  assumes "create geocode c dto i s = (r, s1)"
  obtains (error) e where "r = Inl e" "s1 = s"
    | (created) found s2 where
        "r = Inr (newDelivery c dto (autoGeocode geocode (cr_address dto) (cr_lat dto, cr_lng dto)) (nullish found None))"
        "resolveDriver c (truthyId (optField (cr_driver dto))) s = Inr found"
        "\<not> vehicleMissing c (truthyId (optField (cr_vehicle dto))) s"
        "insertDelivery i (newDelivery c dto (autoGeocode geocode (cr_address dto) (cr_lat dto, cr_lng dto)) (nullish found None)) s = Inr s2"
        "s1 = emit [HookStatusChanged c i InProgress, BusUpdate c i InProgress] s2"
        "cr_status dto \<noteq> Some Delivered" "cr_status dto \<noteq> Some Failed" "cr_status dto \<noteq> Some Cancelled"
  using assms by (auto simp: create_def Let_def split: if_splits sum.splits)

interpretation create_endpoint: delivery_endpoint
  "\<lambda>c s. snd (create geocode c dto i s)" for geocode dto i
proof unfold_locales
  fix c s j
  obtain r s1 where run: "create geocode c dto i s = (r, s1)" by fastforce
  show "rowStep c (deliveries s j) (deliveries (snd (create geocode c dto i s)) j)"
    using run
  proof (cases rule: create_cases)
    case (created found s2)
    then show ?thesis using run insertDelivery_Inr [OF created(4)] by (cases "j = i") simp_all
  qed (simp add: run)
  show "drivers (snd (create geocode c dto i s)) = drivers s
      \<and> vehicles (snd (create geocode c dto i s)) = vehicles s"
    using run
  proof (cases rule: create_cases)
    case (created found s2)
    then show ?thesis using run insertDelivery_Inr [OF created(4)] by simp
  qed (simp add: run)
qed

lemma applyPatch_keys [simp]:
  "companyId (applyPatch u d) = companyId d" "deletedAt (applyPatch u d) = deletedAt d"
  "externalOrderRef (applyPatch u d) = externalOrderRef d"
  "status (applyPatch u d) = nullish (up_status (pa_dto u)) (status d)"
  "locationMismatch (applyPatch u d) = locationMismatch d" "proofLat (applyPatch u d) = proofLat d"
  "proofLng (applyPatch u d) = proofLng d" "mismatchResolved (applyPatch u d) = mismatchResolved d"
  "driverId (applyPatch u d) = applyField (up_driver (pa_dto u)) (driverId d)"
  "assignedDriverId (applyPatch u d) = applyField (pa_assigned u) (assignedDriverId d)"
  by (simp_all add: applyPatch_def)

lemma prepareUpdate_Inr:
  assumes "prepareUpdate geocode c i dto s = (Inr p, s1)"
  shows "deliveries s i = Some (pp_read p)" "visible c (pp_read p)" "pp_id p = i" "pp_company p = c"
    "pa_dto (pp_patch p) = dto" "deliveries s1 = deliveries s" "drivers s1 = drivers s"
    "vehicles s1 = vehicles s" "clock s1 = clock s"
    "progresses (status (pp_read p)) (nullish (up_status dto) (status (pp_read p)))"
    "\<exists>found. resolveDriver c (truthyId (up_driver dto)) s = Inr found
        \<and> pa_assigned (pp_patch p) = (case found of None \<Rightarrow> Unset | Some None \<Rightarrow> Null | Some (Some u) \<Rightarrow> Val u)"
  using assms
  by (auto simp: prepareUpdate_def Let_def findOne_Inr statusChanged_def isValidTransition_def
      intro: valid_progresses split: if_splits sum.splits option.splits)

lemma prepareUpdate_Inl: "prepareUpdate geocode c i dto s = (Inl e, s1) \<Longrightarrow> s1 = s"
  by (auto simp: prepareUpdate_def Let_def split: if_splits sum.splits option.splits)

lemma commitUpdate_cases:
  assumes "commitUpdate p s = (r, s1)"
  obtains (error) e where "r = Inl e" "s1 = s"
    | (written) d where "deliveries s (pp_id p) = Some d" "r = Inr (applyPatch (pp_patch p) d)"
        "deliveries s1 = (deliveries s)(pp_id p \<mapsto> applyPatch (pp_patch p) d)"
        "drivers s1 = drivers s" "vehicles s1 = vehicles s" "clock s1 = clock s"
        "outbox s1 = outbox s @ patchEffects p (applyPatch (pp_patch p) d) (clock s)"
  using assms by (auto simp: commitUpdate_def Let_def split: if_splits option.splits)

lemma updateDelivery_cases:
  assumes "updateDelivery geocode c i dto s = (r, s1)"
  obtains (refused) e where "r = Inl e" "deliveries s1 = deliveries s" "drivers s1 = drivers s"
        "vehicles s1 = vehicles s"
    | (written) p s0 where "prepareUpdate geocode c i dto s = (Inr p, s0)"
        "deliveries s i = Some (pp_read p)" "visible c (pp_read p)"
        "r = Inr (applyPatch (pp_patch p) (pp_read p))"
        "deliveries s1 = (deliveries s)(i \<mapsto> applyPatch (pp_patch p) (pp_read p))"
        "drivers s1 = drivers s" "vehicles s1 = vehicles s" "clock s1 = clock s"
        "outbox s1 = outbox s0 @ patchEffects p (applyPatch (pp_patch p) (pp_read p)) (clock s0)"
proof (cases "prepareUpdate geocode c i dto s")
  case (Pair q s0)
  show thesis
  proof (cases q)
    case (Inl e)
    with Pair assms have "r = Inl e" "s1 = s"
      using prepareUpdate_Inl [OF Pair [unfolded Inl]] by (simp_all add: updateDelivery_def)
    then show thesis using refused by simp
  next
    case (Inr p)
    note pre = prepareUpdate_Inr [OF Pair [unfolded Inr]]
    have "commitUpdate p s0 = (r, s1)" using Pair Inr assms by (simp add: updateDelivery_def)
    then show thesis
    proof (cases rule: commitUpdate_cases)
      case (error e)
      then show thesis using refused pre(6-8) by simp
    next
      case (written d)
      then show thesis using that(2) Pair Inr pre by simp
    qed
  qed
qed

interpretation update_endpoint: delivery_endpoint
  "\<lambda>c s. snd (updateDelivery geocode c i dto s)" for geocode i dto
proof unfold_locales
  fix c s j
  obtain r s1 where run: "updateDelivery geocode c i dto s = (r, s1)" by fastforce
  show "rowStep c (deliveries s j) (deliveries (snd (updateDelivery geocode c i dto s)) j)"
    using run
  proof (cases rule: updateDelivery_cases)
    case (written p s0)
    from prepareUpdate_Inr(5,10) [OF written(1)] show ?thesis
      using written(2,3,5) run by (cases "j = i") (simp_all add: visible_def)
  qed (simp add: run)
  show "drivers (snd (updateDelivery geocode c i dto s)) = drivers s
      \<and> vehicles (snd (updateDelivery geocode c i dto s)) = vehicles s"
    using run by (cases rule: updateDelivery_cases) (simp_all add: run)
qed

interpretation resolve_endpoint: delivery_endpoint "\<lambda>c s. snd (resolveMismatch c i s)" for i
  by unfold_locales
    (auto simp: resolveMismatch_def visible_def Let_def split: sum.splits dest!: findOne_Inr)

interpretation remove_endpoint: delivery_endpoint "\<lambda>c s. snd (remove c i s)" for i
  by unfold_locales
    (auto simp: remove_def visible_def Let_def split: sum.splits dest!: findOne_Inr)

subsection \<open>The bulk loop\<close>

text \<open>What one action writes; applying it a second time to the same row changes nothing more,
  which is why a repeated identifier leaves the rows as a single one does.\<close>

definition bulkWrite :: "ident \<Rightarrow> bulk_action \<Rightarrow> dstate \<Rightarrow> delivery \<Rightarrow> delivery" where
  "bulkWrite company action s d =
     (case action of
        BulkDelete \<Rightarrow> d\<lparr>deletedAt := Some (clock s)\<rparr>
      | BulkStatus (Some st) \<Rightarrow>
          if st = Delivered then d\<lparr>status := st, completedAt := Some (clock s)\<rparr> else d\<lparr>status := st\<rparr>
      | BulkAssign (Some x) \<Rightarrow>
          (case findDriver company x s of
             Some r \<Rightarrow> d\<lparr>driverId := Some x, assignedDriverId := drv_user r\<rparr> | None \<Rightarrow> d)
      | _ \<Rightarrow> d)"

definition bulkAllowed :: "bulk_action \<Rightarrow> delivery \<Rightarrow> bool" where
  "bulkAllowed action d =
     (case action of
        BulkDelete \<Rightarrow> status d \<noteq> InProgress
      | BulkStatus (Some st) \<Rightarrow> isValidTransition (status d) st
      | _ \<Rightarrow> True)"

lemma bulkWrite_idem: "bulkWrite c a s (bulkWrite c a s d) = bulkWrite c a s d"
  by (auto simp: bulkWrite_def split: bulk_action.splits option.splits)

lemma bulkWrite_cong:
  "clock s' = clock s \<Longrightarrow> drivers s' = drivers s \<Longrightarrow> bulkWrite c a s' d = bulkWrite c a s d"
  by (simp add: bulkWrite_def findDriver_def split: bulk_action.splits option.splits)

lemma bulkWrite_rowStep:
  "visible c d \<Longrightarrow> bulkAllowed a d \<Longrightarrow> rowStep c (Some d) (Some (bulkWrite c a s d))"
  by (auto simp: bulkWrite_def bulkAllowed_def visible_def dest: valid_progresses
      split: bulk_action.splits option.splits)

lemma bulkOne_effect:
  assumes "bulkOne c a snap i s = (e, s1)"
  shows "drivers s1 = drivers s" "vehicles s1 = vehicles s" "clock s1 = clock s"
    "deliveries s1 = deliveries s
     \<or> (\<exists>d. e = None \<and> snap i = Some d \<and> bulkAllowed a d
          \<and> deliveries s1 = (deliveries s)(i := map_option (bulkWrite c a s) (deliveries s i)))"
    "e \<noteq> None \<Longrightarrow> s1 = s"
  using assms
  by (auto simp: bulkOne_def bulkWrite_def [abs_def] bulkAllowed_def isValidTransition_def
      split: option.splits bulk_action.splits if_splits)

lemma bulkLoop_rows:
  assumes "bulkLoop c a snap is r s = (r', s')"
    and "\<And>j. deliveries s j = deliveries s0 j
          \<or> (\<exists>d. snap j = Some d \<and> bulkAllowed a d \<and> deliveries s j = Some (bulkWrite c a s0 d))"
    and "drivers s = drivers s0" "vehicles s = vehicles s0" "clock s = clock s0"
    and "\<And>j d. snap j = Some d \<Longrightarrow> deliveries s0 j = Some d"
  shows "(deliveries s' j = deliveries s0 j
          \<or> (\<exists>d. snap j = Some d \<and> bulkAllowed a d \<and> deliveries s' j = Some (bulkWrite c a s0 d)))
       \<and> drivers s' = drivers s0 \<and> vehicles s' = vehicles s0"
  using assms
proof (induction "is" arbitrary: r s)
  case (Cons i "is")
  obtain e s1 where one: "bulkOne c a snap i s = (e, s1)" by fastforce
  note eff = bulkOne_effect [OF one]
  have wr: "bulkWrite c a s = bulkWrite c a s0"
    using bulkWrite_cong Cons.prems(3,5) by blast
  have rows: "deliveries s1 j = deliveries s0 j
      \<or> (\<exists>d. snap j = Some d \<and> bulkAllowed a d \<and> deliveries s1 j = Some (bulkWrite c a s0 d))" for j
    using eff(4)
  proof
    assume "deliveries s1 = deliveries s" then show ?thesis using Cons.prems(2) [of j] by simp
  next
    assume "\<exists>d. e = None \<and> snap i = Some d \<and> bulkAllowed a d
        \<and> deliveries s1 = (deliveries s)(i := map_option (bulkWrite c a s) (deliveries s i))"
    then obtain d where d: "snap i = Some d" "bulkAllowed a d"
      "deliveries s1 = (deliveries s)(i := map_option (bulkWrite c a s0) (deliveries s i))"
      using wr by auto
    show ?thesis
    proof (cases "j = i")
      case True
      then show ?thesis
        using Cons.prems(2) [of i] Cons.prems(6) [OF d(1)] d bulkWrite_idem by auto
    next
      case False
      then show ?thesis using Cons.prems(2) [of j] d(3) by simp
    qed
  qed
  obtain r1 where "bulkLoop c a snap is r1 s1 = (r', s')"
    using Cons.prems(1) one by (cases e) auto
  from Cons.IH [OF this rows] eff(1-3) Cons.prems(3-6) show ?case by simp
qed simp

lemma snapshotOf_Some:
  "snapshotOf c ids s i = Some d \<longleftrightarrow> i \<in> set ids \<and> deliveries s i = Some d \<and> visible c d"
  by (auto simp: snapshotOf_def split: option.splits)

interpretation bulk_endpoint: delivery_endpoint "\<lambda>c s. snd (bulkAction c ids a s)" for ids a
proof unfold_locales
  fix c s j
  obtain r' s' where run: "bulkLoop c a (snapshotOf c ids s) ids \<lparr>succeeded = [], failed = []\<rparr> s = (r', s')"
    by fastforce
  have res: "(deliveries s' j = deliveries s j
        \<or> (\<exists>d. snapshotOf c ids s j = Some d \<and> bulkAllowed a d \<and> deliveries s' j = Some (bulkWrite c a s d)))
      \<and> drivers s' = drivers s \<and> vehicles s' = vehicles s"
    by (rule bulkLoop_rows [OF run]) (simp_all add: snapshotOf_Some)
  then show "rowStep c (deliveries s j) (deliveries (snd (bulkAction c ids a s)) j)"
    using run bulkWrite_rowStep by (auto simp: bulkAction_def snapshotOf_Some)
  show "drivers (snd (bulkAction c ids a s)) = drivers s
      \<and> vehicles (snd (bulkAction c ids a s)) = vehicles s"
    using res run by (simp add: bulkAction_def)
qed

lemma bulkLoop_accounts:
  "bulkLoop c a snap is r s = (r', s') \<Longrightarrow>
     mset (succeeded r') + mset (map fst (failed r'))
       = mset (succeeded r) + mset (map fst (failed r)) + mset is"
proof (induction "is" arbitrary: r s)
  case (Cons i "is")
  obtain e s1 where "bulkOne c a snap i s = (e, s1)" by fastforce
  with Cons show ?case by (cases e) (fastforce simp: ac_simps)+
qed simp

lemma updateStatus_Inr:
  assumes "updateStatus cfg geocode c i dto s = (Inr d', s')"
  shows "deliveries s' i = Some d'" "status d' = sd_status dto"
proof -
  from assms obtain p s1 where pre: "prepareStatus cfg geocode c i dto s = (Inr p, s1)"
      and com: "commitPlan p s1 = (Inr d', s')"
    by (auto simp: updateStatus_def andCommit_def split: prod.splits sum.splits)
  obtain b where "planFor cfg geocode c i (pl_read p) dto b s = (p, s1)"
    using prepare_Inr(2) [OF disjI2, OF pre] by blast
  note f = planFor_frame(2,4) [OF this]
  show "deliveries s' i = Some d'" "status d' = sd_status dto"
    using com f by (auto elim!: commitPlan_cases)
qed

subsection \<open>Witness requests\<close>

definition keepDto :: update_dto where
  "keepDto = \<lparr>up_title = None, up_address = None, up_lat = Unset, up_lng = Unset, up_status = None,
     up_vehicle = Unset, up_driver = Unset, up_description = Unset, up_pickupAddress = None,
     up_pickupLat = Unset, up_pickupLng = Unset, up_pickupLabel = Unset, up_deliveryLabel = Unset,
     up_scheduled = Unset, up_notes = Unset\<rparr>"

definition demoCreate :: create_dto where
  "demoCreate = \<lparr>cr_title = ''T2'', cr_address = ''B'', cr_lat = Unset, cr_lng = Unset, cr_status = None,
     cr_vehicle = None, cr_driver = Some ''drv'', cr_info = demoInfo\<rparr>"

lemma demo_findDriver [simp]:
  "findDriver ''acme'' ''drv'' (demoState st)
     = Some \<lparr>drv_company = ''acme'', drv_user = Some ''usr'', drv_deleted = False\<rparr>"
  by (simp add: findDriver_def demoState_def)

lemma keepDto_simps [simp]:
  "up_title keepDto = None" "up_address keepDto = None" "up_lat keepDto = Unset"
  "up_lng keepDto = Unset" "up_status keepDto = None" "up_vehicle keepDto = Unset"
  "up_driver keepDto = Unset"
  by (simp_all add: keepDto_def)

subsection \<open>Properties\<close>

text \<open>Whatever status the client asks for, a delivery that is created is in progress, belongs to
  the caller's company, and its driver account is exactly the account of the company's driver
  named in the request; a request that asks for a terminal status creates nothing.\<close>

theorem create_outcome:
  assumes "create geocode c dto i s = (Inr d, s')"
  shows "status d = InProgress \<and> companyId d = c \<and> deliveries s i = None
       \<and> deliveries s' = (deliveries s)(i \<mapsto> d)
       \<and> (case cr_driver dto of
            Some x \<Rightarrow> \<exists>r. findDriver c x s = Some r \<and> assignedDriverId d = drv_user r
          | None \<Rightarrow> assignedDriverId d = None)
       \<and> (case cr_vehicle dto of Some v \<Rightarrow> vehicleExists c v s | None \<Rightarrow> True)
       \<and> cr_status dto \<notin> {Some Delivered, Some Failed, Some Cancelled}"
  using assms
proof (cases rule: create_cases)
  case (created found s2)
  from created(4) have refs: "cr_vehicle dto \<noteq> Some []" "cr_driver dto \<noteq> Some []"
    by (auto simp: insertDelivery_def split: if_splits)
  show ?thesis
    using created refs insertDelivery_Inr [OF created(4)]
    by (cases "cr_driver dto"; cases "cr_vehicle dto")
      (auto simp: resolveDriver_def optField_def vehicleMissing_def split: option.splits)
qed simp

lemma create_outcome_witness:
  "\<exists>d s'. create noGeocoder ''acme'' demoCreate ''d2'' (demoState Pending) = (Inr d, s')
     \<and> status d = InProgress \<and> assignedDriverId d = Some ''usr''"
proof -
  have "\<exists>d s'. create noGeocoder ''acme'' demoCreate ''d2'' (demoState Pending) = (Inr d, s')"
    by (simp add: create_def demoCreate_def vehicleMissing_def optField_def resolveDriver_def
        insertDelivery_def newDelivery_def Let_def) (simp add: demoState_def)
  then obtain d s' where "create noGeocoder ''acme'' demoCreate ''d2'' (demoState Pending) = (Inr d, s')"
    by blast
  with create_outcome [OF this] show ?thesis by (auto simp: demoCreate_def)
qed

text \<open>Naming another driver in a generic update hands the delivery over completely: the account
  that can act on it is the new driver's, and any other account is refused by the driver endpoint,
  also when the new driver has no account.\<close>

theorem reassignment_moves_access:
  assumes "updateDelivery geocode c i dto s = (Inr d', s')" and "up_driver dto = Val x"
  shows "\<exists>r. findDriver c x s = Some r \<and> driverId d' = Some x \<and> assignedDriverId d' = drv_user r
       \<and> deliveries s' i = Some d'
       \<and> (\<forall>user target. drv_user r \<noteq> Some user \<longrightarrow>
            driverDecision c i user target s' = Some NotAssignedToYou)"
  using assms(1)
proof (cases rule: updateDelivery_cases)
  case (written p s0)
  note pre = prepareUpdate_Inr [OF written(1)]
  from assms(1) written(1) assms(2) pre(5) have "x \<noteq> []"
    by (auto simp: updateDelivery_def commitUpdate_def split: option.splits)
  with pre(11) assms(2) obtain r where r: "findDriver c x s = Some r"
      "pa_assigned (pp_patch p) = (case drv_user r of None \<Rightarrow> Null | Some u \<Rightarrow> Val u)"
    by (auto simp: resolveDriver_def split: option.splits)
  then have "assignedDriverId d' = drv_user r" "driverId d' = Some x"
    using written(4) pre(5) assms(2) by (cases "drv_user r"; simp)+
  with r written(3,4,5) show ?thesis by (auto simp: driverDecision_def visible_def)
qed simp

lemma reassignment_moves_access_witness:
  "\<exists>d' s'. updateDelivery noGeocoder ''acme'' ''d1'' (keepDto\<lparr>up_driver := Val ''drv''\<rparr>) (demoState Assigned)
             = (Inr d', s') \<and> driverDecision ''acme'' ''d1'' ''other'' InProgress s' = Some NotAssignedToYou"
proof -
  have "\<exists>d' s'. updateDelivery noGeocoder ''acme'' ''d1'' (keepDto\<lparr>up_driver := Val ''drv''\<rparr>) (demoState Assigned)
      = (Inr d', s')"
    by (simp add: updateDelivery_def prepareUpdate_def vehicleMissing_def resolveDriver_def commitUpdate_def Let_def)
  then obtain d' s' where "updateDelivery noGeocoder ''acme'' ''d1'' (keepDto\<lparr>up_driver := Val ''drv''\<rparr>)
      (demoState Assigned) = (Inr d', s')" by blast
  with reassignment_moves_access [OF this, of "''drv''"] show ?thesis by auto
qed

text \<open>Clearing the driver does not: a generic update with \<open>driverId: null\<close> removes the driver
  from the row but keeps the account, so the former driver can still complete the delivery.\<close>

theorem clearing_driver_keeps_access:
  assumes "updateDelivery geocode c i dto s = (Inr d', s')" and "up_driver dto = Null"
    and "deliveries s i = Some d" and "assignedDriverId d = Some user"
    and "status d = InProgress" and "up_status dto = None"
  shows "driverId d' = None \<and> assignedDriverId d' = Some user
       \<and> driverDecision c i user Delivered s' = None"
  using assms(1)
proof (cases rule: updateDelivery_cases)
  case (written p s0)
  note pre = prepareUpdate_Inr [OF written(1)]
  have "pa_assigned (pp_patch p) = Unset"
    using pre(11) assms(2) by (auto simp: resolveDriver_def)
  then show ?thesis
    using written(2-5) assms pre(5) by (auto simp: driverDecision_def visible_def)
qed simp

lemma clearing_driver_keeps_access_witness:
  "\<exists>d' s'. updateDelivery noGeocoder ''acme'' ''d1'' (keepDto\<lparr>up_driver := Null\<rparr>) (demoState InProgress)
             = (Inr d', s') \<and> driverDecision ''acme'' ''d1'' ''usr'' Delivered s' = None"
proof -
  have "\<exists>d' s'. updateDelivery noGeocoder ''acme'' ''d1'' (keepDto\<lparr>up_driver := Null\<rparr>) (demoState InProgress)
      = (Inr d', s')"
    by (simp add: updateDelivery_def prepareUpdate_def vehicleMissing_def resolveDriver_def commitUpdate_def Let_def)
  then obtain d' s' where run: "updateDelivery noGeocoder ''acme'' ''d1'' (keepDto\<lparr>up_driver := Null\<rparr>)
      (demoState InProgress) = (Inr d', s')" by blast
  have "assignedDriverId (demoDelivery InProgress) = Some ''usr''" by (simp add: demoDelivery_def)
  with run clearing_driver_keeps_access [OF run, of "demoDelivery InProgress" "''usr''"] show ?thesis by auto
qed

text \<open>The generic update has no optimistic lock: if a dispatcher cancels the delivery after the
  update has read it, the update still goes through and the cancelled delivery is back in the
  status the update asked for.\<close>

theorem patch_overwrites_concurrent_cancel:
  assumes "prepareUpdate geocode c i dto s = (Inr p, s1)" and "up_status dto = Some st"
    and "up_vehicle dto \<noteq> Val []" and "up_driver dto \<noteq> Val []"
    and "updateStatus cfg geocode c i cancel s1 = (Inr d2, s2)" and "sd_status cancel = Cancelled"
  shows "status d2 = Cancelled
       \<and> (\<exists>d3 s3. commitUpdate p s2 = (Inr d3, s3) \<and> deliveries s3 i = Some d3 \<and> status d3 = st)"
  using prepareUpdate_Inr(3,5) [OF assms(1)] updateStatus_Inr [OF assms(5)] assms(2-4,6)
  by (simp add: commitUpdate_def Let_def)

lemma patch_overwrites_concurrent_cancel_witness:
  "\<exists>p s1 d2 s2 d3 s3.
     prepareUpdate noGeocoder ''acme'' ''d1'' (keepDto\<lparr>up_status := Some InProgress\<rparr>) (demoState Assigned)
       = (Inr p, s1)
     \<and> updateStatus demoConfig noGeocoder ''acme'' ''d1'' (dtoFor Cancelled) s1 = (Inr d2, s2)
     \<and> status d2 = Cancelled \<and> commitUpdate p s2 = (Inr d3, s3) \<and> status d3 = InProgress"
proof -
  have "\<exists>p. prepareUpdate noGeocoder ''acme'' ''d1'' (keepDto\<lparr>up_status := Some InProgress\<rparr>) (demoState Assigned)
      = (Inr p, demoState Assigned)"
    by (simp add: prepareUpdate_def vehicleMissing_def resolveDriver_def Let_def statusChanged_def
        dispatchDailyFuelReportRecompute_def isFuelReportTriggerStatus_def emit_def)
  then obtain p where p: "prepareUpdate noGeocoder ''acme'' ''d1''
      (keepDto\<lparr>up_status := Some InProgress\<rparr>) (demoState Assigned) = (Inr p, demoState Assigned)" by blast
  obtain s2 where "commitPlan (demoPlan Assigned Cancelled) (demoState Assigned)
      = (Inr (planUpdate (demoPlan Assigned Cancelled) (demoDelivery Assigned)), s2)"
    using demo_commit by blast
  then have c: "updateStatus demoConfig noGeocoder ''acme'' ''d1'' (dtoFor Cancelled) (demoState Assigned)
      = (Inr (planUpdate (demoPlan Assigned Cancelled) (demoDelivery Assigned)), s2)"
    by (simp add: updateStatus_def demo_prepare isValidTransition_def andCommit_def)
  show ?thesis
    using patch_overwrites_concurrent_cancel [OF p _ _ _ c] p c by auto
qed

text \<open>Completing a delivery by the generic update asks for no proof of location: the row keeps
  its old proof columns and mismatch flag, and the notification is a plain status change, whatever
  the position of the driver.\<close>

theorem patch_completion_needs_no_proof:
  assumes "updateDelivery geocode c i dto s = (Inr d', s')" and "deliveries s i = Some d"
    and "up_status dto = Some Delivered" and "status d = InProgress"
  shows "status d' = Delivered \<and> locationMismatch d' = locationMismatch d
       \<and> proofLat d' = proofLat d \<and> proofLng d' = proofLng d
       \<and> filter (isNotifyOf i) (outbox s') = filter (isNotifyOf i) (outbox s)
           @ [Notify c i (DeliveryStatusChange Delivered) Low (assignedDriverId d')]"
  using assms(1)
proof (cases rule: updateDelivery_cases)
  case (written p s0)
  note pre = prepareUpdate_Inr [OF written(1)]
  have read: "pp_read p = d" using pre(1) assms(2) by simp
  have "filter (isNotifyOf i) (outbox s0) = filter (isNotifyOf i) (outbox s)"
    using written(1) assms(3)
    by (auto simp: prepareUpdate_def Let_def split: sum.splits if_splits)
  moreover have "filter (isNotifyOf i) (patchEffects p d' (clock s0))
      = [Notify c i (DeliveryStatusChange Delivered) Low (assignedDriverId d')]"
    using pre(3-5) assms(3,4) read
    by (simp add: patchEffects_def Let_def statusChanged_def statusPriority_def split: option.splits)
  ultimately show ?thesis
    using written(4,9) read pre(5) assms(3) by simp
qed simp

lemma patch_completion_needs_no_proof_witness:
  "\<exists>d' s'. updateDelivery noGeocoder ''acme'' ''d1'' (keepDto\<lparr>up_status := Some Delivered\<rparr>)
             (demoState InProgress) = (Inr d', s') \<and> status d' = Delivered \<and> \<not> locationMismatch d'"
proof -
  have "\<exists>d' s'. updateDelivery noGeocoder ''acme'' ''d1'' (keepDto\<lparr>up_status := Some Delivered\<rparr>)
      (demoState InProgress) = (Inr d', s')"
    by (simp add: updateDelivery_def prepareUpdate_def vehicleMissing_def resolveDriver_def commitUpdate_def
        Let_def statusChanged_def)
  then obtain d' s' where run: "updateDelivery noGeocoder ''acme'' ''d1'' (keepDto\<lparr>up_status := Some Delivered\<rparr>)
      (demoState InProgress) = (Inr d', s')" by blast
  have "\<not> locationMismatch (demoDelivery InProgress)" by (simp add: demoDelivery_def)
  with run patch_completion_needs_no_proof [OF run, of "demoDelivery InProgress"] show ?thesis by auto
qed

text \<open>A bulk action accounts for every identifier it was given exactly once, as succeeded or as
  failed, and writes only rows of the list that belong to the company, are not deleted and allow
  the action, each with the one update the action stands for.\<close>

theorem bulk_accounts_for_every_id:
  "mset (succeeded (fst (bulkAction c ids a s))) + mset (map fst (failed (fst (bulkAction c ids a s))))
     = mset ids
   \<and> (deliveries (snd (bulkAction c ids a s)) j = deliveries s j
      \<or> (\<exists>d. j \<in> set ids \<and> deliveries s j = Some d \<and> visible c d \<and> bulkAllowed a d
           \<and> deliveries (snd (bulkAction c ids a s)) j = Some (bulkWrite c a s d)))"
proof -
  obtain r' s' where run: "bulkLoop c a (snapshotOf c ids s) ids \<lparr>succeeded = [], failed = []\<rparr> s = (r', s')"
    by fastforce
  have "(deliveries s' j = deliveries s j
        \<or> (\<exists>d. snapshotOf c ids s j = Some d \<and> bulkAllowed a d \<and> deliveries s' j = Some (bulkWrite c a s d)))
      \<and> drivers s' = drivers s \<and> vehicles s' = vehicles s"
    by (rule bulkLoop_rows [OF run]) (simp_all add: snapshotOf_Some)
  with bulkLoop_accounts [OF run] run show ?thesis
    by (auto simp: bulkAction_def snapshotOf_Some)
qed

text \<open>The bulk loop decides on the rows as they were before it started: an identifier given
  twice makes the same transition twice, with its webhook sent twice and both reported as
  succeeded.\<close>

theorem bulk_duplicate_repeats_transition:
  assumes "deliveries s i = Some d" and "visible c d" and "isValidTransition (status d) st"
  shows "succeeded (fst (bulkAction c [i, i] (BulkStatus (Some st)) s)) = [i, i]
       \<and> length (filter (\<lambda>e. e = HookStatusChanged c i st)
                  (outbox (snd (bulkAction c [i, i] (BulkStatus (Some st)) s))))
         = length (filter (\<lambda>e. e = HookStatusChanged c i st) (outbox s)) + 2"
proof -
  have "filter (\<lambda>e. e = HookStatusChanged c i st) (dispatchDailyFuelReportRecompute c dr st now) = []" for dr now
    unfolding dispatchDailyFuelReportRecompute_def
    by (cases dr) (simp_all only: option.case filter.simps effect.distinct if_cancel split: if_split, simp)
  then show ?thesis
    using assms by (simp add: bulkAction_def bulkOne_def snapshotOf_def isValidTransition_def)
qed

lemma bulk_duplicate_repeats_transition_witness:
  "succeeded (fst (bulkAction ''acme'' [''d1'', ''d1''] (BulkStatus (Some Cancelled)) (demoState Pending)))
     = [''d1'', ''d1'']"
  using bulk_duplicate_repeats_transition [of "demoState Pending" "''d1''" "demoDelivery Pending" "''acme''" Cancelled]
  by (simp add: visible_def isValidTransition_def) (simp add: demoDelivery_def)

end
