(* ===== verification/Delivery_Tour.thy ===== *)
theory Delivery_Tour
  imports Delivery_Admin
begin

text \<open>
  Multi-stop tours: \<open>RoutingService.optimizeTrip\<close> of \<open>backend/src/modules/routing/routing.service.ts\<close>
  and \<open>DeliveriesService.optimizeTour\<close>. The routing engine (OSRM) is outside the model: its
  answer to a list of coordinates is the parameter \<open>osrm\<close>. The documented behaviour the code
  relies on is one waypoint per input coordinate; it is a hypothesis where it is needed.
\<close>

record osrm_data =
  os_ok :: bool
  os_waypoints :: "nat list"
  os_trips :: "(real \<times> real) list"

datatype osrm_answer = Unreachable | HttpFailure | Answer osrm_data

type_synonym osrm = "(real \<times> real) list \<Rightarrow> osrm_answer"

record trip =
  tr_order :: "nat list"
  tr_distance :: real
  tr_duration :: real

text \<open>\<open>waypoints\<close> comes in input order with the position of each point in the tour; the order is
  the input indices sorted by that position.\<close>

definition tripOrder :: "nat list \<Rightarrow> nat list" where
  "tripOrder ws = map fst (sort_key snd (enumerate 0 ws))"

definition optimizeTrip :: "osrm \<Rightarrow> (real \<times> real) list \<Rightarrow> api_error + trip" where
  "optimizeTrip osrm coords =
     (case osrm (map (\<lambda>(lat, lng). (lng, lat)) coords) of
        Unreachable \<Rightarrow> Inl RoutingUnavailable
      | HttpFailure \<Rightarrow> Inl RoutingUnavailable
      | Answer a \<Rightarrow>
          if \<not> os_ok a \<or> os_trips a = [] \<or> os_waypoints a = [] then Inl NoTripFound
          else Inr \<lparr>tr_order = tripOrder (os_waypoints a), tr_distance = fst (hd (os_trips a)),
                    tr_duration = snd (hd (os_trips a))\<rparr>)"

record tour =
  to_order :: "(ident \<times> nat) list"
  to_distance :: real
  to_duration :: real
  to_skipped :: "(ident \<times> bool) list"

text \<open>The stop of an identifier; a skipped one tells whether the row was found at all.\<close>

definition stopOf :: "(ident \<rightharpoonup> delivery) \<Rightarrow> ident \<Rightarrow> (ident \<times> bool) + (ident \<times> real \<times> real)" where
  "stopOf snap i =
     (case snap i of
        None \<Rightarrow> Inl (i, False)
      | Some d \<Rightarrow> (case (deliveryLat d, deliveryLng d) of
                    (Some lat, Some lng) \<Rightarrow> Inr (i, lat, lng) | _ \<Rightarrow> Inl (i, True)))"

fun splitStops :: "(ident \<rightharpoonup> delivery) \<Rightarrow> ident list \<Rightarrow> (ident \<times> bool) list \<times> (ident \<times> real \<times> real) list" where
  "splitStops snap [] = ([], [])"
| "splitStops snap (i # is) =
     (let (sk, va) = splitStops snap is
      in case stopOf snap i of Inl x \<Rightarrow> (x # sk, va) | Inr v \<Rightarrow> (sk, v # va))"

text \<open>The transaction: each identifier gets its position, counted from one.\<close>

fun numberRows :: "nat \<Rightarrow> ident list \<Rightarrow> dstate \<Rightarrow> dstate" where
  "numberRows n [] s = s"
| "numberRows n (i # is) s =
     numberRows (Suc n) is (updateRow i (\<lambda>d. d\<lparr>tourSequence := Some (Suc n)\<rparr>) s)"

definition optimizeTour :: "osrm \<Rightarrow> ident \<Rightarrow> ident list \<Rightarrow> dstate \<Rightarrow> (api_error + tour) \<times> dstate" where
  "optimizeTour osrm company ids s =
     (if length ids < 2 then (Inl TooFewStops, s)
      else (let (skipped, valid) = splitStops (snapshotOf company ids s) ids in
        if length valid < 2 then (Inl TooFewStops, s)
        else case optimizeTrip osrm (map snd valid) of
          Inl e \<Rightarrow> (Inl e, s)
        | Inr trip \<Rightarrow>
            if \<exists>k\<in>set (tr_order trip). length valid \<le> k then (Inl TripIndexOutOfRange, s)
            else (let ordered = map (\<lambda>k. fst (valid ! k)) (tr_order trip)
                  in (Inr \<lparr>to_order = zip ordered [1..<Suc (length ordered)],
                           to_distance = tr_distance trip, to_duration = tr_duration trip,
                           to_skipped = skipped\<rparr>,
                      numberRows 0 ordered s))))"

subsection \<open>The order of a tour\<close>

lemma tripOrder_perm: "mset (tripOrder ws) = mset [0..<length ws]"
  unfolding tripOrder_def mset_map mset_sort
  by (metis add_0 map_fst_enumerate mset_map)

lemma tripOrder_sorted:
  "map (\<lambda>k. ws ! k) (tripOrder ws) = sort ws"
proof -
  have snd: "\<forall>x\<in>set (sort_key snd (enumerate 0 ws)). ws ! fst x = snd x"
    by (auto simp: in_set_enumerate_eq)
  have "map (\<lambda>k. ws ! k) (tripOrder ws) = map snd (sort_key snd (enumerate 0 ws))"
    unfolding tripOrder_def map_map using snd by (auto simp: o_def cong: map_cong)
  also have "\<dots> = sort ws"
    by (rule properties_for_sort [symmetric])
      (simp_all add: mset_map [symmetric] del: mset_map, metis map_snd_enumerate mset_map mset_sort)
  finally show ?thesis .
qed

lemma splitStops_mset:
  "splitStops snap is = (sk, va) \<Longrightarrow> mset is = mset (map fst sk) + mset (map fst va)"
  by (induction "is" arbitrary: sk va)
    (auto simp: stopOf_def split: prod.splits sum.splits option.splits)

lemma splitStops_valid:
  "splitStops snap is = (sk, va) \<Longrightarrow> v \<in> set va \<Longrightarrow>
     fst v \<in> set is \<and> (\<exists>d. snap (fst v) = Some d \<and> deliveryLat d = Some (fst (snd v)) \<and> deliveryLng d = Some (snd (snd v)))"
  by (induction "is" arbitrary: sk va)
    (auto simp: stopOf_def split: prod.splits sum.splits option.splits)

lemma numberRows_frame [simp]:
  "drivers (numberRows n is s) = drivers s" "vehicles (numberRows n is s) = vehicles s"
  "outbox (numberRows n is s) = outbox s" "orderIndex (numberRows n is s) = orderIndex s"
  by (induction "is" arbitrary: n s) simp_all

lemma numberRows_other: "j \<notin> set is \<Longrightarrow> deliveries (numberRows n is s) j = deliveries s j"
  by (induction "is" arbitrary: n s) auto

lemma numberRows_at:
  "distinct is \<Longrightarrow> k < length is \<Longrightarrow>
     deliveries (numberRows n is s) (is ! k)
       = map_option (\<lambda>d. d\<lparr>tourSequence := Some (Suc (n + k))\<rparr>) (deliveries s (is ! k))"
proof (induction "is" arbitrary: n s k)
  case (Cons i "is")
  then show ?case
  proof (cases k)
    case 0
    with Cons.prems show ?thesis by (simp add: numberRows_other)
  next
    case (Suc m)
    with Cons.prems have "is ! m \<noteq> i" "m < length is" by (auto simp: in_set_conv_nth)
    with Cons.IH [of m "Suc n" "updateRow i (\<lambda>d. d\<lparr>tourSequence := Some (Suc n)\<rparr>) s"] Cons.prems Suc
    show ?thesis by simp
  qed
qed simp

lemma numberRows_rowStep:
  assumes "\<And>i. i \<in> set is \<Longrightarrow> \<exists>d. deliveries s i = Some d \<and> visible c d"
  shows "rowStep c (deliveries s j) (deliveries (numberRows n is s) j)"
  using assms
proof (induction "is" arbitrary: n s)
  case (Cons i "is")
  obtain d where d: "deliveries s i = Some d" "visible c d" using Cons.prems [of i] by auto
  let ?s = "updateRow i (\<lambda>d. d\<lparr>tourSequence := Some (Suc n)\<rparr>) s"
  have one: "rowStep c (deliveries s j) (deliveries ?s j)"
    by (rule rowStep_update [OF d]) (use d(2) in \<open>simp_all add: visible_def\<close>)
  have "rowStep c (deliveries ?s j) (deliveries (numberRows (Suc n) is ?s) j)"
  proof (rule Cons.IH)
    fix k assume "k \<in> set is"
    with Cons.prems [of k] d show "\<exists>d. deliveries ?s k = Some d \<and> visible c d"
      by (cases "k = i") (auto simp: visible_def)
  qed
  with one show ?case by (auto intro: rowStep_trans)
qed simp


lemma optimizeTour_cases:
  assumes "optimizeTour osrm c ids s = (r, s')"
  obtains (refused) e where "r = Inl e" "s' = s"
    | (accepted) skipped valid ws ordered t where
        "splitStops (snapshotOf c ids s) ids = (skipped, valid)"
        "osrm (map (\<lambda>(lat, lng). (lng, lat)) (map snd valid)) = Answer ws"
        "\<forall>k\<in>set (tripOrder (os_waypoints ws)). k < length valid"
        "ordered = map (\<lambda>k. fst (valid ! k)) (tripOrder (os_waypoints ws))"
        "r = Inr t" "to_order t = zip ordered [1..<Suc (length ordered)]" "to_skipped t = skipped"
        "s' = numberRows 0 ordered s"
proof -
  obtain skipped valid where split: "splitStops (snapshotOf c ids s) ids = (skipped, valid)" by fastforce
  consider (few) "length ids < 2 \<or> length valid < 2"
    | (no) e where "2 \<le> length ids" "2 \<le> length valid" "optimizeTrip osrm (map snd valid) = Inl e"
    | (trip) t where "2 \<le> length ids" "2 \<le> length valid" "optimizeTrip osrm (map snd valid) = Inr t"
    by (metis not_le sum.exhaust)
  then show thesis
  proof cases
    case few
    with assms split show thesis by (intro refused) (auto simp: optimizeTour_def split: if_splits)
  next
    case (no e)
    with assms split show thesis by (intro refused) (auto simp: optimizeTour_def)
  next
    case (trip t)
    then obtain ws where ws: "osrm (map (\<lambda>(lat, lng). (lng, lat)) (map snd valid)) = Answer ws"
        "tr_order t = tripOrder (os_waypoints ws)"
      by (auto simp: optimizeTrip_def split: osrm_answer.splits if_splits)
    show thesis
    proof (cases "\<exists>k\<in>set (tr_order t). length valid \<le> k")
      case True
      with assms split trip show thesis by (intro refused) (auto simp: optimizeTour_def)
    next
      case False
      then have "\<forall>k\<in>set (tripOrder (os_waypoints ws)). k < length valid" using ws(2) by auto
      moreover have "r = Inr \<lparr>to_order = zip (map (\<lambda>k. fst (valid ! k)) (tr_order t))
              [1..<Suc (length (map (\<lambda>k. fst (valid ! k)) (tr_order t)))],
            to_distance = tr_distance t, to_duration = tr_duration t, to_skipped = skipped\<rparr>"
          "s' = numberRows 0 (map (\<lambda>k. fst (valid ! k)) (tr_order t)) s"
        using assms split trip False by (simp_all add: optimizeTour_def Let_def del: upt_Suc)
      ultimately show thesis using accepted split ws by simp
    qed
  qed
qed

lemma ordered_rows:
  assumes "splitStops (snapshotOf c ids s) ids = (skipped, valid)"
    and "\<forall>k\<in>set ks. k < length valid"
    and "i \<in> set (map (\<lambda>k. fst (valid ! k)) ks)"
  shows "\<exists>d. deliveries s i = Some d \<and> visible c d \<and> i \<in> set ids
           \<and> deliveryLat d \<noteq> None \<and> deliveryLng d \<noteq> None"
proof -
  from assms(2,3) obtain k where k: "k < length valid" "i = fst (valid ! k)" by auto
  with splitStops_valid [OF assms(1), of "valid ! k"] show ?thesis
    by (auto simp: snapshotOf_Some)
qed

interpretation tour_endpoint: delivery_endpoint "\<lambda>c s. snd (optimizeTour osrm c ids s)" for osrm ids
proof unfold_locales
  fix c s j
  obtain r s' where run: "optimizeTour osrm c ids s = (r, s')" by fastforce
  show "rowStep c (deliveries s j) (deliveries (snd (optimizeTour osrm c ids s)) j)"
    using run
  proof (cases rule: optimizeTour_cases)
    case (accepted skipped valid ws ordered t)
    have "rowStep c (deliveries s j) (deliveries (numberRows 0 ordered s) j)"
      by (rule numberRows_rowStep) (use ordered_rows [OF accepted(1,3)] accepted(4) in blast)
    then show ?thesis by (simp add: run accepted(8))
  qed (simp add: run)
  show "drivers (snd (optimizeTour osrm c ids s)) = drivers s
      \<and> vehicles (snd (optimizeTour osrm c ids s)) = vehicles s"
    using run by (cases rule: optimizeTour_cases) (simp_all add: run)
qed

subsection \<open>A concrete tour\<close>

definition demoOsrm :: osrm where
  "demoOsrm cs = Answer \<lparr>os_ok = True,
     os_waypoints = (if length cs = 3 then [0, 2, 1] else [0..<length cs]), os_trips = [(10, 20)]\<rparr>"

definition tourState :: dstate where
  "tourState = (demoState InProgress)\<lparr>deliveries :=
     (\<lambda>i. if i = ''d1'' \<or> i = ''d2'' \<or> i = ''d3''
          then Some ((demoDelivery InProgress)\<lparr>deliveryLat := Some 1, deliveryLng := Some 2\<rparr>) else None)\<rparr>"

subsection \<open>Properties\<close>

text \<open>An accepted tour loses and invents no stop: when the routing engine returns one waypoint per
  coordinate, the ordered stops and the skipped ones together are exactly the identifiers of the
  request, the stops are numbered 1, 2, 3 and so on, and for distinct identifiers each row of the
  tour holds its number afterwards while every other row is untouched.\<close>

theorem tour_numbers_every_stop:
  assumes "optimizeTour osrm c ids s = (Inr t, s')" and "distinct ids"
    and "\<And>cs a. osrm cs = Answer a \<Longrightarrow> length (os_waypoints a) = length cs"
  shows "mset (map fst (to_order t)) + mset (map fst (to_skipped t)) = mset ids
       \<and> map snd (to_order t) = [1..<Suc (length (to_order t))]
       \<and> (\<forall>(i, n)\<in>set (to_order t).
            \<exists>d. deliveries s i = Some d \<and> deliveries s' i = Some (d\<lparr>tourSequence := Some n\<rparr>))
       \<and> (\<forall>i. i \<notin> fst ` set (to_order t) \<longrightarrow> deliveries s' i = deliveries s i)"
  using assms(1)
proof (cases rule: optimizeTour_cases)
  case (accepted skipped valid ws ordered u)
  have len: "length (os_waypoints ws) = length valid" using assms(3) [OF accepted(2)] by simp
  have "mset ordered = image_mset (\<lambda>k. fst (valid ! k)) (mset [0..<length valid])"
    by (simp only: accepted(4) mset_map tripOrder_perm len)
  also have "\<dots> = mset (map fst valid)"
  proof -
    have "map (\<lambda>k. fst (valid ! k)) [0..<length valid] = map fst valid"
      by (rule nth_equalityI) simp_all
    then show ?thesis by (metis mset_map)
  qed
  finally have perm: "mset ordered = mset (map fst valid)" .
  have ids: "mset ids = mset (map fst skipped) + mset (map fst valid)"
    using splitStops_mset [OF accepted(1)] .
  have ids': "mset ids = mset (map fst skipped @ ordered)" using ids perm by simp
  have "distinct ordered"
    using assms(2) mset_eq_imp_distinct_iff [OF ids'] by simp
  have t: "t = u" using accepted(5) by simp
  have fst: "map fst (to_order t) = ordered" and snd: "map snd (to_order t) = [1..<Suc (length ordered)]"
    by (simp_all add: t accepted(6) del: upt_Suc)
  have lent: "length (to_order t) = length ordered" by (simp add: t accepted(6) del: upt_Suc)
  have rows: "\<exists>d. deliveries s i = Some d \<and> deliveries s' i = Some (d\<lparr>tourSequence := Some n\<rparr>)"
    if "(i, n) \<in> set (to_order t)" for i n
  proof -
    from that obtain k where k: "k < length ordered" "i = ordered ! k" "n = Suc k"
      by (auto simp: t accepted(6) set_zip simp del: upt_Suc)
    have "i \<in> set (map (\<lambda>k. fst (valid ! k)) (tripOrder (os_waypoints ws)))"
      using k(1,2) accepted(4) by (metis nth_mem)
    then obtain d where "deliveries s i = Some d"
      using ordered_rows [OF accepted(1,3)] by blast
    with numberRows_at [OF \<open>distinct ordered\<close> k(1), of 0 s] k show ?thesis
      by (simp add: accepted(8))
  qed
  have others: "deliveries s' i = deliveries s i" if "i \<notin> fst ` set (to_order t)" for i
    using that numberRows_other [of i ordered 0 s] fst accepted(8) by (metis set_map)
  show ?thesis
  proof (intro conjI)
    show "mset (map fst (to_order t)) + mset (map fst (to_skipped t)) = mset ids"
      unfolding fst ids' mset_append by (simp add: t accepted(7) add.commute)
    show "map snd (to_order t) = [1..<Suc (length (to_order t))]" by (simp only: snd lent)
  qed (use rows others in blast)+
qed simp


lemma tour_numbers_every_stop_witness:
  "\<exists>t s'. optimizeTour demoOsrm ''acme'' [''d1'', ''d2'', ''d3''] tourState = (Inr t, s')
     \<and> map fst (to_order t) = [''d1'', ''d3'', ''d2''] \<and> to_skipped t = []
     \<and> (\<exists>d. deliveries s' ''d2'' = Some d \<and> tourSequence d = Some 3)"
proof -
  have run: "optimizeTour demoOsrm ''acme'' [''d1'', ''d2'', ''d3''] tourState
    = (Inr \<lparr>to_order = [(''d1'', 1), (''d3'', 2), (''d2'', 3)], to_distance = 10, to_duration = 20,
            to_skipped = []\<rparr>, numberRows 0 [''d1'', ''d3'', ''d2''] tourState)"
    by (simp add: optimizeTour_def stopOf_def snapshotOf_def tourState_def visible_def demoDelivery_def
        demoState_def optimizeTrip_def demoOsrm_def tripOrder_def Let_def)
  from tour_numbers_every_stop [OF this] run show ?thesis
    by (force simp: demoOsrm_def)
qed

end
