(* ===== verification/Pagination.thy ===== *)
theory Pagination
  imports DT_Prelude
begin

text \<open>
  Query parameters and pages: \<open>parseInt\<close> of JavaScript, \<open>normalizePagination\<close> of
  \<open>backend/src/common/utils/pagination.ts\<close>, and the page of a list that the services build from
  it with \<open>skip\<close> and \<open>take\<close>.
\<close>

subsection \<open>Characters and parseInt\<close>

definition isDigit :: "char \<Rightarrow> bool" where
  "isDigit ch \<longleftrightarrow> 48 \<le> (of_char ch :: nat) \<and> (of_char ch :: nat) \<le> 57"

definition isSpace :: "char \<Rightarrow> bool" where
  "isSpace ch \<longleftrightarrow> (of_char ch :: nat) \<in> {9, 10, 11, 12, 13, 32, 160}"

definition digitVal :: "char \<Rightarrow> int" where
  "digitVal ch = int (of_char ch :: nat) - 48"

definition parseInt10 :: "string \<Rightarrow> int" where
  "parseInt10 str = foldl (\<lambda>n ch. 10 * n + digitVal ch) 0 str"

text \<open>\<open>parseInt(str, 10)\<close>: leading spaces, a sign, the longest run of digits; \<open>None\<close> is NaN.\<close>

definition jsParseInt :: "string \<Rightarrow> int option" where
  "jsParseInt str =
     (let rest = dropWhile isSpace str;
          (sgn, body) = (case rest of
             [] \<Rightarrow> (1, [])
           | ch # cs \<Rightarrow> if ch = CHR ''-'' then (- 1, cs) else if ch = CHR ''+'' then (1, cs) else (1, rest));
          digits = takeWhile isDigit body
      in if digits = [] then None else Some (sgn * parseInt10 digits))"

subsection \<open>Pagination\<close>

datatype query_value = Absent | NumberValue jsnum | TextValue string

definition rawNumber :: "string \<Rightarrow> query_value \<Rightarrow> jsnum" where
  "rawNumber dflt v =
     (case v of
        NumberValue x \<Rightarrow> x
      | TextValue t \<Rightarrow> (case jsParseInt t of Some n \<Rightarrow> Fin (real_of_int n) | None \<Rightarrow> NonFinite)
      | Absent \<Rightarrow> (case jsParseInt dflt of Some n \<Rightarrow> Fin (real_of_int n) | None \<Rightarrow> NonFinite))"

definition atLeastOne :: "int \<Rightarrow> jsnum \<Rightarrow> int" where
  "atLeastOne dflt x = (case x of Fin r \<Rightarrow> if 1 \<le> r then \<lfloor>r\<rfloor> else dflt | NonFinite \<Rightarrow> dflt)"

definition normalizePagination :: "query_value \<Rightarrow> query_value \<Rightarrow> int \<Rightarrow> int \<times> int" where
  "normalizePagination page limit maxLimit =
     (let p = atLeastOne 1 (rawNumber ''1'' page);
          l = atLeastOne 20 (rawNumber ''20'' limit)
      in (p, if maxLimit < l then maxLimit else l))"

text \<open>\<open>findMany\<close> with \<open>skip: (page - 1) * limit, take: limit\<close> on the rows that match, in the
  order of the query, and \<open>Math.ceil(total / limit)\<close>.\<close>

definition pageOf :: "nat \<Rightarrow> nat \<Rightarrow> 'a list \<Rightarrow> 'a list" where
  "pageOf page limit rows = take limit (drop ((page - 1) * limit) rows)"

definition totalPages :: "nat \<Rightarrow> nat \<Rightarrow> nat" where
  "totalPages rowCount limit = nat \<lceil>real rowCount / real limit\<rceil>"

lemma atLeastOne_pos: "1 \<le> dflt \<Longrightarrow> 1 \<le> atLeastOne dflt x"
  by (cases x) (auto simp: atLeastOne_def le_floor_iff)

lemma pages_prefix:
  "concat (map (\<lambda>p. pageOf p limit rows) [1..<Suc n]) = take (n * limit) rows"
proof (induction n)
  case (Suc n)
  have "[1..<Suc (Suc n)] = [1..<Suc n] @ [Suc n]" by simp
  then have "concat (map (\<lambda>p. pageOf p limit rows) [1..<Suc (Suc n)])
      = take (n * limit) rows @ pageOf (Suc n) limit rows"
    using Suc.IH by (simp del: upt_Suc)
  also have "\<dots> = take (n * limit + limit) rows"
    by (simp add: pageOf_def take_add)
  finally show ?case by (simp add: add.commute)
qed simp

lemma totalPages_enough: "0 < limit \<Longrightarrow> rowCount \<le> totalPages rowCount limit * limit"
proof -
  assume l: "0 < limit"
  have "real rowCount / real limit \<le> of_int \<lceil>real rowCount / real limit\<rceil>" by (rule le_of_int_ceiling)
  also have "\<dots> = real (totalPages rowCount limit)"
    by (simp add: totalPages_def)
  finally have "real rowCount \<le> real (totalPages rowCount limit * limit)"
    using l by (simp add: field_simps)
  then show ?thesis by linarith
qed

text \<open>Whatever the query string holds, the page is at least 1 and the limit between 1 and the
  maximum, so the offset is never negative and the number of pages is finite.\<close>

theorem normalizePagination_bounds:
  assumes "1 \<le> maxLimit" and "normalizePagination page limit maxLimit = (p, l)"
  shows "1 \<le> p \<and> 1 \<le> l \<and> l \<le> maxLimit \<and> 0 \<le> (p - 1) * l"
proof -
  have p: "1 \<le> p" using assms(2) atLeastOne_pos by (auto simp: normalizePagination_def Let_def)
  have l: "1 \<le> l \<and> l \<le> maxLimit"
    using assms atLeastOne_pos [of 20 "rawNumber ''20'' limit"]
    by (auto simp: normalizePagination_def Let_def)
  with p show ?thesis by simp
qed

lemma normalizePagination_bounds_witness:
  "normalizePagination (TextValue ''-3'') (TextValue ''1000'') 100 = (1, 100) \<and> (0::int) \<le> (1 - 1) * 100"
proof -
  have "normalizePagination (TextValue ''-3'') (TextValue ''1000'') 100 = (1, 100)"
    by (simp add: normalizePagination_def rawNumber_def atLeastOne_def jsParseInt_def isSpace_def
        isDigit_def parseInt10_def digitVal_def)
  with normalizePagination_bounds [OF _ this] show ?thesis by simp
qed

text \<open>The pages of a list, put together, are the whole list.\<close>

lemma pages_whole:
  "0 < limit \<Longrightarrow>
     concat (map (\<lambda>p. pageOf p limit rows) [1..<Suc (totalPages (length rows) limit)]) = rows"
  unfolding pages_prefix using totalPages_enough [of limit "length rows"] by simp

end
