(* ===== verification/Delivery_Import.thy ===== *)
theory Delivery_Import
  imports Delivery_Admin Pagination
begin

text \<open>
  The import of deliveries: \<open>parseAmount\<close> of \<open>backend/src/common/utils/parse-amount.ts\<close> and
  \<open>importDeliveriesFile\<close> of the deliveries service. The rows the spreadsheet or PDF reader
  extracts are the parameter \<open>parsed\<close> (\<open>Inl ()\<close> when the reader throws), the identifiers
  the database generates are \<open>gen 0\<close>, \<open>gen 1\<close> and so on, one per row of the file.
  The lookup of an existing order goes through the unique index \<open>orderIndex\<close>;
  \<open>existingOrder_iff\<close> shows that it is the query of the code.
\<close>

subsection \<open>Amounts\<close>

text \<open>A \<^typ>\<open>string\<close> has the Latin-1 characters only, so the narrow no-break space the code also
  removes does not occur in it.\<close>

definition dropAr :: "string \<Rightarrow> string" where
  "dropAr str =
     (let n = length str in
      if 2 \<le> n \<and> str ! (n - 2) \<in> {CHR ''A'', CHR ''a''} \<and> str ! (n - 1) \<in> {CHR ''R'', CHR ''r''}
      then take (n - 2) str else str)"

definition parseAmount :: "string option \<Rightarrow> int option" where
  "parseAmount v =
     (case v of
        None \<Rightarrow> None
      | Some x \<Rightarrow>
          if x = [] then None
          else (let str = filter isDigit (dropAr (filter (\<lambda>ch. \<not> isSpace ch) x))
                in if str = [] then None else Some (parseInt10 str)))"

subsection \<open>Rows of the file\<close>

record import_row =
  ir_row :: nat
  ir_orderRef :: "string option"
  ir_lieu :: "string option"
  ir_adresse :: "string option"
  ir_telephone :: "string option"
  ir_montant :: "string option"
  ir_prix :: "string option"
  ir_produits :: "string option"
  ir_observation :: "string option"
  ir_notes :: "string option"

datatype import_mode = CreateOnly | Upsert

datatype import_error = MissingRef | MissingLieu | DbError api_error

record import_result =
  im_created :: nat
  im_updated :: nat
  im_skipped :: "(nat \<times> string) list"
  im_errors :: "(nat \<times> import_error) list"

definition truthy :: "string option \<Rightarrow> string option" where
  "truthy v = (if v = Some [] then None else v)"

definition importNotes :: "import_row \<Rightarrow> string option" where
  "importNotes r =
     truthy (Some (case (truthy (ir_notes r), truthy (ir_observation r)) of
        (Some n, Some ob) \<Rightarrow> n @ [CHR 0x0A] @ ''Observation: '' @ ob
      | (Some n, None) \<Rightarrow> n
      | (None, Some ob) \<Rightarrow> ''Observation: '' @ ob
      | (None, None) \<Rightarrow> []))"

definition existingOrder :: "ident \<Rightarrow> string \<Rightarrow> dstate \<Rightarrow> (ident \<times> delivery) option" where
  "existingOrder company ref s =
     (case orderIndex s (company, ref) of
        None \<Rightarrow> None
      | Some i \<Rightarrow> (case deliveries s i of
                   Some d \<Rightarrow> if companyId d = company \<and> externalOrderRef d = Some ref \<and> deletedAt d = None
                             then Some (i, d) else None
                 | None \<Rightarrow> None))"

definition importInfo :: "string \<Rightarrow> import_row \<Rightarrow> delivery_info \<Rightarrow> delivery_info" where
  "importInfo pickup r x = x\<lparr>
     deliveryLocationLabel := keepOr (ir_adresse r) (deliveryLocationLabel x),
     clientPhone := keepOr (ir_telephone r) (clientPhone x),
     amount := keepOr (parseAmount (ir_montant r)) (amount x),
     articlePrice := keepOr (parseAmount (ir_prix r)) (articlePrice x),
     productDescription := keepOr (ir_produits r) (productDescription x),
     description := keepOr (truthy (ir_produits r)) (description x),
     noteText := keepOr (importNotes r) (noteText x),
     pickupAddress := pickup\<rparr>"

definition importUpdate :: "string \<Rightarrow> string \<Rightarrow> import_row \<Rightarrow> delivery \<Rightarrow> delivery" where
  "importUpdate pickup lieu r d =
     (let d1 = d\<lparr>deliveryAddress := lieu, info := importInfo pickup r (info d)\<rparr>
      in if status d = Pending \<or> status d = Assigned then d1\<lparr>status := InProgress\<rparr> else d1)"

definition emptyInfo :: delivery_info where
  "emptyInfo = \<lparr>description = None, pickupAddress = [], pickupPoint = (None, None),
     pickupLocationLabel = None, deliveryLocationLabel = None, scheduledDate = None,
     noteText = None, clientPhone = None, amount = None, articlePrice = None,
     productDescription = None\<rparr>"

definition importCreate :: "ident \<Rightarrow> string \<Rightarrow> string \<Rightarrow> string \<Rightarrow> import_row \<Rightarrow> delivery" where
  "importCreate company pickup ref lieu r =
     \<lparr>companyId = company, title = ref, status = InProgress, deliveryAddress = lieu,
      deliveryLat = None, deliveryLng = None, vehicleId = None, driverId = None,
      assignedDriverId = None, clientId = None, completedAt = None, proofLat = None,
      proofLng = None, proofDistance = None, proofAccuracy = None, locationMismatch = False,
      mismatchResolved = False, externalOrderRef = Some ref, tourSequence = None,
      deletedAt = None, info = importInfo pickup r emptyInfo\<rparr>"

definition importRow ::
    "ident \<Rightarrow> import_mode \<Rightarrow> string \<Rightarrow> ident \<Rightarrow> import_row \<Rightarrow> import_result \<times> dstate
       \<Rightarrow> import_result \<times> dstate" where
  "importRow company mode pickup newId r st =
     (case st of (res, s) \<Rightarrow>
        (case truthy (ir_orderRef r) of
           None \<Rightarrow> (res\<lparr>im_errors := im_errors res @ [(ir_row r, MissingRef)]\<rparr>, s)
         | Some ref \<Rightarrow>
        (case truthy (ir_lieu r) of
           None \<Rightarrow> (res\<lparr>im_errors := im_errors res @ [(ir_row r, MissingLieu)]\<rparr>, s)
         | Some lieu \<Rightarrow>
        (case existingOrder company ref s of
           Some (i, d) \<Rightarrow>
             (case mode of
                CreateOnly \<Rightarrow> (res\<lparr>im_skipped := im_skipped res @ [(ir_row r, ref)]\<rparr>, s)
              | Upsert \<Rightarrow> (res\<lparr>im_updated := im_updated res + 1\<rparr>,
                            setRow i (importUpdate pickup lieu r d) s))
         | None \<Rightarrow>
             (case insertDelivery newId (importCreate company pickup ref lieu r) s of
                Inr s1 \<Rightarrow> (res\<lparr>im_created := im_created res + 1\<rparr>, s1)
              | Inl e \<Rightarrow>
                  if e = UniqueViolation
                  then (res\<lparr>im_skipped := im_skipped res @ [(ir_row r, ref)]\<rparr>, s)
                  else (res\<lparr>im_errors := im_errors res @ [(ir_row r, DbError e)]\<rparr>, s))))))"

fun importRows ::
    "ident \<Rightarrow> import_mode \<Rightarrow> string \<Rightarrow> (nat \<Rightarrow> ident) \<Rightarrow> nat \<Rightarrow> import_row list \<Rightarrow> import_result \<times> dstate
       \<Rightarrow> import_result \<times> dstate" where
  "importRows company mode pickup gen n [] st = st"
| "importRows company mode pickup gen n (r # rs) st =
     importRows company mode pickup gen (Suc n) rs (importRow company mode pickup (gen n) r st)"

definition noResult :: import_result where
  "noResult = \<lparr>im_created = 0, im_updated = 0, im_skipped = [], im_errors = []\<rparr>"

definition importDeliveriesFile ::
    "ident \<Rightarrow> import_mode \<Rightarrow> string \<Rightarrow> (nat \<Rightarrow> ident) \<Rightarrow> unit + import_row list \<Rightarrow> dstate
       \<Rightarrow> (api_error + import_result) \<times> dstate" where
  "importDeliveriesFile company mode pickup gen parsed s =
     (case parsed of
        Inl _ \<Rightarrow> (Inl UnreadableImport, s)
      | Inr rows \<Rightarrow>
          if rows = [] then (Inl EmptyImport, s)
          else (let (res, s1) = importRows company mode pickup gen 0 rows (noResult, s)
                in (Inr res, s1)))"

subsection \<open>The unique index\<close>

definition indexed :: "dstate \<Rightarrow> bool" where
  "indexed s \<longleftrightarrow> (\<forall>c ref i. orderIndex s (c, ref) = Some i
     \<longleftrightarrow> (\<exists>d. deliveries s i = Some d \<and> companyId d = c \<and> externalOrderRef d = Some ref))"

lemma existingOrder_iff:
  "indexed s \<Longrightarrow> existingOrder c ref s = Some (i, d)
     \<longleftrightarrow> deliveries s i = Some d \<and> companyId d = c \<and> externalOrderRef d = Some ref \<and> deletedAt d = None"
proof -
  assume ix: "indexed s"
  have "existingOrder c ref s = Some (i, d)
      \<longleftrightarrow> orderIndex s (c, ref) = Some i \<and> deliveries s i = Some d
          \<and> companyId d = c \<and> externalOrderRef d = Some ref \<and> deletedAt d = None"
    by (auto simp: existingOrder_def split: option.splits if_splits)
  moreover from ix have "orderIndex s (c, ref) = Some i
      \<longleftrightarrow> (\<exists>d. deliveries s i = Some d \<and> companyId d = c \<and> externalOrderRef d = Some ref)"
    unfolding indexed_def by blast
  ultimately show ?thesis by auto
qed

lemma importUpdate_keys [simp]:
  "companyId (importUpdate p l r d) = companyId d" "deletedAt (importUpdate p l r d) = deletedAt d"
  "externalOrderRef (importUpdate p l r d) = externalOrderRef d"
  "progresses (status d) (status (importUpdate p l r d))"
  by (auto simp: importUpdate_def Let_def progresses_def)

lemma importCreate_keys [simp]:
  "companyId (importCreate c p ref l r) = c" "externalOrderRef (importCreate c p ref l r) = Some ref"
  "deletedAt (importCreate c p ref l r) = None" "status (importCreate c p ref l r) = InProgress"
  "vehicleId (importCreate c p ref l r) = None" "driverId (importCreate c p ref l r) = None"
  by (simp_all add: importCreate_def)

lemma importRow_cases:
  assumes "importRow c mode p newId r (res, s) = (res', s')"
  obtains (missing) e where "s' = s" "res' = res\<lparr>im_errors := im_errors res @ [(ir_row r, e)]\<rparr>"
      "truthy (ir_orderRef r) = None \<or> truthy (ir_lieu r) = None"
    | (skipped) ref where "s' = s" "res' = res\<lparr>im_skipped := im_skipped res @ [(ir_row r, ref)]\<rparr>"
        "truthy (ir_orderRef r) = Some ref" "orderIndex s (c, ref) \<noteq> None \<or> deliveries s newId \<noteq> None"
    | (updated) i d ref lieu where "mode = Upsert" "existingOrder c ref s = Some (i, d)"
        "s' = setRow i (importUpdate p lieu r d) s" "res' = res\<lparr>im_updated := im_updated res + 1\<rparr>"
    | (created) ref lieu where "orderIndex s (c, ref) = None" "deliveries s newId = None"
        "s' = (setRow newId (importCreate c p ref lieu r) s)\<lparr>orderIndex := (orderIndex s)((c, ref) \<mapsto> newId)\<rparr>"
        "res' = res\<lparr>im_created := im_created res + 1\<rparr>"
        "truthy (ir_orderRef r) = Some ref" "truthy (ir_lieu r) = Some lieu"
proof -
  consider (mref) "truthy (ir_orderRef r) = None"
    | (mlieu) ref where "truthy (ir_orderRef r) = Some ref" "truthy (ir_lieu r) = None"
    | (full) ref lieu where "truthy (ir_orderRef r) = Some ref" "truthy (ir_lieu r) = Some lieu"
    by fastforce
  then show thesis
  proof cases
    case mref
    with assms show thesis by (intro missing) (auto simp: importRow_def)
  next
    case mlieu
    with assms show thesis by (intro missing) (auto simp: importRow_def)
  next
    case (full ref lieu)
    show thesis
    proof (cases "existingOrder c ref s")
      case (Some x)
      obtain i d where x: "existingOrder c ref s = Some (i, d)" using Some by (cases x) auto
      then have "orderIndex s (c, ref) \<noteq> None" by (auto simp: existingOrder_def split: option.splits)
      with x full assms show thesis
        by (cases mode) (auto simp: importRow_def intro: skipped updated)
    next
      case None
      with full assms show thesis
        by (auto simp: importRow_def insertDelivery_def split: if_splits option.splits
            intro: skipped created)
    qed
  qed
qed


lemma importRows_induct_step:
  "importRows c m p gen n (r # rs) st = importRows c m p gen (Suc n) rs (importRow c m p (gen n) r st)"
  by simp

definition rowsDone :: "import_result \<Rightarrow> nat" where
  "rowsDone res = im_created res + im_updated res + length (im_skipped res) + length (im_errors res)"

lemma importRow_done:
  "importRow c m p newId r (res, s) = (res', s') \<Longrightarrow> rowsDone res' = Suc (rowsDone res)"
  by (erule importRow_cases) (simp_all add: rowsDone_def)

lemma importRows_done:
  "importRows c m p gen n rs (res, s) = (res', s') \<Longrightarrow> rowsDone res' = rowsDone res + length rs"
proof (induction rs arbitrary: n res s)
  case (Cons r rs)
  obtain res1 s1 where "importRow c m p (gen n) r (res, s) = (res1, s1)" by fastforce
  with Cons importRow_done [OF this] show ?case by simp
qed simp

text \<open>What one row of a file does to the table, for the contract and for the index.\<close>

lemma existingOrder_row:
  "existingOrder c ref s = Some (i, d) \<Longrightarrow>
     deliveries s i = Some d \<and> companyId d = c \<and> externalOrderRef d = Some ref \<and> deletedAt d = None"
  by (auto simp: existingOrder_def split: option.splits if_splits)

lemma importRow_rowStep:
  assumes "importRow c m p newId r (res, s) = (res', s')"
  shows "rowStep c (deliveries s j) (deliveries s' j)" "drivers s' = drivers s \<and> vehicles s' = vehicles s"
proof -
  have "rowStep c (deliveries s j) (deliveries s' j) \<and> drivers s' = drivers s \<and> vehicles s' = vehicles s"
    using assms
  proof (cases rule: importRow_cases)
    case (updated i d ref lieu)
    with existingOrder_row [OF updated(2)] show ?thesis by (cases "j = i") simp_all
  next
    case (created ref lieu)
    then show ?thesis by (cases "j = newId") simp_all
  qed simp_all
  then show "rowStep c (deliveries s j) (deliveries s' j)"
    "drivers s' = drivers s \<and> vehicles s' = vehicles s" by simp_all
qed

lemma importRow_indexed:
  assumes "importRow c m p newId r (res, s) = (res', s')" and "indexed s"
  shows "indexed s'"
  using assms(1)
proof (cases rule: importRow_cases)
  case (updated i d ref lieu)
  with assms(2) existingOrder_row [OF updated(2)] show ?thesis by (auto simp: indexed_def)
next
  case (created ref lieu)
  have "\<not> (deliveries s i = Some d \<and> companyId d = c \<and> externalOrderRef d = Some ref)" for i d
    using assms(2) created(1) unfolding indexed_def by (metis option.distinct(1))
  with assms(2) created(2,3) show ?thesis unfolding indexed_def by auto
qed (use assms(2) in simp_all)

lemma importRows_rowStep:
  assumes "importRows c m p gen n rs (res, s) = (res', s')"
  shows "rowStep c (deliveries s j) (deliveries s' j) \<and> drivers s' = drivers s
      \<and> vehicles s' = vehicles s \<and> (indexed s \<longrightarrow> indexed s')"
  using assms
proof (induction rs arbitrary: n res s)
  case (Cons r rs)
  obtain res1 s1 where one: "importRow c m p (gen n) r (res, s) = (res1, s1)" by fastforce
  have "importRows c m p gen (Suc n) rs (res1, s1) = (res', s')" using Cons.prems(1) one by simp
  from Cons.IH [OF this] importRow_rowStep [OF one] importRow_indexed [OF one] show ?case
    by (auto intro: rowStep_trans)
qed simp

interpretation import_endpoint: delivery_endpoint
  "\<lambda>c s. snd (importDeliveriesFile c mode pickup gen parsed s)" for mode pickup gen parsed
proof unfold_locales
  fix c s j
  have "rowStep c (deliveries s j) (deliveries (snd (importRows c mode pickup gen 0 rows (noResult, s))) j)
      \<and> drivers (snd (importRows c mode pickup gen 0 rows (noResult, s))) = drivers s
      \<and> vehicles (snd (importRows c mode pickup gen 0 rows (noResult, s))) = vehicles s" for rows
    using importRows_rowStep by (metis prod.collapse)
  then show "rowStep c (deliveries s j) (deliveries (snd (importDeliveriesFile c mode pickup gen parsed s)) j)"
    and "drivers (snd (importDeliveriesFile c mode pickup gen parsed s)) = drivers s
      \<and> vehicles (snd (importDeliveriesFile c mode pickup gen parsed s)) = vehicles s"
    by (simp_all add: importDeliveriesFile_def case_prod_beta Let_def split: sum.split)
qed


subsection \<open>Importing twice\<close>

definition covered :: "ident \<Rightarrow> import_row \<Rightarrow> dstate \<Rightarrow> bool" where
  "covered c r s \<longleftrightarrow> truthy (ir_orderRef r) = None \<or> truthy (ir_lieu r) = None
     \<or> (\<exists>ref. truthy (ir_orderRef r) = Some ref \<and> orderIndex s (c, ref) \<noteq> None)"

lemma importRow_covers:
  assumes "importRow c CreateOnly p newId r (res, s) = (res', s')" and "deliveries s newId = None"
  shows "covered c r s'" "covered c q s \<Longrightarrow> covered c q s'"
    "j \<noteq> newId \<Longrightarrow> deliveries s' j = deliveries s j"
proof -
  have "covered c r s' \<and> (covered c q s \<longrightarrow> covered c q s')
      \<and> (j \<noteq> newId \<longrightarrow> deliveries s' j = deliveries s j)"
    using assms(1)
  proof (cases rule: importRow_cases)
    case (skipped ref)
    with assms(2) show ?thesis by (auto simp: covered_def)
  next
    case (created ref lieu)
    then show ?thesis by (auto simp: covered_def)
  qed (auto simp: covered_def)
  then show "covered c r s'" "covered c q s \<Longrightarrow> covered c q s'"
    "j \<noteq> newId \<Longrightarrow> deliveries s' j = deliveries s j" by blast+
qed

lemma importRows_covers:
  assumes "importRows c CreateOnly p gen n rs (res, s) = (res', s')"
    and "\<forall>k. n \<le> k \<and> k < n + length rs \<longrightarrow> deliveries s (gen k) = None"
    and "inj_on gen {n..<n + length rs}"
  shows "(\<forall>r\<in>set rs. covered c r s') \<and> (\<forall>q. covered c q s \<longrightarrow> covered c q s')"
  using assms
proof (induction rs arbitrary: n res s)
  case (Cons r rs)
  obtain res1 s1 where one: "importRow c CreateOnly p (gen n) r (res, s) = (res1, s1)" by fastforce
  have fresh: "deliveries s (gen n) = None" using Cons.prems(2) by simp
  note st = importRow_covers [OF one fresh]
  have "deliveries s1 (gen k) = None" if "Suc n \<le> k \<and> k < Suc n + length rs" for k
  proof -
    have "gen k \<noteq> gen n"
    proof
      assume "gen k = gen n"
      from inj_onD [OF Cons.prems(3) this] that show False by simp
    qed
    with st(3) [of "gen k"] that Cons.prems(2) show ?thesis by auto
  qed
  moreover have "inj_on gen {Suc n..<Suc n + length rs}"
    using Cons.prems(3) by (rule inj_on_subset) auto
  ultimately have "(\<forall>r\<in>set rs. covered c r s') \<and> (\<forall>q. covered c q s1 \<longrightarrow> covered c q s')"
    using Cons.IH [of "Suc n" res1 s1] Cons.prems(1) one by simp
  with st(1,2) show ?case by auto
qed simp

lemma importRow_again:
  assumes "covered c r s" and "importRow c CreateOnly p newId r (res, s) = (res', s')"
  shows "s' = s" "im_created res' = im_created res" "im_updated res' = im_updated res"
proof -
  have "s' = s \<and> im_created res' = im_created res \<and> im_updated res' = im_updated res"
    using assms(2)
  proof (cases rule: importRow_cases)
    case (created ref lieu)
    with assms(1) show ?thesis by (auto simp: covered_def)
  qed auto
  then show "s' = s" "im_created res' = im_created res" "im_updated res' = im_updated res" by simp_all
qed

lemma importRows_again:
  assumes "\<forall>r\<in>set rs. covered c r s" and "importRows c CreateOnly p gen n rs (res, s) = (res', s')"
  shows "s' = s \<and> im_created res' = im_created res \<and> im_updated res' = im_updated res"
  using assms
proof (induction rs arbitrary: n res)
  case (Cons r rs)
  obtain res1 s1 where one: "importRow c CreateOnly p (gen n) r (res, s) = (res1, s1)" by fastforce
  have "covered c r s" using Cons.prems(1) by simp
  from importRow_again [OF this one] Cons.IH [of "Suc n" res1] Cons.prems one show ?case by simp
qed simp


subsection \<open>Amounts\<close>

lemma digit_not_space: "isDigit ch \<Longrightarrow> \<not> isSpace ch"
  by (auto simp: isDigit_def isSpace_def)

lemma dropAr_digits: "filter isDigit (dropAr str) = filter isDigit str"
proof (cases "dropAr str = str")
  case False
  let ?n = "length str"
  from False have n: "2 \<le> ?n" and a: "str ! (?n - 2) \<in> {CHR ''A'', CHR ''a''}"
    and r: "str ! (?n - 1) \<in> {CHR ''R'', CHR ''r''}" and take: "dropAr str = take (?n - 2) str"
    by (auto simp: dropAr_def Let_def split: if_splits)
  have "drop (?n - 2) str = [str ! (?n - 2), str ! (?n - 1)]"
    by (rule nth_equalityI) (use n in \<open>auto simp: less_Suc_eq_0_disj numeral_2_eq_2 Suc_diff_Suc\<close>)
  moreover have "\<not> isDigit (str ! (?n - 2))" "\<not> isDigit (str ! (?n - 1))"
    using a r by (auto simp: isDigit_def)
  ultimately have "filter isDigit (drop (?n - 2) str) = []" by simp
  then show ?thesis
    by (metis append_Nil2 append_take_drop_id filter_append take)
qed simp

subsection \<open>A concrete file\<close>

definition demoRow :: "string \<Rightarrow> import_row" where
  "demoRow ref = \<lparr>ir_row = 2, ir_orderRef = Some ref, ir_lieu = Some ''L'', ir_adresse = None,
     ir_telephone = None, ir_montant = Some ''1 250 Ar'', ir_prix = None, ir_produits = None,
     ir_observation = None, ir_notes = None\<rparr>"

definition demoIds :: "nat \<Rightarrow> ident" where
  "demoIds n = replicate (n + 3) CHR ''x''"

subsection \<open>Properties\<close>

text \<open>Every row of an imported file is accounted for exactly once: the created, updated, skipped
  and rejected rows add up to the rows of the file.\<close>

theorem import_accounts_for_every_row:
  assumes "importDeliveriesFile c mode pickup gen (Inr rows) s = (Inr res, s')"
  shows "im_created res + im_updated res + length (im_skipped res) + length (im_errors res) = length rows
       \<and> rows \<noteq> []"
proof -
  from assms have "rows \<noteq> []" "importRows c mode pickup gen 0 rows (noResult, s) = (res, s')"
    by (auto simp: importDeliveriesFile_def split: if_splits prod.splits)
  with importRows_done [OF this(2)] show ?thesis
    by (simp add: rowsDone_def noResult_def)
qed

lemma import_accounts_for_every_row_witness:
  "\<exists>res s1. importDeliveriesFile ''acme'' CreateOnly ''depot'' demoIds
        (Inr [demoRow ''O1'', demoRow ''O1'']) (demoState Pending) = (Inr res, s1)
     \<and> im_created res + im_updated res + length (im_skipped res) + length (im_errors res) = 2"
proof -
  obtain res s1 where "importRows ''acme'' CreateOnly ''depot'' demoIds 0
      [demoRow ''O1'', demoRow ''O1''] (noResult, demoState Pending) = (res, s1)"
    by fastforce
  then have run: "importDeliveriesFile ''acme'' CreateOnly ''depot'' demoIds
      (Inr [demoRow ''O1'', demoRow ''O1'']) (demoState Pending) = (Inr res, s1)"
    by (simp only: importDeliveriesFile_def) simp
  from import_accounts_for_every_row [OF run] run show ?thesis by (intro exI conjI) (simp_all add: numeral_2_eq_2)
qed

text \<open>Importing a file a second time in create-only mode changes nothing: whatever was created,
  skipped or rejected the first time, the second run creates and updates no delivery and leaves the
  whole state as it was, provided the identifiers generated for the first run were fresh.\<close>

theorem reimport_changes_nothing:
  assumes "importDeliveriesFile c CreateOnly pickup gen (Inr rows) s = (Inr res, s1)"
    and "\<forall>k<length rows. deliveries s (gen k) = None" and "inj_on gen {0..<length rows}"
  shows "\<exists>res2. importDeliveriesFile c CreateOnly pickup2 gen2 (Inr rows) s1 = (Inr res2, s1)
       \<and> im_created res2 = 0 \<and> im_updated res2 = 0"
proof -
  from assms(1) have rows: "rows \<noteq> []" "importRows c CreateOnly pickup gen 0 rows (noResult, s) = (res, s1)"
    by (auto simp: importDeliveriesFile_def split: if_splits prod.splits)
  have cov: "\<forall>r\<in>set rows. covered c r s1"
    using importRows_covers [OF rows(2)] assms(2,3) by simp
  obtain res2 s2 where two: "importRows c CreateOnly pickup2 gen2 0 rows (noResult, s1) = (res2, s2)"
    by fastforce
  from importRows_again [OF cov two] two rows(1) show ?thesis
    by (simp add: importDeliveriesFile_def noResult_def)
qed

lemma reimport_changes_nothing_witness:
  "\<exists>res s1 res2. importDeliveriesFile ''acme'' CreateOnly ''depot'' demoIds (Inr [demoRow ''O1'', demoRow ''O1''])
        (demoState Pending) = (Inr res, s1)
     \<and> importDeliveriesFile ''acme'' CreateOnly ''depot'' demoIds (Inr [demoRow ''O1'', demoRow ''O1'']) s1
        = (Inr res2, s1) \<and> im_created res2 = 0"
proof -
  obtain res s1 where "importRows ''acme'' CreateOnly ''depot'' demoIds 0
      [demoRow ''O1'', demoRow ''O1''] (noResult, demoState Pending) = (res, s1)"
    by fastforce
  then have run: "importDeliveriesFile ''acme'' CreateOnly ''depot'' demoIds
      (Inr [demoRow ''O1'', demoRow ''O1'']) (demoState Pending) = (Inr res, s1)"
    by (simp only: importDeliveriesFile_def) simp
  have "\<forall>k<length [demoRow ''O1'', demoRow ''O1'']. deliveries (demoState Pending) (demoIds k) = None"
    by (auto simp: demoIds_def demoState_def numeral_3_eq_3)
  moreover have "inj_on demoIds {0..<length [demoRow ''O1'', demoRow ''O1'']}"
    by (auto simp: inj_on_def demoIds_def dest: arg_cong [where f = length])
  ultimately show ?thesis
    using reimport_changes_nothing [OF run, of "''depot''" demoIds] run by blast
qed

text \<open>An order that was deleted cannot be imported again: the lookup ignores the deleted row but
  the unique index does not, so the row is reported as a duplicate and nothing is created, in either
  mode.\<close>

theorem deleted_order_is_never_reimported:
  assumes "indexed s" and "deliveries s i = Some d" and "companyId d = c"
    and "externalOrderRef d = Some ref" and "deletedAt d \<noteq> None"
    and "truthy (ir_orderRef r) = Some ref" and "truthy (ir_lieu r) = Some lieu"
  shows "importRow c mode pickup newId r (res, s)
           = (res\<lparr>im_skipped := im_skipped res @ [(ir_row r, ref)]\<rparr>, s)"
proof -
  have "orderIndex s (c, ref) = Some i" using assms(1-4) by (auto simp: indexed_def)
  with assms(2,5) have "existingOrder c ref s = None"
    "insertDelivery newId (importCreate c pickup ref lieu r) s = Inl UniqueViolation"
    by (auto simp: existingOrder_def insertDelivery_def)
  with assms(6,7) show ?thesis by (simp add: importRow_def)
qed

lemma deleted_order_is_never_reimported_witness:
  "\<exists>s. importRow ''acme'' Upsert ''depot'' ''x'' (demoRow ''O1'') (noResult, s)
        = (noResult\<lparr>im_skipped := [(2, ''O1'')]\<rparr>, s)"
proof -
  let ?d = "(demoDelivery Pending)\<lparr>externalOrderRef := Some ''O1'', deletedAt := Some 0\<rparr>"
  let ?s = "(demoState Pending)\<lparr>deliveries := [''d1'' \<mapsto> ?d], orderIndex := [(''acme'', ''O1'') \<mapsto> ''d1'']\<rparr>"
  have "indexed ?s" by (auto simp: indexed_def demoDelivery_def)
  from deleted_order_is_never_reimported [OF this, of "''d1''" ?d "''acme''" "''O1''" "demoRow ''O1''" "''L''"]
  show ?thesis
    by (intro exI [of _ ?s]) (simp add: demoRow_def truthy_def noResult_def demoDelivery_def)
qed

text \<open>The amount of a cell is the number its decimal digits spell, whatever separators, spaces or
  currency mark surround them; a cell without a digit has no amount.\<close>

theorem parseAmount_reads_the_digits:
  "parseAmount (Some str)
     = (if filter isDigit str = [] then None else Some (parseInt10 (filter isDigit str)))"
proof -
  have "filter isDigit (filter (\<lambda>ch. \<not> isSpace ch) str) = filter isDigit str"
    using digit_not_space by (induction str) auto
  then show ?thesis by (simp add: parseAmount_def dropAr_digits Let_def)
qed

text \<open>In particular a decimal separator is dropped: the cell 12.50 is read as 1250.\<close>

lemma decimal_amount_is_scaled: "parseAmount (Some ''12.50'') = Some 1250"
  by code_simp

end
