(* ===== verification/Delivery_Api.thy ===== *)
theory Delivery_Api
  imports Delivery_Tour Delivery_Import
begin

text \<open>
  \<open>backend/src/modules/deliveries/deliveries.controller.ts\<close>: the roles each route requires
  (\<open>RolesGuard\<close> of \<open>backend/src/common/guards/roles.guard.ts\<close>), the state-changing routes put
  together as one function on requests, and the paged reads of the service. The identifier of the
  caller's company comes from the verified token. The properties here are those of arbitrary
  sequences of requests by arbitrary companies; they follow from the endpoint contract of
  \<open>Delivery_Data\<close>, which every route has been shown to keep.
\<close>

record environment =
  ev_config :: proof_config
  ev_geocode :: geocoder
  ev_osrm :: osrm

record caller =
  cl_user :: ident
  cl_role :: role

datatype request =
  ReqCreate create_dto ident
| ReqDriverStatus ident status_dto
| ReqStatus ident status_dto
| ReqUpdate ident update_dto
| ReqResolve ident
| ReqRemove ident
| ReqBulk "ident list" bulk_action
| ReqTour "ident list"
| ReqImport import_mode string "nat \<Rightarrow> ident" "unit + import_row list"

fun rolesFor :: "request \<Rightarrow> role list" where
  "rolesFor (ReqDriverStatus i dto) = [DriverRole]"
| "rolesFor (ReqRemove i) = [Admin]"
| "rolesFor _ = [Admin, Dispatcher]"

text \<open>\<open>RolesGuard.canActivate\<close>: no required role lets everyone in.\<close>

definition canActivate :: "role list \<Rightarrow> role option \<Rightarrow> bool" where
  "canActivate required rl \<longleftrightarrow> required = [] \<or> (case rl of Some x \<Rightarrow> x \<in> set required | None \<Rightarrow> False)"

fun dispatch :: "environment \<Rightarrow> ident \<Rightarrow> request \<Rightarrow> ident \<Rightarrow> dstate \<Rightarrow> dstate" where
  "dispatch ev user (ReqCreate dto i) c s = snd (create (ev_geocode ev) c dto i s)"
| "dispatch ev user (ReqDriverStatus i dto) c s =
     snd (updateDriverStatus (ev_config ev) (ev_geocode ev) c i user dto s)"
| "dispatch ev user (ReqStatus i dto) c s = snd (updateStatus (ev_config ev) (ev_geocode ev) c i dto s)"
| "dispatch ev user (ReqUpdate i dto) c s = snd (updateDelivery (ev_geocode ev) c i dto s)"
| "dispatch ev user (ReqResolve i) c s = snd (resolveMismatch c i s)"
| "dispatch ev user (ReqRemove i) c s = snd (remove c i s)"
| "dispatch ev user (ReqBulk ids a) c s = snd (bulkAction c ids a s)"
| "dispatch ev user (ReqTour ids) c s = snd (optimizeTour (ev_osrm ev) c ids s)"
| "dispatch ev user (ReqImport mode pickup gen parsed) c s =
     snd (importDeliveriesFile c mode pickup gen parsed s)"

definition handle :: "environment \<Rightarrow> caller \<times> request \<Rightarrow> ident \<Rightarrow> dstate \<Rightarrow> dstate" where
  "handle ev q c s =
     (if canActivate (rolesFor (snd q)) (Some (cl_role (fst q)))
      then dispatch ev (cl_user (fst q)) (snd q) c s else s)"

lemma dispatch_endpoint: "delivery_endpoint (dispatch ev user q)"
  using create_endpoint.delivery_endpoint_axioms driver_status.delivery_endpoint_axioms
    dispatcher_status.delivery_endpoint_axioms update_endpoint.delivery_endpoint_axioms
    resolve_endpoint.delivery_endpoint_axioms remove_endpoint.delivery_endpoint_axioms
    bulk_endpoint.delivery_endpoint_axioms tour_endpoint.delivery_endpoint_axioms
    import_endpoint.delivery_endpoint_axioms
  by (cases q) (simp_all add: delivery_endpoint_def)

lemma handle_endpoint: "delivery_endpoint (handle ev q)"
  using dispatch_endpoint [of ev "cl_user (fst q)" "snd q"]
  by (simp add: delivery_endpoint_def handle_def)

interpretation api: delivery_requests "handle ev" for ev
  by (rule delivery_requests.intro) (rule handle_endpoint)

subsection \<open>Paged reads\<close>

text \<open>The argument \<open>rows\<close> is the table in the order the query asks for.\<close>

definition pagedRead :: "(delivery \<Rightarrow> bool) \<Rightarrow> nat \<Rightarrow> nat \<Rightarrow> delivery list \<Rightarrow> delivery list \<times> nat \<times> nat" where
  "pagedRead wh page limit rows =
     (let hits = filter wh rows
      in (pageOf page limit hits, length hits, totalPages (length hits) limit))"

definition findAll ::
    "ident \<Rightarrow> nat \<Rightarrow> nat \<Rightarrow> delivery_status option \<Rightarrow> delivery list \<Rightarrow> delivery list \<times> nat \<times> nat" where
  "findAll company page limit st rows =
     pagedRead (\<lambda>d. visible company d \<and> (case st of Some x \<Rightarrow> status d = x | None \<Rightarrow> True)) page limit rows"

definition findMyOrders ::
    "ident \<Rightarrow> ident \<Rightarrow> nat \<Rightarrow> nat \<Rightarrow> delivery list \<Rightarrow> delivery list \<times> nat \<times> nat" where
  "findMyOrders client company page limit rows =
     pagedRead (\<lambda>d. clientId d = Some client \<and> visible company d) page limit rows"

definition findMyDeliveries ::
    "ident \<Rightarrow> ident \<Rightarrow> nat \<Rightarrow> nat \<Rightarrow> delivery list \<Rightarrow> delivery list \<times> nat \<times> nat" where
  "findMyDeliveries user company page limit rows =
     pagedRead (\<lambda>d. assignedDriverId d = Some user \<and> visible company d) page limit rows"

definition findProofs ::
    "ident \<Rightarrow> nat \<Rightarrow> nat \<Rightarrow> delivery_status option \<Rightarrow> delivery list \<Rightarrow> delivery list \<times> nat \<times> nat" where
  "findProofs company page limit st rows =
     pagedRead (\<lambda>d. visible company d
        \<and> (if st = Some Delivered \<or> st = Some Failed then Some (status d) = st
           else status d = Delivered \<or> status d = Failed)) page limit rows"

lemma pagedRead_cover:
  "0 < limit \<Longrightarrow>
     concat (map (\<lambda>p. fst (pagedRead wh p limit rows)) [1..<Suc (snd (snd (pagedRead wh q limit rows)))])
       = filter wh rows"
  using pages_whole by (simp add: pagedRead_def Let_def del: upt_Suc)

definition demoEnvironment :: environment where
  "demoEnvironment = \<lparr>ev_config = demoConfig, ev_geocode = noGeocoder, ev_osrm = demoOsrm\<rparr>"

subsection \<open>Properties\<close>

text \<open>C1. Tenants are isolated: whatever requests other companies send, in any number and order, a
  company's deliveries stay exactly as they are.\<close>

theorem tenants_are_isolated:
  assumes "deliveries s i = Some d" and "companyId d \<notin> fst ` set qs"
  shows "deliveries (runAll (handle ev) qs s) i = Some d"
  using assms by (rule api.runAll_other)

lemma tenants_are_isolated_witness:
  "deliveries (runAll (handle demoEnvironment) [(''evil'', \<lparr>cl_user = ''x'', cl_role = Admin\<rparr>, ReqRemove ''d1'')]
     (demoState Pending)) ''d1'' = Some (demoDelivery Pending)"
  by (rule tenants_are_isolated) (simp_all, simp add: demoDelivery_def)

text \<open>C2. The life of a delivery only moves forward: over any sequence of requests a delivery keeps
  its company and order reference and its status never returns to an earlier stage; once delivered,
  failed or cancelled it stays so, and once deleted it does not change at all.\<close>

theorem lifecycle_only_moves_forward:
  assumes "deliveries s i = Some d"
  shows "\<exists>d'. deliveries (runAll (handle ev) qs s) i = Some d'
       \<and> companyId d' = companyId d \<and> externalOrderRef d' = externalOrderRef d
       \<and> stage (status d) \<le> stage (status d')
       \<and> (terminal (status d) \<longrightarrow> status d' = status d)
       \<and> (deletedAt d \<noteq> None \<longrightarrow> d' = d)"
  using api.runAll_forward [OF assms, of ev qs] api.runAll_terminal [OF assms, of ev qs]
    api.runAll_deleted [OF assms, of ev qs]
  by (auto simp: progresses_def)

lemma lifecycle_only_moves_forward_witness:
  "\<exists>d'. deliveries (runAll (handle demoEnvironment) [(''acme'', \<lparr>cl_user = ''x'', cl_role = Admin\<rparr>,
         ReqBulk [''d1''] (BulkStatus (Some InProgress)))] (demoState Delivered)) ''d1'' = Some d'
     \<and> status d' = Delivered"
  using lifecycle_only_moves_forward [of "demoState Delivered" "''d1''" "demoDelivery Delivered" demoEnvironment
      "[(''acme'', \<lparr>cl_user = ''x'', cl_role = Admin\<rparr>, ReqBulk [''d1''] (BulkStatus (Some InProgress)))]"]
  by auto

text \<open>C19. Roles bound what a caller can change: a client's request changes nothing, and a driver's
  request changes no delivery but one of the company that is assigned to that very driver, and only
  along the driver's three transitions.\<close>

theorem roles_bound_changes:
  assumes "cl_role who = ClientRole \<or> cl_role who = DriverRole"
  shows "deliveries (handle ev (who, q) c s) i = deliveries s i
       \<or> (\<exists>d d'. deliveries s i = Some d \<and> deliveries (handle ev (who, q) c s) i = Some d'
            \<and> cl_role who = DriverRole \<and> companyId d = c \<and> assignedDriverId d = Some (cl_user who)
            \<and> ((status d = Assigned \<and> status d' = InProgress)
               \<or> (status d = InProgress \<and> (status d' = Delivered \<or> status d' = Failed))))"
proof (cases "\<exists>k dto. q = ReqDriverStatus k dto \<and> cl_role who = DriverRole")
  case True
  then obtain k dto where q: "q = ReqDriverStatus k dto" "cl_role who = DriverRole" by blast
  obtain r s' where run: "updateDriverStatus (ev_config ev) (ev_geocode ev) c k (cl_user who) dto s = (r, s')"
    by fastforce
  have h: "handle ev (who, q) c s = s'" using q run by (simp add: handle_def canActivate_def)
  note out = driver_update_decided [where cfg = "ev_config ev" and geocode = "ev_geocode ev"
      and company = c and i = k and user = "cl_user who" and dto = dto and s = s]
  show ?thesis
  proof (cases "i = k")
    case False
    then show ?thesis
      using updateDriverStatus_other [OF False, of "ev_config ev" "ev_geocode ev" c "cl_user who" dto s] run h
      by simp
  next
    case True
    show ?thesis
    proof (cases r)
      case (Inl e)
      with out run h show ?thesis by simp
    next
      case (Inr d')
      with out run h True q(2) show ?thesis
        by (auto simp: driverDecision_def split: option.splits if_splits)
    qed
  qed
next
  case False
  then have "\<not> canActivate (rolesFor q) (Some (cl_role who))"
    using assms by (cases q) (auto simp: canActivate_def)
  then show ?thesis by (simp add: handle_def)
qed

lemma roles_bound_changes_witness:
  "deliveries (handle demoEnvironment (\<lparr>cl_user = ''x'', cl_role = ClientRole\<rparr>, ReqRemove ''d1'') ''acme'' (demoState Pending)) ''d1''
     = Some (demoDelivery Pending)"
  using roles_bound_changes [of "\<lparr>cl_user = ''x'', cl_role = ClientRole\<rparr>" demoEnvironment "ReqRemove ''d1''" "''acme''"
      "demoState Pending" "''d1''"]
  by auto

text \<open>The paged lists are complete and exclusive: the pages of a client's orders put together
  are exactly that client's deliveries of the company that are not deleted, each once and in order.\<close>

theorem order_pages_are_complete:
  assumes "0 < limit"
  shows "concat (map (\<lambda>p. fst (findMyOrders client c p limit rows))
                  [1..<Suc (snd (snd (findMyOrders client c q limit rows)))])
       = filter (\<lambda>d. clientId d = Some client \<and> companyId d = c \<and> deletedAt d = None) rows"
  using pagedRead_cover [OF assms, of "\<lambda>d. clientId d = Some client \<and> visible c d" rows q]
  by (simp add: findMyOrders_def visible_def del: upt_Suc)

lemma order_pages_are_complete_witness:
  "concat (map (\<lambda>p. fst (findMyOrders ''cl'' ''acme'' p 2 [demoDelivery Pending]))
      [1..<Suc (snd (snd (findMyOrders ''cl'' ''acme'' 1 2 [demoDelivery Pending])))]) = []"
  using order_pages_are_complete [of 2 "''cl''" "''acme''" "[demoDelivery Pending]" 1]
  by (simp add: demoDelivery_def del: upt_Suc)

end
