(* ===== verification/Auth_Data.thy ===== *)
theory Auth_Data
  imports Delivery_Data Pagination
begin

text \<open>
  The state of \<open>backend/src/modules/auth\<close>: the columns of the users, sessions, companies,
  subscriptions and invitations that \<open>auth.service.ts\<close> reads and writes, and the key-value store
  (Redis) it shares with the guards. A table is a list of rows, a query \<open>find\<close> or
  \<open>filter\<close> on it. Redis is a map from keys to a value and an expiry time with its documented
  commands; \<open>None\<close> is a deployment without Redis.

  Outside the model and parameters of it, in \<open>auth_env\<close>: bcrypt (\<open>bhash\<close> with its salt,
  \<open>bcompare\<close>), the signing library (\<open>jsign\<close>, \<open>jverify\<close>), the one-time-password library
  (\<open>totpVerify\<close>), SHA-256 (\<open>sha\<close>) and the random identifiers (\<open>uuid\<close>). Emails and log
  lines are not modelled.
\<close>

datatype auth_error =
  InvalidCredentials | TooManyLogins | TooManyCodes | InvalidTempToken | InvalidScope
| TwoFactorNotEnabled | InvalidCode | StepAlreadyDone | InvalidRefresh | ReuseDetected
| ResetInvalid | UserNotFound | AccountDeactivated | TwoFactorRequired | NoSession
| EmailTaken | TokenRevoked | CompanyDeleted | AdminNotFound

datatype user_role = AdminUser | DispatcherUser | DriverUser | ClientUser

record auth_user =
  u_id :: ident
  u_email :: string
  u_password :: string
  u_role :: user_role
  u_company :: ident
  u_active :: bool
  u_deleted :: bool
  u_totpEnabled :: bool
  u_totpSecret :: "string option"
  u_googleId :: "string option"
  u_resetId :: "string option"
  u_resetHash :: "string option"
  u_resetExpiry :: "ms option"
  u_legacyRefresh :: "string option"

record session =
  ss_id :: ident
  ss_user :: ident
  ss_hash :: "string option"
  ss_prev :: "string option"
  ss_expires :: ms
  ss_active :: ms
  ss_ip :: "string option"
  ss_device :: "string option"

record invitation =
  iv_id :: ident
  iv_email :: string
  iv_role :: user_role
  iv_company :: ident
  iv_pending :: bool
  iv_expires :: ms

record company_row =
  co_id :: ident
  co_deleted :: bool

record subscription_row =
  sb_company :: ident
  sb_trialEnd :: ms

record admin_row =
  ad_id :: ident
  ad_active :: bool

text \<open>A Redis value with its expiry.\<close>

record redis_entry =
  re_value :: int
  re_expires :: "ms option"

type_synonym redis_store = "string \<rightharpoonup> redis_entry"

record astate =
  users :: "auth_user list"
  sessions :: "session list"
  invitations :: "invitation list"
  companies :: "company_row list"
  platformAdmins :: "admin_row list"
  subscriptions :: "subscription_row list"
  redis :: "redis_store option"
  now :: ms
  entropy :: nat

subsection \<open>Tokens\<close>

datatype token_key = AccessKey | RefreshKey | TempKey

datatype scope = AccessScope | PendingScope | DeviceScope

record claims =
  cm_sub :: ident
  cm_email :: "string option"
  cm_role :: "user_role option"
  cm_company :: "ident option"
  cm_scope :: "scope option"
  cm_platform :: bool
  cm_session :: "ident option"
  cm_jti :: "string option"

text \<open>\<open>jsign key claims iat ttl\<close>; \<open>jverify key token now\<close> gives the claims and the
  issue time in seconds.\<close>

record auth_env =
  bhash :: "nat \<Rightarrow> string \<Rightarrow> string"
  bcompare :: "string \<Rightarrow> string \<Rightarrow> bool"
  jsign :: "token_key \<Rightarrow> claims \<Rightarrow> ms \<Rightarrow> int \<Rightarrow> string"
  jverify :: "token_key \<Rightarrow> string \<Rightarrow> ms \<Rightarrow> (claims \<times> int) option"
  totpVerify :: "string \<Rightarrow> string \<Rightarrow> ms \<Rightarrow> bool"
  sha :: "string \<Rightarrow> string"
  uuid :: "nat \<Rightarrow> ident"
  randomHex :: "nat \<Rightarrow> string"
  accessSeconds :: int
  refreshSeconds :: int
  deviceSeconds :: int
  trialPlanExists :: bool

record token_response =
  tk_access :: string
  tk_refresh :: string
  tk_user :: ident
  tk_twoFactor :: bool
  tk_temp :: "string option"

subsection \<open>Tables\<close>

definition userById :: "ident \<Rightarrow> astate \<Rightarrow> auth_user option" where
  "userById i s = find (\<lambda>u. u_id u = i) (users s)"

definition sessionById :: "ident \<Rightarrow> astate \<Rightarrow> session option" where
  "sessionById i s = find (\<lambda>x. ss_id x = i) (sessions s)"

definition updateUser :: "ident \<Rightarrow> (auth_user \<Rightarrow> auth_user) \<Rightarrow> astate \<Rightarrow> astate" where
  "updateUser i f s = s\<lparr>users := map (\<lambda>u. if u_id u = i then f u else u) (users s)\<rparr>"

definition updateSessions :: "(session \<Rightarrow> bool) \<Rightarrow> (session \<Rightarrow> session) \<Rightarrow> astate \<Rightarrow> astate" where
  "updateSessions p f s = s\<lparr>sessions := map (\<lambda>x. if p x then f x else x) (sessions s)\<rparr>"

definition deleteSessions :: "(session \<Rightarrow> bool) \<Rightarrow> astate \<Rightarrow> astate" where
  "deleteSessions p s = s\<lparr>sessions := filter (\<lambda>x. \<not> p x) (sessions s)\<rparr>"

definition draw :: "astate \<Rightarrow> nat \<times> astate" where
  "draw s = (entropy s, s\<lparr>entropy := Suc (entropy s)\<rparr>)"

lemma updateUser_simps [simp, frame_simps]:
  "sessions (updateUser i f s) = sessions s" "redis (updateUser i f s) = redis s"
  "now (updateUser i f s) = now s" "entropy (updateUser i f s) = entropy s"
  by (simp_all add: updateUser_def)

lemma updateSessions_simps [simp, frame_simps]:
  "users (updateSessions p f s) = users s" "redis (updateSessions p f s) = redis s"
  "now (updateSessions p f s) = now s" "entropy (updateSessions p f s) = entropy s"
  "sessions (updateSessions p f s) = map (\<lambda>x. if p x then f x else x) (sessions s)"
  by (simp_all add: updateSessions_def)

lemma deleteSessions_simps [simp, frame_simps]:
  "users (deleteSessions p s) = users s" "redis (deleteSessions p s) = redis s"
  "now (deleteSessions p s) = now s" "entropy (deleteSessions p s) = entropy s"
  "sessions (deleteSessions p s) = filter (\<lambda>x. \<not> p x) (sessions s)"
  by (simp_all add: deleteSessions_def)

lemma delete_after_update:
  assumes "\<And>x. p (f x) = p x"
  shows "filter (\<lambda>x. \<not> p x) (map (\<lambda>x. if p x then f x else x) xs) = filter (\<lambda>x. \<not> p x) xs"
  using assms by (induction xs) auto

lemma userById_frames [simp]:
  "userById i (updateSessions p f s) = userById i s" "userById i (deleteSessions p s) = userById i s"
  "userById i (s\<lparr>redis := r\<rparr>) = userById i s" "userById i (s\<lparr>entropy := n\<rparr>) = userById i s"
  "userById i (s\<lparr>sessions := xs\<rparr>) = userById i s"
  by (simp_all add: userById_def)

lemma sessionById_frames [simp]:
  "sessionById i (updateUser j f s) = sessionById i s"
  "sessionById i (s\<lparr>redis := r\<rparr>) = sessionById i s" "sessionById i (s\<lparr>entropy := n\<rparr>) = sessionById i s"
  by (simp_all add: sessionById_def)

subsection \<open>Redis commands\<close>

definition live :: "redis_store \<Rightarrow> ms \<Rightarrow> string \<Rightarrow> int option" where
  "live r t k =
     (case r k of
        None \<Rightarrow> None
      | Some e \<Rightarrow> (case re_expires e of
                   None \<Rightarrow> Some (re_value e)
                 | Some x \<Rightarrow> if t < x then Some (re_value e) else None))"

definition redisIncr :: "ms \<Rightarrow> string \<Rightarrow> redis_store \<Rightarrow> int \<times> redis_store" where
  "redisIncr t k r =
     (case live r t k of
        None \<Rightarrow> (1, r(k \<mapsto> \<lparr>re_value = 1, re_expires = None\<rparr>))
      | Some n \<Rightarrow> (n + 1, r(k \<mapsto> \<lparr>re_value = n + 1, re_expires = (case r k of Some e \<Rightarrow> re_expires e | None \<Rightarrow> None)\<rparr>)))"

definition redisExpire :: "ms \<Rightarrow> string \<Rightarrow> int \<Rightarrow> redis_store \<Rightarrow> redis_store" where
  "redisExpire t k secs r =
     (case live r t k of
        None \<Rightarrow> r
      | Some n \<Rightarrow> r(k \<mapsto> \<lparr>re_value = n, re_expires = Some (t + secs * 1000)\<rparr>))"

definition redisSetEx :: "ms \<Rightarrow> string \<Rightarrow> int \<Rightarrow> int \<Rightarrow> redis_store \<Rightarrow> redis_store" where
  "redisSetEx t k v secs r = r(k \<mapsto> \<lparr>re_value = v, re_expires = Some (t + secs * 1000)\<rparr>)"

definition redisSetNx :: "ms \<Rightarrow> string \<Rightarrow> int \<Rightarrow> int \<Rightarrow> redis_store \<Rightarrow> redis_store option" where
  "redisSetNx t k v secs r = (if live r t k = None then Some (redisSetEx t k v secs r) else None)"

definition redisDel :: "string \<Rightarrow> redis_store \<Rightarrow> redis_store" where
  "redisDel k r = r(k := None)"

lemma live_setEx [simp]:
  "live (redisSetEx t k v secs r) t' j
     = (if j = k then (if t' < t + secs * 1000 then Some v else None) else live r t' j)"
  by (simp add: live_def redisSetEx_def)

lemma live_del [simp]: "live (redisDel k r) t j = (if j = k then None else live r t j)"
  by (simp add: live_def redisDel_def)

end
