(* ===== verification/Auth_Lockout.thy ===== *)
theory Auth_Lockout
  imports Auth_Data
begin

text \<open>
  The two brute-force locks of \<open>auth.service.ts\<close>: failed passwords per email
  (\<open>checkLoginLockout\<close>, \<open>recordLoginFailure\<close>, \<open>clearLoginFailures\<close>, 15 failures) and failed
  one-time codes per user (\<open>check2faLockout\<close>, \<open>record2faFailure\<close>, \<open>clear2faFailures\<close>, 8
  failures), both in a window of 15 minutes that starts with the first failure. What both promise
  is the locale \<open>lockout\<close>, proved once over the operations and interpreted on each.
\<close>

definition loginFailWindowSeconds :: int where "loginFailWindowSeconds = 15 * 60"
definition loginFailMaxAttempts :: int where "loginFailMaxAttempts = 15"
definition twoFaFailMaxAttempts :: int where "twoFaFailMaxAttempts = 8"

text \<open>\<open>email.toLowerCase().trim()\<close> on Latin-1 strings.\<close>

definition lowerChar :: "char \<Rightarrow> char" where
  "lowerChar ch =
     (let n = (of_char ch :: nat) in
      if (65 \<le> n \<and> n \<le> 90) \<or> (192 \<le> n \<and> n \<le> 222 \<and> n \<noteq> 215) then char_of (n + 32) else ch)"

definition trim :: "string \<Rightarrow> string" where
  "trim str = rev (dropWhile isSpace (rev (dropWhile isSpace str)))"

definition normalizeEmail :: "string \<Rightarrow> string" where
  "normalizeEmail email = trim (map lowerChar email)"

definition loginFailKey :: "auth_env \<Rightarrow> string \<Rightarrow> string" where
  "loginFailKey ev email = ''login_fail:'' @ take 32 (sha ev (normalizeEmail email))"

definition twoFaFailKey :: "ident \<Rightarrow> string" where
  "twoFaFailKey i = ''2fa_fail:'' @ i"

text \<open>Get and compare, increment with an expiry on the first failure, delete.\<close>

definition isLocked :: "string \<Rightarrow> int \<Rightarrow> redis_store \<Rightarrow> ms \<Rightarrow> bool" where
  "isLocked k limit r t = (case live r t k of Some n \<Rightarrow> limit \<le> n | None \<Rightarrow> False)"

definition recordFailure :: "string \<Rightarrow> redis_store \<Rightarrow> ms \<Rightarrow> redis_store" where
  "recordFailure k r t =
     (let (n, r1) = redisIncr t k r
      in if n = 1 then redisExpire t k loginFailWindowSeconds r1 else r1)"

definition checkLoginLockout :: "auth_env \<Rightarrow> string \<Rightarrow> astate \<Rightarrow> bool" where
  "checkLoginLockout ev email s =
     (case redis s of None \<Rightarrow> False
      | Some r \<Rightarrow> isLocked (loginFailKey ev email) loginFailMaxAttempts r (now s))"

definition recordLoginFailure :: "auth_env \<Rightarrow> string \<Rightarrow> astate \<Rightarrow> astate" where
  "recordLoginFailure ev email s =
     s\<lparr>redis := map_option (\<lambda>r. recordFailure (loginFailKey ev email) r (now s)) (redis s)\<rparr>"

definition clearLoginFailures :: "auth_env \<Rightarrow> string \<Rightarrow> astate \<Rightarrow> astate" where
  "clearLoginFailures ev email s = s\<lparr>redis := map_option (redisDel (loginFailKey ev email)) (redis s)\<rparr>"

definition check2faLockout :: "ident \<Rightarrow> astate \<Rightarrow> bool" where
  "check2faLockout i s =
     (case redis s of None \<Rightarrow> False | Some r \<Rightarrow> isLocked (twoFaFailKey i) twoFaFailMaxAttempts r (now s))"

definition record2faFailure :: "ident \<Rightarrow> astate \<Rightarrow> astate" where
  "record2faFailure i s =
     s\<lparr>redis := map_option (\<lambda>r. recordFailure (twoFaFailKey i) r (now s)) (redis s)\<rparr>"

definition clear2faFailures :: "ident \<Rightarrow> astate \<Rightarrow> astate" where
  "clear2faFailures i s = s\<lparr>redis := map_option (redisDel (twoFaFailKey i)) (redis s)\<rparr>"

subsection \<open>The contract of a lock\<close>

text \<open>\<open>counted s\<close> is the number of counted failures with the end of their window, when there is
  one; \<open>ok s\<close> says that a stored counter is positive and has an expiry.\<close>

locale lockout =
  fixes locked :: "astate \<Rightarrow> bool"
    and fail :: "astate \<Rightarrow> astate"
    and clear :: "astate \<Rightarrow> astate"
    and limit :: int
    and counted :: "astate \<Rightarrow> (int \<times> ms) option"
    and ok :: "astate \<Rightarrow> bool"
  assumes locked_iff: "counted s = Some (n, e) \<Longrightarrow> locked s \<longleftrightarrow> limit \<le> n"
    and free: "ok s \<Longrightarrow> counted s = None \<Longrightarrow> \<not> locked s"
    and first: "ok s \<Longrightarrow> counted s = None \<Longrightarrow> redis s \<noteq> None
                  \<Longrightarrow> counted (fail s) = Some (1, now s + loginFailWindowSeconds * 1000)"
    and more: "ok s \<Longrightarrow> counted s = Some (n, e) \<Longrightarrow> counted (fail s) = Some (n + 1, e)"
    and later: "counted s = Some (n, e) \<Longrightarrow> now s \<le> t \<Longrightarrow>
                  counted (s\<lparr>now := t\<rparr>) = (if t < e then Some (n, e) else None)"
    and cleared: "counted (clear s) = None"
    and fail_now: "now (fail s) = now s"
    and ok_fail: "ok s \<Longrightarrow> ok (fail s)"
    and ok_clear: "ok s \<Longrightarrow> ok (clear s)"
    and ok_later: "ok s \<Longrightarrow> ok (s\<lparr>now := t\<rparr>)"
begin

text \<open>A run of failures at the given times.\<close>

lemma failures_count:
  assumes "ok s" and "counted s = Some (n, e)" and "sorted_wrt (\<le>) (now s # ts)" and "\<forall>t\<in>set ts. t < e"
  shows "counted (fold (\<lambda>t x. fail (x\<lparr>now := t\<rparr>)) ts s) = Some (n + int (length ts), e)
       \<and> now (fold (\<lambda>t x. fail (x\<lparr>now := t\<rparr>)) ts s) = last (now s # ts)"
  using assms
proof (induction ts arbitrary: s n)
  case (Cons t ts)
  have "counted (s\<lparr>now := t\<rparr>) = Some (n, e)"
    using later [OF Cons.prems(2), of t] Cons.prems(3,4) by simp
  from Cons.IH [OF ok_fail [OF ok_later [OF Cons.prems(1)]] more [OF ok_later [OF Cons.prems(1)] this]]
    Cons.prems(3,4) show ?case
    by (simp add: fail_now algebra_simps)
qed simp

lemma locked_for_the_window:
  assumes "redis s \<noteq> None" and "ok s" and "counted s = None"
    and "sorted_wrt (\<le>) (now s # ts @ [t])" and "\<forall>x\<in>set (ts @ [t]). x < now s + loginFailWindowSeconds * 1000"
  shows "locked ((fold (\<lambda>t x. fail (x\<lparr>now := t\<rparr>)) ts (fail s))\<lparr>now := t\<rparr>)
           \<longleftrightarrow> limit \<le> 1 + int (length ts)"
proof -
  let ?e = "now s + loginFailWindowSeconds * 1000"
  have "counted (fail s) = Some (1, ?e)" using first [OF assms(2,3,1)] .
  then have run: "counted (fold (\<lambda>t x. fail (x\<lparr>now := t\<rparr>)) ts (fail s)) = Some (1 + int (length ts), ?e)"
    "now (fold (\<lambda>t x. fail (x\<lparr>now := t\<rparr>)) ts (fail s)) = last (now s # ts)"
    using failures_count [OF ok_fail [OF assms(2)], of 1 ?e ts] assms(4,5)
    by (auto simp: fail_now sorted_wrt_append)
  have "last (now s # ts) \<le> t" using assms(4) by (auto simp: sorted_wrt_append)
  with later [OF run(1), of t] run(2) assms(5) show ?thesis by (simp add: locked_iff)
qed

lemma unlocked_after_the_window:
  assumes "counted s = Some (n, e)" and "now s \<le> t" and "e \<le> t" and "ok s"
  shows "\<not> locked (s\<lparr>now := t\<rparr>)"
  using later [OF assms(1,2)] assms(3) by (intro free ok_later [OF assms(4)]) simp

lemma cleared_is_free: "ok s \<Longrightarrow> \<not> locked (clear s)"
  by (rule free [OF ok_clear cleared])

end

subsection \<open>Both locks keep it\<close>

definition counterAt :: "string \<Rightarrow> astate \<Rightarrow> (int \<times> ms) option" where
  "counterAt k s =
     (case redis s of None \<Rightarrow> None
      | Some r \<Rightarrow> (case r k of
                   Some e \<Rightarrow> (case re_expires e of
                               Some x \<Rightarrow> if now s < x then Some (re_value e, x) else None
                             | None \<Rightarrow> None)
                 | None \<Rightarrow> None))"

definition expiring :: "string \<Rightarrow> astate \<Rightarrow> bool" where
  "expiring k s =
     (case redis s of None \<Rightarrow> True
      | Some r \<Rightarrow> (case r k of Some e \<Rightarrow> re_expires e \<noteq> None \<and> 0 < re_value e | None \<Rightarrow> True))"

lemmas counter_defs =
  counterAt_def expiring_def isLocked_def recordFailure_def redisIncr_def redisExpire_def
  live_def redisDel_def loginFailWindowSeconds_def

interpretation login_lock: lockout "checkLoginLockout ev email" "recordLoginFailure ev email"
  "clearLoginFailures ev email" loginFailMaxAttempts "counterAt (loginFailKey ev email)"
  "expiring (loginFailKey ev email)" for ev email
  by unfold_locales
    (auto simp: checkLoginLockout_def recordLoginFailure_def clearLoginFailures_def counter_defs
      split: option.splits if_splits)

interpretation two_fa_lock: lockout "check2faLockout i" "record2faFailure i" "clear2faFailures i"
  twoFaFailMaxAttempts "counterAt (twoFaFailKey i)" "expiring (twoFaFailKey i)" for i
  by unfold_locales
    (auto simp: check2faLockout_def record2faFailure_def clear2faFailures_def counter_defs
      split: option.splits if_splits)

end
