(* ===== verification/Auth_Session.thy ===== *)
theory Auth_Session
  imports Auth_Lockout
begin

text \<open>
  Sessions and tokens of \<open>auth.service.ts\<close>: \<open>parseExpirationSeconds\<close>, \<open>generateTokens\<close> with
  its atomic rotation, \<open>refresh\<close>, \<open>logout\<close>, \<open>issueDeviceTrackingToken\<close>; the revocation keys of
  \<open>backend/src/common/auth/access-token-revocation.ts\<close> and the guard that reads them,
  \<open>strategies/jwt.strategy.ts\<close> (users only, not the platform administrators). The database
  transaction around the checks of \<open>refresh\<close> is the parameter \<open>tx\<close>; its documented behaviour,
  that a callback which throws is rolled back, is the hypothesis \<open>rollsBack tx\<close> where a theorem
  needs it.
\<close>

subsection \<open>Durations\<close>

datatype expiration = ExpNumber int | ExpText string | ExpMissing

definition unitSeconds :: "char \<Rightarrow> int" where
  "unitSeconds ch =
     (if ch = CHR ''s'' then 1 else if ch = CHR ''m'' then 60 else if ch = CHR ''h'' then 3600 else 86400)"

definition matchesDuration :: "string \<Rightarrow> bool" where
  "matchesDuration str \<longleftrightarrow> 2 \<le> length str \<and> list_all isDigit (butlast str) \<and> last str \<in> set ''smhd''"

definition parseExpirationSeconds :: "expiration \<Rightarrow> int" where
  "parseExpirationSeconds x =
     (case x of
        ExpNumber n \<Rightarrow> n
      | ExpMissing \<Rightarrow> 7 * 24 * 60 * 60
      | ExpText str \<Rightarrow>
          if matchesDuration str then parseInt10 (butlast str) * unitSeconds (last str)
          else 7 * 24 * 60 * 60)"

definition accessTokenTtlSeconds :: "string option \<Rightarrow> int" where
  "accessTokenTtlSeconds raw =
     (let str = (case raw of Some x \<Rightarrow> if x = [] then ''15m'' else x | None \<Rightarrow> ''15m'') in
      if matchesDuration str then parseInt10 (butlast str) * unitSeconds (last str) else 900)"

subsection \<open>Issuing tokens\<close>

definition createSession ::
    "auth_env \<Rightarrow> ident \<Rightarrow> string option \<Rightarrow> string option \<Rightarrow> astate \<Rightarrow> ident \<times> astate" where
  "createSession ev user ip device s =
     (let (n, s1) = draw s; i = uuid ev n
      in (i, s1\<lparr>sessions := sessions s1 @
             [\<lparr>ss_id = i, ss_user = user, ss_hash = None, ss_prev = None,
               ss_expires = now s1 + refreshSeconds ev * 1000, ss_active = now s1,
               ss_ip = ip, ss_device = device\<rparr>]\<rparr>))"

definition rotateSession :: "auth_env \<Rightarrow> string \<Rightarrow> ms \<Rightarrow> session \<Rightarrow> session" where
  "rotateSession ev h t x = x\<lparr>ss_prev := ss_hash x, ss_hash := Some h, ss_active := t,
     ss_expires := max (ss_expires x) (t + refreshSeconds ev * 1000)\<rparr>"

definition generateTokens ::
    "auth_env \<Rightarrow> auth_user \<Rightarrow> ident option \<Rightarrow> string option \<Rightarrow> string option \<Rightarrow> astate
       \<Rightarrow> (auth_error + token_response) \<times> astate" where
  "generateTokens ev u given ip device s =
     (case userById (u_id u) s of
        None \<Rightarrow> (Inl UserNotFound, s)
      | Some _ \<Rightarrow>
          (let (sid, s1) = (case given of Some i \<Rightarrow> (i, s) | None \<Rightarrow> createSession ev (u_id u) ip device s);
               payload = \<lparr>cm_sub = u_id u, cm_email = Some (u_email u), cm_role = Some (u_role u),
                          cm_company = Some (u_company u), cm_scope = None, cm_platform = False, cm_session = Some sid,
                          cm_jti = None\<rparr>;
               access = jsign ev AccessKey payload (now s1) (accessSeconds ev);
               refreshToken = jsign ev RefreshKey payload (now s1) (refreshSeconds ev);
               (salt, s2) = draw s1;
               mine = (\<lambda>x. ss_id x = sid \<and> ss_user x = u_id u)
           in if filter mine (sessions s2) = [] then (Inl InvalidRefresh, s2)
              else (Inr \<lparr>tk_access = access, tk_refresh = refreshToken, tk_user = u_id u,
                         tk_twoFactor = False, tk_temp = None\<rparr>,
                    updateSessions mine (rotateSession ev (bhash ev salt refreshToken) (now s2)) s2)))"

subsection \<open>Refresh\<close>

definition refreshCheck ::
    "auth_env \<Rightarrow> string \<Rightarrow> ident \<Rightarrow> astate \<Rightarrow> (auth_error + auth_user) \<times> astate" where
  "refreshCheck ev token sid s =
     (case sessionById sid s of
        None \<Rightarrow> (Inl InvalidRefresh, s)
      | Some x \<Rightarrow>
          (case userById (ss_user x) s of
             None \<Rightarrow> (Inl InvalidRefresh, s)
           | Some u \<Rightarrow>
               if \<not> u_active u then (Inl InvalidRefresh, s)
               else (case ss_hash x of
                  None \<Rightarrow> (Inl InvalidRefresh, s)
                | Some h \<Rightarrow>
                    if ss_expires x < now s then (Inl InvalidRefresh, s)
                    else if bcompare ev token h
                         \<or> (case ss_prev x of Some p \<Rightarrow> bcompare ev token p | None \<Rightarrow> False)
                    then (Inr u, s)
                    else (Inl ReuseDetected,
                          deleteSessions (\<lambda>y. ss_id y = sid)
                            (updateSessions (\<lambda>y. ss_id y = sid)
                               (\<lambda>y. y\<lparr>ss_hash := None, ss_prev := None\<rparr>) s)))))"

type_synonym transaction =
  "(astate \<Rightarrow> (auth_error + auth_user) \<times> astate) \<Rightarrow> astate \<Rightarrow> (auth_error + auth_user) \<times> astate"

definition rollsBack :: "transaction \<Rightarrow> bool" where
  "rollsBack tx \<longleftrightarrow>
     (\<forall>f s. tx f s = (case f s of (Inl e, s1) \<Rightarrow> (Inl e, s) | (Inr x, s1) \<Rightarrow> (Inr x, s1)))"

definition refresh ::
    "auth_env \<Rightarrow> transaction \<Rightarrow> string \<Rightarrow> astate \<Rightarrow> (auth_error + token_response) \<times> astate" where
  "refresh ev tx token s =
     (case jverify ev RefreshKey token (now s) of
        None \<Rightarrow> (Inl InvalidRefresh, s)
      | Some (c, iat) \<Rightarrow>
          (case cm_session c of
             None \<Rightarrow> (Inl InvalidRefresh, s)
           | Some sid \<Rightarrow>
               (case tx (refreshCheck ev token sid) s of
                  (Inl e, s1) \<Rightarrow> (Inl e, s1)
                | (Inr u, s1) \<Rightarrow> generateTokens ev u (Some sid) None None s1)))"

subsection \<open>Logout and device tokens\<close>

definition logout :: "ident \<Rightarrow> ident option \<Rightarrow> astate \<Rightarrow> astate" where
  "logout user sid s =
     (case sid of
        Some i \<Rightarrow>
          (let mine = (\<lambda>x. ss_id x = i \<and> ss_user x = user)
           in deleteSessions mine (updateSessions mine (\<lambda>x. x\<lparr>ss_hash := None\<rparr>) s))
      | None \<Rightarrow> updateUser user (\<lambda>u. u\<lparr>u_legacyRefresh := None\<rparr>) s)"

definition issueDeviceTrackingToken ::
    "auth_env \<Rightarrow> ident \<Rightarrow> ident option \<Rightarrow> astate \<Rightarrow> auth_error + string" where
  "issueDeviceTrackingToken ev user sid s =
     (case sid of
        None \<Rightarrow> Inl NoSession
      | Some i \<Rightarrow>
          (case userById user s of
             None \<Rightarrow> Inl UserNotFound
           | Some u \<Rightarrow>
               if \<not> u_active u then Inl UserNotFound
               else Inr (jsign ev AccessKey
                      \<lparr>cm_sub = u_id u, cm_email = Some (u_email u), cm_role = Some (u_role u),
                       cm_company = Some (u_company u), cm_scope = Some DeviceScope, cm_platform = False, cm_session = Some i,
                       cm_jti = None\<rparr> (now s) (deviceSeconds ev))))"

subsection \<open>Access tokens\<close>

definition revokedUserKey :: "ident \<Rightarrow> string" where
  "revokedUserKey i = ''revoked:user:'' @ i"

definition revokedSessionKey :: "ident \<Rightarrow> string" where
  "revokedSessionKey i = ''revoked:session:'' @ i"

definition revokeUserAccessTokens :: "ident \<Rightarrow> int \<Rightarrow> astate \<Rightarrow> astate" where
  "revokeUserAccessTokens user ttl s =
     s\<lparr>redis := map_option (redisSetEx (now s) (revokedUserKey user) (now s div 1000 + 1) (max ttl 1)) (redis s)\<rparr>"

definition revokeSessionAccessTokens :: "ident \<Rightarrow> int \<Rightarrow> astate \<Rightarrow> astate" where
  "revokeSessionAccessTokens sid ttl s =
     s\<lparr>redis := map_option (redisSetEx (now s) (revokedSessionKey sid) (now s div 1000 + 1) (max ttl 1)) (redis s)\<rparr>"

definition cutOff :: "string \<Rightarrow> int \<Rightarrow> astate \<Rightarrow> bool" where
  "cutOff k iat s =
     (case redis s of None \<Rightarrow> False
      | Some r \<Rightarrow> (case live r (now s) k of Some c \<Rightarrow> iat \<noteq> 0 \<and> iat < c | None \<Rightarrow> False))"

text \<open>Who a request runs as: a user of a company or an administrator of the platform.\<close>

datatype principal = UserPrincipal auth_user | PlatformPrincipal ident

text \<open>The bearer token is verified by passport, then \<open>validate\<close> runs.\<close>

definition validateAccess :: "auth_env \<Rightarrow> string \<Rightarrow> astate \<Rightarrow> auth_error + principal" where
  "validateAccess ev token s =
     (case jverify ev AccessKey token (now s) of
        None \<Rightarrow> Inl InvalidTempToken
      | Some (c, iat) \<Rightarrow>
          if cm_scope c \<noteq> None \<and> cm_scope c \<noteq> Some AccessScope then Inl InvalidScope
          else if cutOff (revokedUserKey (cm_sub c)) iat s then Inl TokenRevoked
          else if (case cm_session c of Some i \<Rightarrow> cutOff (revokedSessionKey i) iat s | None \<Rightarrow> False)
          then Inl TokenRevoked
          else if cm_platform c then
            (case find (\<lambda>a. ad_id a = cm_sub c) (platformAdmins s) of
               None \<Rightarrow> Inl AdminNotFound
             | Some a \<Rightarrow> if ad_active a then Inr (PlatformPrincipal (ad_id a)) else Inl AdminNotFound)
          else (case userById (cm_sub c) s of
                  None \<Rightarrow> Inl UserNotFound
                | Some u \<Rightarrow>
                    if \<not> u_active u then Inl UserNotFound
                    else if (case find (\<lambda>x. co_id x = u_company u) (companies s) of
                               Some x \<Rightarrow> co_deleted x | None \<Rightarrow> False)
                    then Inl CompanyDeleted else Inr (UserPrincipal u)))"

subsection \<open>Lemmas\<close>

lemma draw_simps [simp]:
  "fst (draw s) = entropy s" "snd (draw s) = s\<lparr>entropy := Suc (entropy s)\<rparr>"
  by (simp_all add: draw_def)

lemma generateTokens_Inr:
  assumes "generateTokens ev u (Some sid) ip device s = (Inr r, s')"
  shows "tk_user r = u_id u"
    and "sessions s' = map (\<lambda>y. if ss_id y = sid \<and> ss_user y = u_id u
            then rotateSession ev (bhash ev (entropy s) (tk_refresh r)) (now s) y else y) (sessions s)"
    and "users s' = users s" "redis s' = redis s" "now s' = now s"
    and "\<exists>y\<in>set (sessions s). ss_id y = sid \<and> ss_user y = u_id u"
    and "tk_refresh r = jsign ev RefreshKey \<lparr>cm_sub = u_id u, cm_email = Some (u_email u), cm_role = Some (u_role u),
            cm_company = Some (u_company u), cm_scope = None, cm_platform = False, cm_session = Some sid, cm_jti = None\<rparr>
            (now s) (refreshSeconds ev)"
  using assms
  by (auto simp: generateTokens_def draw_def Let_def filter_empty_conv split: option.splits if_splits)

lemma refreshCheck_Inr:
  assumes "refreshCheck ev token sid s = (Inr u, s')"
  shows "s' = s" "\<exists>x h. sessionById sid s = Some x \<and> userById (ss_user x) s = Some u \<and> u_active u
      \<and> ss_hash x = Some h \<and> now s \<le> ss_expires x
      \<and> (bcompare ev token h \<or> (\<exists>p. ss_prev x = Some p \<and> bcompare ev token p))"
  using assms by (auto simp: refreshCheck_def split: option.splits if_splits)

lemma rollsBack_simps:
  "rollsBack tx \<Longrightarrow> f s = (Inl e, s1) \<Longrightarrow> tx f s = (Inl e, s)"
  "rollsBack tx \<Longrightarrow> f s = (Inr x, s1) \<Longrightarrow> tx f s = (Inr x, s1)"
  by (simp_all add: rollsBack_def)

lemma rollsBack_Inr:
  assumes "rollsBack tx" and "tx f s = (Inr x, s1)"
  shows "f s = (Inr x, s1)"
proof -
  obtain y s2 where f: "f s = (y, s2)" by fastforce
  show ?thesis
    using assms rollsBack_simps [OF assms(1)] f by (cases y) force+
qed

lemma refresh_Inr:
  assumes "refresh ev tx token s = (Inr r, s')" and "rollsBack tx"
  obtains c iat sid u where "jverify ev RefreshKey token (now s) = Some (c, iat)"
    "cm_session c = Some sid" "refreshCheck ev token sid s = (Inr u, s)"
    "generateTokens ev u (Some sid) None None s = (Inr r, s')"
proof -
  from assms(1) obtain c iat sid u s1 where *: "jverify ev RefreshKey token (now s) = Some (c, iat)"
    "cm_session c = Some sid" "tx (refreshCheck ev token sid) s = (Inr u, s1)"
    "generateTokens ev u (Some sid) None None s1 = (Inr r, s')"
    by (auto simp: refresh_def split: option.splits prod.splits sum.splits)
  from rollsBack_Inr [OF assms(2) *(3)] have "refreshCheck ev token sid s = (Inr u, s1)" .
  with refreshCheck_Inr(1) [OF this] * that show thesis by blast
qed

lemma find_id:
  "find (\<lambda>x. f x = i) xs = Some x \<Longrightarrow> f x = i \<and> x \<in> set xs"
  by (auto simp: find_Some_iff)

lemma find_map_same:
  assumes "\<And>x. f (g x) = f x"
  shows "find (\<lambda>x. f x = i) (map g xs) = map_option g (find (\<lambda>x. f x = i) xs)"
  using assms by (induction xs) auto


subsection \<open>A concrete environment for the witnesses\<close>

text \<open>Hashes that keep the text, tokens that spell their claims: enough to run the service.\<close>

definition keyMark :: "token_key \<Rightarrow> string" where
  "keyMark k = (case k of AccessKey \<Rightarrow> ''A'' | RefreshKey \<Rightarrow> ''R'' | TempKey \<Rightarrow> ''T'')"

definition demoUser :: auth_user where
  "demoUser = \<lparr>u_id = ''u1'', u_email = ''a@b'', u_password = ''pw'', u_role = AdminUser,
     u_company = ''acme'', u_active = True, u_deleted = False, u_totpEnabled = False,
     u_totpSecret = None, u_googleId = None, u_resetId = Some ''rid'', u_resetHash = Some ''sec'',
     u_resetExpiry = Some 100, u_legacyRefresh = None\<rparr>"

definition demoClaims :: "ident option \<Rightarrow> scope option \<Rightarrow> claims" where
  "demoClaims sid sc = \<lparr>cm_sub = ''u1'', cm_email = Some ''a@b'', cm_role = Some AdminUser, cm_company = Some ''acme'',
     cm_scope = sc, cm_platform = False, cm_session = sid, cm_jti = None\<rparr>"

definition demoSession :: "string option \<Rightarrow> string option \<Rightarrow> session" where
  "demoSession h p = \<lparr>ss_id = ''s1'', ss_user = ''u1'', ss_hash = h, ss_prev = p, ss_expires = 1000000,
     ss_active = 0, ss_ip = None, ss_device = None\<rparr>"

definition demoEnv :: auth_env where
  "demoEnv = \<lparr>bhash = (\<lambda>n x. x), bcompare = (=),
     jsign = (\<lambda>k c t ttl. keyMark k @ (if cm_scope c = Some DeviceScope then ''d'' else ''s'')),
     jverify = (\<lambda>k tok t. if take 1 tok = keyMark k \<and> length tok \<ge> 2
        then Some (demoClaims (Some ''s1'') (if tok ! 1 = CHR ''d'' then Some DeviceScope else None), 1) else None),
     totpVerify = (\<lambda>sec code t. code = sec), sha = (\<lambda>x. x), uuid = (\<lambda>n. replicate n CHR ''i''), randomHex = (\<lambda>n. replicate n CHR ''f''),
     accessSeconds = 900, refreshSeconds = 604800, deviceSeconds = 2592000, trialPlanExists = True\<rparr>"

definition demoAuth :: "session list \<Rightarrow> astate" where
  "demoAuth xs = \<lparr>users = [demoUser], sessions = xs, invitations = [],
     companies = [\<lparr>co_id = ''acme'', co_deleted = False\<rparr>], platformAdmins = [], subscriptions = [],
     redis = Some Map.empty, now = 5000, entropy = 0\<rparr>"

definition demoTx :: transaction where
  "demoTx f s = (case f s of (Inl e, s1) \<Rightarrow> (Inl e, s) | (Inr x, s1) \<Rightarrow> (Inr x, s1))"

lemma demoTx_rolls [simp]: "rollsBack demoTx"
  by (simp add: rollsBack_def demoTx_def)

lemmas demo_auth_defs = demoUser_def demoSession_def demoEnv_def demoAuth_def demoClaims_def keyMark_def

subsection \<open>Properties\<close>

text \<open>C21. A refresh succeeds only for a token that verifies, names an existing, unexpired session of
  an active user and matches the current or the previous generation of that session; it then moves
  the current generation to previous, stores the new token's hash as current, never shortens the
  session, and touches no other session.\<close>

theorem refresh_rotates_one_session:
  assumes "refresh ev tx token s = (Inr r, s')" and "rollsBack tx"
  shows "\<exists>c iat sid x u h.
       jverify ev RefreshKey token (now s) = Some (c, iat) \<and> cm_session c = Some sid
     \<and> sessionById sid s = Some x \<and> userById (ss_user x) s = Some u \<and> u_active u
     \<and> now s \<le> ss_expires x \<and> ss_hash x = Some h
     \<and> (bcompare ev token h \<or> (\<exists>p. ss_prev x = Some p \<and> bcompare ev token p))
     \<and> tk_user r = ss_user x
     \<and> (\<exists>h'. h' = bhash ev (entropy s) (tk_refresh r)
          \<and> sessions s' = map (\<lambda>y. if ss_id y = sid \<and> ss_user y = ss_user x
               then y\<lparr>ss_prev := ss_hash y, ss_hash := Some h', ss_active := now s,
                      ss_expires := max (ss_expires y) (now s + refreshSeconds ev * 1000)\<rparr>
               else y) (sessions s))"
proof -
  from refresh_Inr [OF assms] obtain c iat sid u where
    r: "jverify ev RefreshKey token (now s) = Some (c, iat)" "cm_session c = Some sid"
      "refreshCheck ev token sid s = (Inr u, s)" "generateTokens ev u (Some sid) None None s = (Inr r, s')"
    by blast
  from refreshCheck_Inr(2) [OF r(3)] obtain x h where
    x: "sessionById sid s = Some x" "userById (ss_user x) s = Some u" "u_active u" "ss_hash x = Some h"
      "now s \<le> ss_expires x" "bcompare ev token h \<or> (\<exists>p. ss_prev x = Some p \<and> bcompare ev token p)"
    by blast
  have "u_id u = ss_user x" using x(2) find_id by (fastforce simp: userById_def)
  with r x generateTokens_Inr(1,2) [OF r(4)] show ?thesis
    by (auto simp: rotateSession_def)
qed

lemma refresh_rotates_one_session_witness:
  "\<exists>r s'. refresh demoEnv demoTx ''Rs'' (demoAuth [demoSession (Some ''Rs'') None]) = (Inr r, s')
     \<and> tk_user r = ''u1''"
proof -
  have "\<exists>r s'. refresh demoEnv demoTx ''Rs'' (demoAuth [demoSession (Some ''Rs'') None]) = (Inr r, s')"
    by (simp add: refresh_def demoTx_def refreshCheck_def sessionById_def userById_def generateTokens_def
        draw_def demo_auth_defs Let_def)
  then obtain r s' where run: "refresh demoEnv demoTx ''Rs'' (demoAuth [demoSession (Some ''Rs'') None]) = (Inr r, s')"
    by blast
  from refresh_rotates_one_session [OF run demoTx_rolls] show ?thesis
    using run by (auto simp: sessionById_def demoAuth_def demoSession_def split: if_splits)
qed

text \<open>C26. Detecting a reused refresh token revokes nothing: the session is deleted inside the
  transaction and the error that reports it is thrown in the same transaction, which the database
  rolls back, so the answer says "session revoked" and the state is unchanged.\<close>

theorem reuse_detection_is_rolled_back:
  assumes "rollsBack tx" and "jverify ev RefreshKey token (now s) = Some (c, iat)"
    and "cm_session c = Some sid" and "sessionById sid s = Some x"
    and "userById (ss_user x) s = Some u" and "u_active u" and "ss_hash x = Some h"
    and "now s \<le> ss_expires x" and "\<not> bcompare ev token h"
    and "\<forall>p. ss_prev x = Some p \<longrightarrow> \<not> bcompare ev token p"
  shows "refresh ev tx token s = (Inl ReuseDetected, s)"
proof -
  have "\<exists>s1. refreshCheck ev token sid s = (Inl ReuseDetected, s1)"
    using assms by (auto simp: refreshCheck_def split: option.splits)
  with rollsBack_simps(1) [OF assms(1)] assms(2,3) show ?thesis
    by (auto simp: refresh_def)
qed

lemma reuse_detection_is_rolled_back_witness:
  "refresh demoEnv demoTx ''Rs'' (demoAuth [demoSession (Some ''Rx'') None])
     = (Inl ReuseDetected, demoAuth [demoSession (Some ''Rx'') None])"
  by (rule reuse_detection_is_rolled_back [where x = "demoSession (Some ''Rx'') None" and u = demoUser
        and sid = "''s1''" and h = "''Rx''" and c = "demoClaims (Some ''s1'') None" and iat = 1])
    (simp_all add: sessionById_def userById_def demo_auth_defs)

text \<open>Two tabs that refresh with the same token both stay connected: after a successful refresh,
  the token that was current is still accepted by a second refresh, as the previous generation.\<close>

theorem concurrent_refresh_is_tolerated:
  assumes "refresh ev tx token s = (Inr r, s')" and "rollsBack tx"
    and "jverify ev RefreshKey token (now s) = Some (c, iat)" and "cm_session c = Some sid"
    and "sessionById sid s = Some x" and "ss_hash x = Some h" and "bcompare ev token h"
    and "0 \<le> refreshSeconds ev"
  shows "\<exists>r2 s2. refresh ev tx token s' = (Inr r2, s2) \<and> tk_user r2 = tk_user r"
proof -
  obtain c' iat' sid' u where
    r': "jverify ev RefreshKey token (now s) = Some (c', iat')" "cm_session c' = Some sid'"
      "refreshCheck ev token sid' s = (Inr u, s)" "generateTokens ev u (Some sid') None None s = (Inr r, s')"
    using refresh_Inr [OF assms(1,2)] .
  have "sid' = sid" using r'(1,2) assms(3,4) by simp
  with r'(3,4) have r: "refreshCheck ev token sid s = (Inr u, s)"
    "generateTokens ev u (Some sid) None None s = (Inr r, s')" by simp_all
  note gen = generateTokens_Inr [OF r(2)]
  from refreshCheck_Inr(2) [OF r(1)] assms(5,6) have
    u: "userById (ss_user x) s = Some u" "u_active u" "now s \<le> ss_expires x" by auto
  have ids: "u_id u = ss_user x" "ss_id x = sid"
    using u(1) assms(5) find_id by (fastforce simp: userById_def sessionById_def)+
  let ?rot = "rotateSession ev (bhash ev (entropy s) (tk_refresh r)) (now s)"
  have s1: "sessionById sid s' = Some (?rot x)"
    unfolding sessionById_def gen(2)
    by (subst find_map_same) (use assms(5) ids in \<open>auto simp: sessionById_def rotateSession_def\<close>)
  have u1: "userById (ss_user x) s' = Some u" using u(1) gen(3) by (simp add: userById_def)
  have chk: "refreshCheck ev token sid s' = (Inr u, s')"
    using s1 u1 u(2,3) assms(6-8) gen(5) by (simp add: refreshCheck_def rotateSession_def)
  have tx: "tx (refreshCheck ev token sid) s' = (Inr u, s')"
    by (rule rollsBack_simps(2) [OF assms(2)]) (rule chk)
  have "?rot x \<in> set (sessions s')" using s1 find_id by (fastforce simp: sessionById_def)
  moreover have "ss_id (?rot x) = sid" "ss_user (?rot x) = u_id u"
    using ids by (simp_all add: rotateSession_def)
  ultimately have "filter (\<lambda>y. ss_id y = sid \<and> ss_user y = u_id u) (sessions s') \<noteq> []"
    unfolding filter_empty_conv by blast
  then have "\<exists>r2 s2. generateTokens ev u (Some sid) None None s' = (Inr r2, s2)"
    using u1 ids by (auto simp: generateTokens_def draw_def Let_def)
  then obtain r2 s2 where g2: "generateTokens ev u (Some sid) None None s' = (Inr r2, s2)" by blast
  have "tk_user r2 = tk_user r" using generateTokens_Inr(1) [OF g2] gen(1) by simp
  with g2 tx assms(3,4) gen(5) show ?thesis by (simp add: refresh_def)
qed

lemma concurrent_refresh_is_tolerated_witness:
  "\<exists>r s' r2 s2. refresh demoEnv demoTx ''Rs'' (demoAuth [demoSession (Some ''Rs'') None]) = (Inr r, s')
     \<and> refresh demoEnv demoTx ''Rs'' s' = (Inr r2, s2)"
proof -
  have "\<exists>r s'. refresh demoEnv demoTx ''Rs'' (demoAuth [demoSession (Some ''Rs'') None]) = (Inr r, s')"
    by (simp add: refresh_def demoTx_def refreshCheck_def sessionById_def userById_def generateTokens_def
        draw_def demo_auth_defs Let_def)
  then obtain r s' where run: "refresh demoEnv demoTx ''Rs'' (demoAuth [demoSession (Some ''Rs'') None]) = (Inr r, s')"
    by blast
  have "\<exists>r2 s2. refresh demoEnv demoTx ''Rs'' s' = (Inr r2, s2) \<and> tk_user r2 = tk_user r"
    by (rule concurrent_refresh_is_tolerated [OF run demoTx_rolls, where sid = "''s1''" and h = "''Rs''"
          and x = "demoSession (Some ''Rs'') None" and c = "demoClaims (Some ''s1'') None" and iat = 1])
      (simp_all add: sessionById_def demo_auth_defs)
  with run show ?thesis by blast
qed

text \<open>A logout removes the caller's session and nothing else: no row with that identifier and
  owner remains, every other session is kept as it was, and a session of another user with the same
  identifier is not touched.\<close>

theorem logout_removes_only_that_session:
  "sessions (logout user (Some i) s) = filter (\<lambda>x. \<not> (ss_id x = i \<and> ss_user x = user)) (sessions s)
   \<and> users (logout user (Some i) s) = users s"
  using delete_after_update [where p = "\<lambda>x. ss_id x = i \<and> ss_user x = user" and f = "\<lambda>x. x\<lparr>ss_hash := None\<rparr>"]
  by (simp add: logout_def Let_def)

text \<open>The 30-day credential of the tracking worker never opens the application: whatever the state
  and the time, the guard of the ordinary routes refuses it, provided verification returns the
  claims that were signed.\<close>

theorem device_token_is_no_access_token:
  assumes "issueDeviceTrackingToken ev user sid s = Inr token"
    and "\<And>c t ttl t2. jverify ev AccessKey (jsign ev AccessKey c t ttl) t2 \<in> {None, Some (c, t div 1000)}"
  shows "validateAccess ev token s2 = Inl InvalidTempToken \<or> validateAccess ev token s2 = Inl InvalidScope"
proof -
  from assms(1) obtain c where c: "token = jsign ev AccessKey c (now s) (deviceSeconds ev)"
      "cm_scope c = Some DeviceScope"
    by (auto simp: issueDeviceTrackingToken_def split: option.splits if_splits)
  with assms(2) [of c "now s" "deviceSeconds ev" "now s2"] show ?thesis
    by (auto simp: validateAccess_def)
qed

definition faithfulEnv :: auth_env where
  "faithfulEnv = demoEnv\<lparr>jsign := (\<lambda>k c t ttl. if c = demoClaims (Some ''s1'') (Some DeviceScope) \<and> t div 1000 = 5 then ''d'' else ''x''),
     jverify := (\<lambda>k tok t. if tok = ''d'' then Some (demoClaims (Some ''s1'') (Some DeviceScope), 5) else None)\<rparr>"

lemma device_token_is_no_access_token_witness:
  "\<exists>token. issueDeviceTrackingToken faithfulEnv ''u1'' (Some ''s1'') (demoAuth []) = Inr token
     \<and> validateAccess faithfulEnv token (demoAuth []) = Inl InvalidScope"
proof -
  have iss: "issueDeviceTrackingToken faithfulEnv ''u1'' (Some ''s1'') (demoAuth []) = Inr ''d''"
    by (simp add: issueDeviceTrackingToken_def userById_def faithfulEnv_def demo_auth_defs)
  have "validateAccess faithfulEnv ''d'' (demoAuth []) = Inl InvalidTempToken
      \<or> validateAccess faithfulEnv ''d'' (demoAuth []) = Inl InvalidScope"
    by (rule device_token_is_no_access_token [OF iss]) (simp add: faithfulEnv_def)
  moreover have "validateAccess faithfulEnv ''d'' (demoAuth []) \<noteq> Inl InvalidTempToken"
    by (simp add: validateAccess_def faithfulEnv_def demo_auth_defs)
  ultimately show ?thesis using iss by blast
qed

text \<open>Revoking a user's access tokens cuts every token issued until then, for good: as long as the
  revocation entry is only left to expire, no later request with such a token is let in, because
  the entry outlives the tokens. (Tokens of the tracking worker live longer and are refused by scope.)\<close>

theorem revoked_tokens_never_return:
  assumes "redis s \<noteq> None"
    and "\<And>tok t c iat. jverify ev AccessKey tok t = Some (c, iat)
           \<Longrightarrow> cm_scope c \<in> {None, Some AccessScope} \<Longrightarrow> t div 1000 < iat + accessSeconds ev"
    and "jverify ev AccessKey token (now s2) = Some (c, iat)"
    and "0 < iat" and "iat \<le> now s div 1000" and "now s \<le> now s2" and "redis s2 = Some kept"
    and "Some (kept (revokedUserKey (cm_sub c)))
           = map_option (\<lambda>r. r (revokedUserKey (cm_sub c)))
               (redis (revokeUserAccessTokens (cm_sub c) (accessSeconds ev) s))"
  shows "\<exists>e. validateAccess ev token s2 = Inl e"
proof (cases "cm_scope c \<in> {None, Some AccessScope}")
  case scope: True
  let ?k = "revokedUserKey (cm_sub c)" and ?ttl = "max (accessSeconds ev) 1"
  have life: "now s2 div 1000 < now s div 1000 + accessSeconds ev"
    using assms(2) [OF assms(3) scope] assms(5) by simp
  have "now s2 = 1000 * (now s2 div 1000) + now s2 mod 1000" "now s2 mod 1000 < 1000"
    "now s = 1000 * (now s div 1000) + now s mod 1000" "0 \<le> now s mod 1000" by simp_all
  with life have "now s2 < now s + accessSeconds ev * 1000" by linarith
  then have "now s2 < now s + ?ttl * 1000" by (simp add: max_def)
  moreover have "kept ?k = Some \<lparr>re_value = now s div 1000 + 1, re_expires = Some (now s + ?ttl * 1000)\<rparr>"
    using assms(1,8) by (auto simp: revokeUserAccessTokens_def redisSetEx_def)
  ultimately have "live kept (now s2) ?k = Some (now s div 1000 + 1)"
    by (simp add: live_def)
  then have "cutOff ?k iat s2"
    using assms(4,5,7) by (simp add: cutOff_def)
  then show ?thesis using assms(3) by (simp add: validateAccess_def)
next
  case False
  then show ?thesis using assms(3) by (simp add: validateAccess_def)
qed

definition agingEnv :: auth_env where
  "agingEnv = demoEnv\<lparr>jverify := (\<lambda>k tok t.
     if tok = ''a'' \<and> t div 1000 < 905 then Some (demoClaims (Some ''s1'') None, 5) else None)\<rparr>"

lemma revoked_tokens_never_return_witness:
  "\<exists>e. validateAccess agingEnv ''a''
         ((revokeUserAccessTokens ''u1'' 900 (demoAuth []))\<lparr>now := 6000\<rparr>) = Inl e"
proof -
  obtain r1 where r1: "redis (revokeUserAccessTokens ''u1'' 900 (demoAuth [])) = Some r1"
    by (simp add: revokeUserAccessTokens_def demoAuth_def)
  have ev: "accessSeconds agingEnv = 900" "jverify agingEnv = (\<lambda>k tok t.
      if tok = ''a'' \<and> t div 1000 < 905 then Some (demoClaims (Some ''s1'') None, 5) else None)"
    by (simp_all add: agingEnv_def demoEnv_def)
  have sub: "cm_sub (demoClaims (Some ''s1'') None) = ''u1''" by (simp add: demoClaims_def)
  have st: "redis (demoAuth []) \<noteq> None" "now (demoAuth []) = 5000" by (simp_all add: demoAuth_def)
  show ?thesis
    by (rule revoked_tokens_never_return [where s = "demoAuth []" and ev = agingEnv and kept = r1
          and iat = 5 and c = "demoClaims (Some ''s1'') None"])
      (use r1 ev sub st in \<open>simp_all split: if_splits\<close>)
qed

end
