(* ===== verification/Auth_Token.thy ===== *)
theory Auth_Token
  imports Auth_Session
begin

text \<open>
  What the reuse detection of \<open>refresh\<close> can see of a token. The stored generations are bcrypt
  hashes of the whole refresh token, and bcrypt reads only the first 72 bytes of its input (as its
  documentation says). A signed token starts with a constant header of 37 characters and the
  base64url text of a JSON object whose first member is \<open>sub\<close>, the user, so its first 72
  characters depend on the user only. Both facts are named hypotheses on the parameters of
  \<open>auth_env\<close>; the encoding is written out so that the second one is the documented format of a
  token and not its consequence.
\<close>

definition b64char :: "nat \<Rightarrow> char" where
  "b64char n =
     (if n < 26 then char_of (65 + n) else if n < 52 then char_of (71 + n)
      else if n < 62 then char_of (n - 4) else if n = 62 then CHR ''-'' else CHR ''_'')"

fun base64url :: "nat list \<Rightarrow> string" where
  "base64url (a # b # c # rest) =
     b64char (a div 4) # b64char ((a mod 4) * 16 + b div 16)
     # b64char ((b mod 16) * 4 + c div 64) # b64char (c mod 64) # base64url rest"
| "base64url [a, b] =
     [b64char (a div 4), b64char ((a mod 4) * 16 + b div 16), b64char ((b mod 16) * 4)]"
| "base64url [a] = [b64char (a div 4), b64char ((a mod 4) * 16)]"
| "base64url [] = []"

definition bytes :: "string \<Rightarrow> nat list" where
  "bytes str = map of_char str"

definition jwtHeader :: string where
  "jwtHeader = ''eyJhbGciOiJIUzI1NiIsInR5cCI6IkpXVCJ9.''"

definition subMember :: "ident \<Rightarrow> string" where
  "subMember i = [CHR ''{'', CHR 0x22] @ ''sub'' @ [CHR 0x22, CHR '':'', CHR 0x22] @ i"

text \<open>The compact form of a signed token: header, payload, signature.\<close>

definition jwtFormat :: "auth_env \<Rightarrow> bool" where
  "jwtFormat ev \<longleftrightarrow>
     (\<forall>k c t ttl. \<exists>members signature.
        jsign ev k c t ttl = jwtHeader @ base64url (bytes (subMember (cm_sub c) @ members)) @ signature)"

text \<open>bcrypt compares what it reads, the first 72 bytes.\<close>

definition bcryptReads72 :: "auth_env \<Rightarrow> bool" where
  "bcryptReads72 ev \<longleftrightarrow> (\<forall>n x y. bcompare ev x (bhash ev n y) \<longleftrightarrow> take 72 x = take 72 y)"

lemma base64url_prefix:
  "length xs = 3 * n \<Longrightarrow> take (4 * n) (base64url (xs @ ys)) = take (4 * n) (base64url (xs @ zs))
     \<and> 4 * n \<le> length (base64url (xs @ ys))"
proof (induction n arbitrary: xs)
  case (Suc n)
  then obtain a b c rest where xs: "xs = a # b # c # rest" "length rest = 3 * n"
    by (auto simp: length_Suc_conv numeral_3_eq_3)
  have four: "4 * Suc n = Suc (Suc (Suc (Suc (4 * n))))" by simp
  from xs Suc.IH [OF xs(2)] show ?case
    unfolding four by simp
qed simp

lemma token_prefix:
  assumes "jwtFormat ev" and "cm_sub c1 = cm_sub c2" and "19 \<le> length (cm_sub c1)"
  shows "take 72 (jsign ev k1 c1 t1 l1) = take 72 (jsign ev k2 c2 t2 l2)"
proof -
  obtain m1 g1 where j1: "jsign ev k1 c1 t1 l1 = jwtHeader @ base64url (bytes (subMember (cm_sub c1) @ m1)) @ g1"
    using assms(1) unfolding jwtFormat_def by blast
  obtain m2 g2 where j2: "jsign ev k2 c2 t2 l2 = jwtHeader @ base64url (bytes (subMember (cm_sub c1) @ m2)) @ g2"
    using assms(1) unfolding jwtFormat_def assms(2) by blast
  let ?xs = "take 27 (bytes (subMember (cm_sub c1)))" and ?r = "drop 27 (bytes (subMember (cm_sub c1)))"
  have len: "length ?xs = 3 * 9" using assms(3) by (simp add: bytes_def subMember_def)
  have split: "bytes (subMember (cm_sub c1) @ m) = ?xs @ (?r @ bytes m)" for m
    by (simp add: bytes_def flip: append_assoc)
  have hdr: "length jwtHeader = 37" by (simp add: jwtHeader_def)
  have pre: "take 36 (base64url (?xs @ (?r @ bytes m1))) = take 36 (base64url (?xs @ (?r @ bytes m2)))"
      "36 \<le> length (base64url (?xs @ (?r @ bytes m1)))" "36 \<le> length (base64url (?xs @ (?r @ bytes m2)))"
    using base64url_prefix [OF len] by simp_all
  have t35: "take 35 xs = take 35 ys" if "take 36 xs = take 36 ys" for xs ys :: string
    using arg_cong [OF that, of "take 35"] by (simp add: take_take)
  have "take 72 (jwtHeader @ w @ g) = jwtHeader @ take 35 w" if "36 \<le> length w" for w g
    using that by (simp add: hdr)
  with j1 j2 pre t35 [OF pre(1)] show ?thesis by (simp only: split)
qed

text \<open>C25. The reuse detection cannot tell one refresh token of a user from another: whatever
  generation the session holds, a token signed for the same user at any time, for any session,
  passes the check, so a stolen token stays usable after any number of rotations, until it expires.\<close>

theorem stale_refresh_token_still_accepted:
  assumes "jwtFormat ev" and "bcryptReads72 ev"
    and "sessionById sid s = Some x" and "userById (ss_user x) s = Some u" and "u_active u"
    and "now s \<le> ss_expires x"
    and "ss_hash x = Some (bhash ev n (jsign ev RefreshKey current issued ttl))"
    and "cm_sub stale = cm_sub current" and "19 \<le> length (cm_sub current)"
  shows "refreshCheck ev (jsign ev RefreshKey stale before life) sid s = (Inr u, s)"
proof -
  have "take 72 (jsign ev RefreshKey stale before life) = take 72 (jsign ev RefreshKey current issued ttl)"
    using token_prefix [OF assms(1)] assms(8,9) by metis
  then have "bcompare ev (jsign ev RefreshKey stale before life) (bhash ev n (jsign ev RefreshKey current issued ttl))"
    using assms(2) by (simp add: bcryptReads72_def)
  with assms show ?thesis by (simp add: refreshCheck_def)
qed

definition jwtEnv :: auth_env where
  "jwtEnv = demoEnv\<lparr>bhash := (\<lambda>n x. take 72 x), bcompare := (\<lambda>x h. take 72 x = take 72 h),
     jsign := (\<lambda>k c t ttl. jwtHeader @ base64url (bytes (subMember (cm_sub c) @ ''}'')) @ ''.'' @ keyMark k @ replicate (nat t) CHR ''z'')\<rparr>"

definition longId :: ident where
  "longId = ''0123456789abcdef0123''"

lemma jwtEnv_laws: "jwtFormat jwtEnv" "bcryptReads72 jwtEnv"
  by (auto simp: jwtFormat_def bcryptReads72_def jwtEnv_def)

lemma jwtEnv_sign:
  "\<exists>p. \<forall>t ttl. jsign jwtEnv k c t ttl = p @ replicate (nat t) CHR ''z''"
  by (intro exI [where x = "jwtHeader @ base64url (bytes (subMember (cm_sub c) @ ''}'')) @ ''.'' @ keyMark k"] allI)
    (simp add: jwtEnv_def)

lemma stale_refresh_token_still_accepted_witness:
  "\<exists>s stale current. stale \<noteq> current \<and> refreshCheck jwtEnv stale ''s1'' s
        = (Inr (demoUser\<lparr>u_id := longId\<rparr>), s)
     \<and> map ss_hash (sessions s) = [Some (bhash jwtEnv 0 current)]"
proof -
  define claim where "claim = (demoClaims (Some ''s1'') None)\<lparr>cm_sub := longId\<rparr>"
  define old where "old = jsign jwtEnv RefreshKey claim 1 1"
  define new where "new = jsign jwtEnv RefreshKey claim 2 1"
  let ?x = "(demoSession (Some (bhash jwtEnv 0 new)) None)\<lparr>ss_user := longId\<rparr>"
  let ?u = "demoUser\<lparr>u_id := longId\<rparr>"
  let ?s = "(demoAuth [?x])\<lparr>users := [?u]\<rparr>"
  have "length (cm_sub claim) = 20" by (simp add: claim_def longId_def)
  then have "refreshCheck jwtEnv old ''s1'' ?s = (Inr ?u, ?s)"
    unfolding old_def new_def
    by (intro stale_refresh_token_still_accepted [OF jwtEnv_laws, where x = ?x and n = 0
          and current = claim and issued = 2 and ttl = 1])
      (simp_all add: sessionById_def userById_def demoAuth_def demoSession_def demoUser_def new_def)
  moreover have "old \<noteq> new"
  proof -
    obtain p where p: "jsign jwtEnv RefreshKey claim t l = p @ replicate (nat t) CHR ''z''" for t l
      using jwtEnv_sign [of RefreshKey claim] by blast
    have "length old = length p + nat 1" "length new = length p + nat 2"
      unfolding old_def new_def p by (simp_all only: length_append length_replicate)
    then show ?thesis by auto
  qed
  moreover have "map ss_hash (sessions ?s) = [Some (bhash jwtEnv 0 new)]"
    by (simp add: demoAuth_def demoSession_def)
  ultimately show ?thesis
    by (intro exI [where x = ?s] exI [where x = old] exI [where x = new] conjI)
qed

end
