(* ===== verification/Auth_Login.thy ===== *)
theory Auth_Login
  imports Auth_Lockout Auth_Session
begin

text \<open>
  The ways into the application (\<open>auth.service.ts\<close>): registration, password login, the second
  factor, password reset, sign-in with Google and the exchange of a native sign-in code. One
  definition per method; \<open>sign_in\<close> and \<open>signIn\<close> put them together with the refresh so that
  properties can speak of every way to get a session. Emails are not sent; \<open>forgotPassword\<close>
  returns the link it would send.
\<close>

definition dummyHash :: "auth_env \<Rightarrow> string" where
  "dummyHash ev = bhash ev 0 ''dummy-timing-attack-mitigation''"

definition storedPassword :: "auth_env \<Rightarrow> auth_user \<Rightarrow> string" where
  "storedPassword ev u = (if u_password u = [] then dummyHash ev else u_password u)"

definition tempClaims :: "ident \<Rightarrow> string \<Rightarrow> claims" where
  "tempClaims user jti = \<lparr>cm_sub = user, cm_email = None, cm_role = None, cm_company = None,
     cm_scope = Some PendingScope, cm_platform = False, cm_session = None, cm_jti = Some jti\<rparr>"

definition sessionFor ::
    "auth_env \<Rightarrow> auth_user \<Rightarrow> string option \<Rightarrow> string option \<Rightarrow> astate
       \<Rightarrow> (auth_error + token_response) \<times> astate" where
  "sessionFor ev u ip device s =
     (let (sid, s1) = createSession ev (u_id u) ip device s in generateTokens ev u (Some sid) None None s1)"

subsection \<open>Password and second factor\<close>

definition login ::
    "auth_env \<Rightarrow> string \<Rightarrow> string \<Rightarrow> string option \<Rightarrow> string option \<Rightarrow> astate
       \<Rightarrow> (auth_error + token_response) \<times> astate" where
  "login ev email password ip device s =
     (let e = normalizeEmail email in
      if checkLoginLockout ev e s then (Inl TooManyLogins, s)
      else (case find (\<lambda>u. u_email u = e \<and> \<not> u_deleted u) (users s) of
              None \<Rightarrow> (Inl InvalidCredentials, recordLoginFailure ev e s)
            | Some u \<Rightarrow>
                if \<not> u_active u \<or> \<not> bcompare ev password (storedPassword ev u)
                then (Inl InvalidCredentials, recordLoginFailure ev e s)
                else
                  (let s1 = clearLoginFailures ev e s in
                   if u_totpEnabled u then
                     (let (n, s2) = draw s1
                      in (Inr \<lparr>tk_access = [], tk_refresh = [], tk_user = u_id u, tk_twoFactor = True,
                             tk_temp = Some (jsign ev TempKey (tempClaims (u_id u) (uuid ev n)) (now s2) 300)\<rparr>, s2))
                   else sessionFor ev u ip device s1)))"

definition usedKey :: "string \<Rightarrow> string" where
  "usedKey jti = ''2fa:temp:used:'' @ jti"

definition consumeTemp :: "string option \<Rightarrow> astate \<Rightarrow> astate option" where
  "consumeTemp jti s =
     (case (jti, redis s) of
        (Some j, Some r) \<Rightarrow>
          if j = [] then Some s
          else (case redisSetNx (now s) (usedKey j) 1 360 r of
                  None \<Rightarrow> None | Some r1 \<Rightarrow> Some (s\<lparr>redis := Some r1\<rparr>))
      | _ \<Rightarrow> Some s)"

definition verify2faToken ::
    "auth_env \<Rightarrow> string \<Rightarrow> string \<Rightarrow> string option \<Rightarrow> string option \<Rightarrow> astate
       \<Rightarrow> (auth_error + token_response) \<times> astate" where
  "verify2faToken ev temp code ip device s =
     (case jverify ev TempKey temp (now s) of
        None \<Rightarrow> (Inl InvalidTempToken, s)
      | Some (c, iat) \<Rightarrow>
          if cm_scope c \<noteq> Some PendingScope then (Inl InvalidScope, s)
          else (case userById (cm_sub c) s of
             None \<Rightarrow> (Inl TwoFactorNotEnabled, s)
           | Some u \<Rightarrow>
               (case u_totpSecret u of
                  None \<Rightarrow> (Inl TwoFactorNotEnabled, s)
                | Some secret \<Rightarrow>
                    if \<not> u_active u \<or> \<not> u_totpEnabled u \<or> secret = [] then (Inl TwoFactorNotEnabled, s)
                    else if check2faLockout (u_id u) s then (Inl TooManyCodes, s)
                    else if \<not> totpVerify ev secret code (now s)
                    then (Inl InvalidCode, record2faFailure (u_id u) s)
                    else (case consumeTemp (cm_jti c) s of
                            None \<Rightarrow> (Inl StepAlreadyDone, s)
                          | Some s1 \<Rightarrow> sessionFor ev u ip device (clear2faFailures (u_id u) s1)))))"

subsection \<open>Password reset\<close>

definition forgotPassword :: "auth_env \<Rightarrow> string \<Rightarrow> astate \<Rightarrow> (string \<times> string) option \<times> astate" where
  "forgotPassword ev email s =
     (let e = normalizeEmail email; (n1, s1) = draw s; (n2, s2) = draw s1; (n3, s3) = draw s2;
          tokenId = uuid ev n1; raw = randomHex ev n2; hashed = bhash ev n3 raw
      in case find (\<lambda>u. u_email u = e) (users s3) of
           None \<Rightarrow> (None, s3)
         | Some u \<Rightarrow>
             (Some (e, tokenId @ '':'' @ raw),
              updateUser (u_id u) (\<lambda>v. v\<lparr>u_resetId := Some tokenId, u_resetHash := Some hashed,
                u_resetExpiry := Some (now s3 + 30 * 60 * 1000)\<rparr>) s3))"

definition resetPassword :: "auth_env \<Rightarrow> string \<Rightarrow> string \<Rightarrow> astate \<Rightarrow> (auth_error + unit) \<times> astate" where
  "resetPassword ev combined newPassword s =
     (if CHR '':'' \<notin> set combined then (Inl ResetInvalid, s)
      else
        (let tokenId = takeWhile (\<lambda>ch. ch \<noteq> CHR '':'') combined;
             raw = tl (dropWhile (\<lambda>ch. ch \<noteq> CHR '':'') combined)
         in case find (\<lambda>u. u_resetId u = Some tokenId) (users s) of
              None \<Rightarrow> (Inl ResetInvalid, s)
            | Some u \<Rightarrow>
                (case (u_resetHash u, u_resetExpiry u) of
                   (Some h, Some expiry) \<Rightarrow>
                     if h = [] \<or> expiry < now s \<or> \<not> bcompare ev raw h then (Inl ResetInvalid, s)
                     else
                       (let (n, s1) = draw s;
                            s2 = updateUser (u_id u) (\<lambda>v. v\<lparr>u_password := bhash ev n newPassword,
                                   u_resetId := None, u_resetHash := None, u_resetExpiry := None,
                                   u_legacyRefresh := None\<rparr>) s1;
                            s3 = updateSessions (\<lambda>x. ss_user x = u_id u) (\<lambda>x. x\<lparr>ss_hash := None\<rparr>) s2;
                            s4 = deleteSessions (\<lambda>x. ss_user x = u_id u) s3
                        in (Inr (), revokeUserAccessTokens (u_id u) (accessSeconds ev) s4))
                 | _ \<Rightarrow> (Inl ResetInvalid, s))))"

subsection \<open>New accounts\<close>

definition newUser ::
    "ident \<Rightarrow> string \<Rightarrow> string \<Rightarrow> user_role \<Rightarrow> ident \<Rightarrow> string option \<Rightarrow> auth_user" where
  "newUser i email hash rl company google =
     \<lparr>u_id = i, u_email = email, u_password = hash, u_role = rl, u_company = company, u_active = True,
      u_deleted = False, u_totpEnabled = False, u_totpSecret = None, u_googleId = google,
      u_resetId = None, u_resetHash = None, u_resetExpiry = None, u_legacyRefresh = None\<rparr>"

definition createCompany :: "auth_env \<Rightarrow> astate \<Rightarrow> ident \<times> astate" where
  "createCompany ev s =
     (let (n, s1) = draw s; c = uuid ev n;
          s2 = s1\<lparr>companies := companies s1 @ [\<lparr>co_id = c, co_deleted = False\<rparr>]\<rparr>
      in (c, if trialPlanExists ev
             then s2\<lparr>subscriptions := subscriptions s2
                      @ [\<lparr>sb_company = c, sb_trialEnd = now s2 + 14 * 24 * 60 * 60 * 1000\<rparr>]\<rparr>
             else s2))"

definition createUser ::
    "auth_env \<Rightarrow> string \<Rightarrow> string \<Rightarrow> user_role \<Rightarrow> ident \<Rightarrow> string option \<Rightarrow> astate
       \<Rightarrow> auth_user \<times> astate" where
  "createUser ev email hash rl company google s =
     (let (n, s1) = draw s; u = newUser (uuid ev n) email hash rl company google
      in (u, s1\<lparr>users := users s1 @ [u]\<rparr>))"

definition register ::
    "auth_env \<Rightarrow> string \<Rightarrow> string \<Rightarrow> string option \<Rightarrow> string option \<Rightarrow> astate
       \<Rightarrow> (auth_error + token_response) \<times> astate" where
  "register ev email password ip device s =
     (let e = normalizeEmail email in
      case find (\<lambda>u. u_email u = e) (users s) of
        Some _ \<Rightarrow> (Inl EmailTaken, s)
      | None \<Rightarrow>
          (let (salt, s1) = draw s;
               (company, s2) = createCompany ev s1;
               (u, s3) = createUser ev e (bhash ev salt password) AdminUser company None s2
           in generateTokens ev u None ip device s3))"

subsection \<open>Sign-in with Google and the exchange of a native code\<close>

definition knownGoogleUser ::
    "auth_env \<Rightarrow> auth_user \<Rightarrow> (auth_user \<Rightarrow> auth_user) \<Rightarrow> string option \<Rightarrow> string option \<Rightarrow> astate
       \<Rightarrow> (auth_error + token_response) \<times> astate" where
  "knownGoogleUser ev u f ip device s =
     (if \<not> u_active u then (Inl AccountDeactivated, s)
      else if u_totpEnabled u then (Inl TwoFactorRequired, s)
      else generateTokens ev u None ip device (updateUser (u_id u) f s))"

definition validateGoogleUser ::
    "auth_env \<Rightarrow> string \<Rightarrow> string \<Rightarrow> string option \<Rightarrow> string option \<Rightarrow> astate
       \<Rightarrow> (auth_error + token_response) \<times> astate" where
  "validateGoogleUser ev google profileEmail ip device s =
     (let e = normalizeEmail profileEmail in
      case find (\<lambda>u. u_googleId u = Some google) (users s) of
        Some u \<Rightarrow> knownGoogleUser ev u id ip device s
      | None \<Rightarrow>
          (case find (\<lambda>u. u_email u = e) (users s) of
             Some u \<Rightarrow> knownGoogleUser ev u (\<lambda>v. v\<lparr>u_googleId := Some google\<rparr>) ip device s
           | None \<Rightarrow>
               (let invited = find (\<lambda>v. iv_email v = e \<and> iv_pending v \<and> now s \<le> iv_expires v) (invitations s);
                    (n, s1) = draw s; (salt, s2) = draw s1; hash = bhash ev salt (randomHex ev n)
                in case invited of
                     Some v \<Rightarrow>
                       (let (u, s3) = createUser ev e hash (iv_role v) (iv_company v) (Some google) s2;
                            s4 = s3\<lparr>invitations := map (\<lambda>w. if iv_id w = iv_id v then w\<lparr>iv_pending := False\<rparr> else w)
                                      (invitations s3)\<rparr>
                        in generateTokens ev u None ip device s4)
                   | None \<Rightarrow>
                       (let (company, s3) = createCompany ev s2;
                            (u, s4) = createUser ev e hash AdminUser company (Some google) s3
                        in generateTokens ev u None ip device s4))))"

definition createSessionForUser ::
    "auth_env \<Rightarrow> ident \<Rightarrow> string option \<Rightarrow> string option \<Rightarrow> astate
       \<Rightarrow> (auth_error + token_response) \<times> astate" where
  "createSessionForUser ev user ip device s =
     (case userById user s of
        None \<Rightarrow> (Inl UserNotFound, s)
      | Some u \<Rightarrow>
          if \<not> u_active u then (Inl AccountDeactivated, s)
          else if u_totpEnabled u then (Inl TwoFactorRequired, s)
          else generateTokens ev u None ip device s)"

subsection \<open>Every way in\<close>

datatype sign_in =
  ByRegister string string
| ByLogin string string
| BySecondFactor string string
| ByGoogle string string
| ByExchange ident
| ByRefresh string

definition signIn ::
    "auth_env \<Rightarrow> transaction \<Rightarrow> sign_in \<Rightarrow> astate \<Rightarrow> (auth_error + token_response) \<times> astate" where
  "signIn ev tx q s =
     (case q of
        ByRegister email password \<Rightarrow> register ev email password None None s
      | ByLogin email password \<Rightarrow> login ev email password None None s
      | BySecondFactor temp code \<Rightarrow> verify2faToken ev temp code None None s
      | ByGoogle google email \<Rightarrow> validateGoogleUser ev google email None None s
      | ByExchange user \<Rightarrow> createSessionForUser ev user None None s
      | ByRefresh token \<Rightarrow> refresh ev tx token s)"

subsection \<open>Who gets a session\<close>

text \<open>The owners of the sessions that \<open>s'\<close> has and \<open>s\<close> has not.\<close>

definition opened :: "astate \<Rightarrow> astate \<Rightarrow> ident set" where
  "opened s s' = ss_user ` {x \<in> set (sessions s'). ss_id x \<notin> ss_id ` set (sessions s)}"

lemma opened_same [simp]: "sessions s' = sessions s \<Longrightarrow> opened s s' = {}"
  by (auto simp: opened_def)

lemma opened_sessions_cong: "sessions s = sessions t \<Longrightarrow> opened s s' = opened t s'"
  by (simp add: opened_def)

lemma lock_frames [simp]:
  "sessions (recordLoginFailure ev e s) = sessions s" "users (recordLoginFailure ev e s) = users s"
  "sessions (clearLoginFailures ev e s) = sessions s" "users (clearLoginFailures ev e s) = users s"
  "sessions (record2faFailure i s) = sessions s" "users (record2faFailure i s) = users s"
  "sessions (clear2faFailures i s) = sessions s" "users (clear2faFailures i s) = users s"
  by (simp_all add: recordLoginFailure_def clearLoginFailures_def record2faFailure_def clear2faFailures_def)

lemma consumeTemp_frames:
  assumes "consumeTemp j s = Some s1"
  shows "sessions s1 = sessions s" "users s1 = users s" "now s1 = now s"
  using assms by (auto simp: consumeTemp_def split: option.splits if_splits)

lemma generateTokens_sessions:
  assumes "generateTokens ev u given ip device s = (r, s')"
  shows "users s' = users s" "opened s s' \<subseteq> {u_id u}"
  using assms
  by (auto simp: generateTokens_def createSession_def draw_def Let_def opened_def rotateSession_def
      split: option.splits if_splits prod.splits)

lemma sessionFor_opened:
  assumes "sessionFor ev u ip device s = (r, s')"
  shows "users s' = users s" "opened s s' \<subseteq> {u_id u}"
  using assms
  by (auto simp: sessionFor_def generateTokens_def createSession_def draw_def Let_def opened_def rotateSession_def
      split: option.splits if_splits)

lemma login_opened:
  assumes "login ev email password ip device s = (r, s')"
  shows "opened s s' \<subseteq> {u_id u |u. u \<in> set (users s) \<and> \<not> u_totpEnabled u}"
proof -
  have tok: "opened s s' \<subseteq> {u_id u}" if "sessionFor ev u ip device (clearLoginFailures ev e s) = (r, s')" for u e
    using sessionFor_opened(2) [OF that] opened_sessions_cong [of "clearLoginFailures ev e s" s] by simp
  show ?thesis
    using assms
    by (auto simp: login_def Let_def draw_def find_Some_iff split: option.splits if_splits dest!: tok)
qed

lemma verify2fa_opened:
  assumes "verify2faToken ev temp code ip device s = (r, s')" and "i \<in> opened s s'"
  shows "\<exists>c iat u secret. jverify ev TempKey temp (now s) = Some (c, iat) \<and> cm_scope c = Some PendingScope
     \<and> userById (cm_sub c) s = Some u \<and> u_id u = i \<and> u_active u \<and> u_totpSecret u = Some secret
     \<and> totpVerify ev secret code (now s)"
proof -
  have tok: "i = u_id u" if "sessionFor ev u ip device (clear2faFailures k t) = (r, s')"
      "consumeTemp j s = Some t" for u k t j
    using sessionFor_opened(2) [OF that(1)] assms(2) consumeTemp_frames(1) [OF that(2)]
      opened_sessions_cong [of "clear2faFailures k t" s] by auto
  have no: "opened s s = {}" "opened s (record2faFailure k s) = {}" for k by simp_all
  show ?thesis
    using assms
    by (auto simp: verify2faToken_def no split: option.splits if_splits prod.splits dest!: tok)
qed

lemma created_frames [simp]:
  "sessions (snd (createCompany ev s)) = sessions s" "users (snd (createCompany ev s)) = users s"
  "sessions (snd (createUser ev e h rl c g s)) = sessions s"
  "u_id (fst (createUser ev e h rl c g s)) = uuid ev (entropy s)"
  "entropy s \<le> entropy (snd (createCompany ev s))"
  by (simp_all add: createCompany_def createUser_def draw_def Let_def newUser_def)

lemma generateTokens_opened_from:
  assumes "generateTokens ev u given ip device t = (r, s')" and "sessions t = sessions s"
  shows "opened s s' \<subseteq> {u_id u}"
  using generateTokens_sessions(2) [OF assms(1)] opened_sessions_cong [OF assms(2)] by simp

lemma register_opened:
  assumes "register ev email password ip device s = (r, s')"
  shows "opened s s' \<subseteq> {uuid ev n |n. entropy s \<le> n}"
proof (cases "find (\<lambda>u. u_email u = normalizeEmail email) (users s)")
  case (Some a)
  with assms show ?thesis by (simp add: register_def Let_def)
next
  case None
  let ?s1 = "s\<lparr>entropy := Suc (entropy s)\<rparr>"
  let ?c = "createCompany ev ?s1"
  let ?u = "createUser ev (normalizeEmail email) (bhash ev (entropy s) password) AdminUser (fst ?c) None (snd ?c)"
  have "generateTokens ev (fst ?u) None ip device (snd ?u) = (r, s')"
    using assms None by (simp add: register_def Let_def draw_def split_beta)
  from generateTokens_opened_from [OF this, of s] created_frames(5) [of ?s1 ev]
  show ?thesis by (force dest: Suc_leD)
qed

lemma knownGoogleUser_opened:
  assumes "knownGoogleUser ev u f ip device s = (r, s')"
  shows "opened s s' \<subseteq> (if u_totpEnabled u then {} else {u_id u})"
  using assms generateTokens_opened_from [of ev u None ip device "updateUser (u_id u) f s" r s' s]
  by (auto simp: knownGoogleUser_def split: if_splits)

lemma google_opened:
  assumes "validateGoogleUser ev google email ip device s = (r, s')"
  shows "opened s s' \<subseteq> {u_id u |u. u \<in> set (users s) \<and> \<not> u_totpEnabled u} \<union> {uuid ev n |n. entropy s \<le> n}"
proof (cases "find (\<lambda>u. u_googleId u = Some google) (users s)")
  case (Some u)
  with assms knownGoogleUser_opened [of ev u id ip device s r s'] show ?thesis
    by (auto simp: validateGoogleUser_def Let_def find_Some_iff split: if_splits)
next
  case no: None
  show ?thesis
  proof (cases "find (\<lambda>u. u_email u = normalizeEmail email) (users s)")
    case (Some u)
    with assms no knownGoogleUser_opened [of ev u "\<lambda>v. v\<lparr>u_googleId := Some google\<rparr>" ip device s r s']
    show ?thesis
      by (auto simp: validateGoogleUser_def Let_def find_Some_iff split: if_splits)
  next
    case None
    let ?s2 = "s\<lparr>entropy := Suc (Suc (entropy s))\<rparr>"
    let ?h = "bhash ev (Suc (entropy s)) (randomHex ev (entropy s))"
    obtain e rl c g t t' where t: "generateTokens ev (fst (createUser ev e ?h rl c g t)) None ip device t' = (r, s')"
        "sessions t' = sessions s" "entropy s \<le> entropy t"
    proof (cases "find (\<lambda>v. iv_email v = normalizeEmail email \<and> iv_pending v \<and> now s \<le> iv_expires v) (invitations s)")
      case (Some v)
      with assms no None that [of "normalizeEmail email" "iv_role v" "iv_company v" "Some google" ?s2]
      show ?thesis by (auto simp: validateGoogleUser_def Let_def draw_def split_beta)
    next
      case invited: None
      with assms no None created_frames(5) [of ?s2 ev]
        that [of "normalizeEmail email" AdminUser "fst (createCompany ev ?s2)" "Some google" "snd (createCompany ev ?s2)"]
      show ?thesis by (auto simp: validateGoogleUser_def Let_def draw_def split_beta)
    qed
    from generateTokens_opened_from [OF t(1,2)] t(3) show ?thesis by auto
  qed
qed

lemma exchange_opened:
  assumes "createSessionForUser ev user ip device s = (r, s')"
  shows "opened s s' \<subseteq> {u_id u |u. u \<in> set (users s) \<and> \<not> u_totpEnabled u}"
  using assms generateTokens_sessions(2) [of ev _ None ip device s r s']
  by (fastforce simp: createSessionForUser_def userById_def find_Some_iff split: option.splits if_splits)

lemma refresh_opened:
  assumes "refresh ev tx token s = (r, s')" and "rollsBack tx"
  shows "opened s s' = {}"
proof -
  have same: "opened s s' = {}" if "generateTokens ev u (Some sid) None None s = (r, s')" for u sid
    using that
    by (auto simp: generateTokens_def draw_def Let_def opened_def rotateSession_def split: option.splits if_splits)
  show ?thesis
  proof (cases "\<exists>c iat sid u s1. tx (refreshCheck ev token sid) s = (Inr u, s1)
        \<and> generateTokens ev u (Some sid) None None s1 = (r, s')")
    case True
    then obtain sid u s1 where *: "tx (refreshCheck ev token sid) s = (Inr u, s1)"
      "generateTokens ev u (Some sid) None None s1 = (r, s')" by blast
    from refreshCheck_Inr(1) [OF rollsBack_Inr [OF assms(2) *(1)]] * same show ?thesis by simp
  next
    case False
    have err: "s1 = s" if "tx f s = (Inl e, s1)" for f e s1
      using that assms(2) by (cases "f s"; cases "fst (f s)") (auto simp: rollsBack_def)
    from False assms(1) err have "s' = s"
      by (auto simp: refresh_def split: option.splits prod.splits sum.splits)
    then show ?thesis by simp
  qed
qed

subsection \<open>Locks, temporary tokens, resets\<close>

lemma login_locked_iff:
  "fst (login ev email password ip device s) = Inl TooManyLogins
     \<longleftrightarrow> checkLoginLockout ev (normalizeEmail email) s"
  by (auto simp: login_def Let_def draw_def sessionFor_def generateTokens_def createSession_def
      split: option.splits prod.splits if_splits)

definition wrongPassword :: "auth_env \<Rightarrow> string \<Rightarrow> astate \<Rightarrow> string \<Rightarrow> bool" where
  "wrongPassword ev email s password \<longleftrightarrow>
     (\<forall>u\<in>set (users s). u_email u = normalizeEmail email \<and> \<not> u_deleted u
        \<longrightarrow> \<not> bcompare ev password (storedPassword ev u))"

lemma login_wrong:
  assumes "wrongPassword ev email s password" and "\<not> checkLoginLockout ev (normalizeEmail email) s"
  shows "snd (login ev email password ip device s) = recordLoginFailure ev (normalizeEmail email) s"
  using assms by (auto simp: login_def Let_def wrongPassword_def find_Some_iff split: option.splits)

text \<open>Login attempts at the given times.\<close>

definition attemptAt :: "auth_env \<Rightarrow> string \<Rightarrow> ms \<times> string \<Rightarrow> astate \<Rightarrow> astate" where
  "attemptAt ev email a s = snd (login ev email (snd a) None None (s\<lparr>now := fst a\<rparr>))"

lemma wrongPassword_frames [simp]:
  "wrongPassword ev email (s\<lparr>now := t\<rparr>) = wrongPassword ev email s"
  "wrongPassword ev email (recordLoginFailure ev e s) = wrongPassword ev email s"
  by (simp_all add: wrongPassword_def fun_eq_iff)

lemma attempts_are_failures:
  fixes ev :: auth_env and email :: string
  defines "e \<equiv> normalizeEmail email"
  assumes "expiring (loginFailKey ev e) s" and "counterAt (loginFailKey ev e) s = Some (n, x)"
    and "list_all (wrongPassword ev email s) (map snd attempts)"
    and "sorted_wrt (\<le>) (now s # map fst attempts)" and "\<forall>t\<in>set (map fst attempts). t < x"
    and "n + int (length attempts) \<le> loginFailMaxAttempts"
  shows "fold (attemptAt ev email) attempts s
       = fold (\<lambda>t s. recordLoginFailure ev e (s\<lparr>now := t\<rparr>)) (map fst attempts) s"
  using assms(2-)
proof (induction attempts arbitrary: s n)
  case (Cons a attempts)
  let ?s = "s\<lparr>now := fst a\<rparr>"
  have c: "counterAt (loginFailKey ev e) ?s = Some (n, x)"
    using login_lock.later [OF Cons.prems(2), of "fst a"] Cons.prems(4,5) by simp
  have "\<not> checkLoginLockout ev e ?s"
    using login_lock.locked_iff [OF c] Cons.prems(6) by simp
  then have step: "attemptAt ev email a s = recordLoginFailure ev e ?s"
    unfolding attemptAt_def e_def using Cons.prems(3) by (intro login_wrong) simp_all
  note ok = login_lock.ok_later [OF Cons.prems(1), of "fst a"]
  have "fold (attemptAt ev email) attempts (recordLoginFailure ev e ?s)
      = fold (\<lambda>t s. recordLoginFailure ev e (s\<lparr>now := t\<rparr>)) (map fst attempts) (recordLoginFailure ev e ?s)"
    by (rule Cons.IH [OF login_lock.ok_fail [OF ok] login_lock.more [OF ok c]])
      (use Cons.prems in \<open>simp_all add: login_lock.fail_now wrongPassword_def\<close>)
  then show ?case by (simp add: step)
qed simp

lemma keys_apart [simp]: "usedKey j \<noteq> twoFaFailKey i" "twoFaFailKey i \<noteq> usedKey j"
  by (simp_all add: usedKey_def twoFaFailKey_def)

lemma sessionFor_frames:
  assumes "sessionFor ev u ip device s = (r, s')"
  shows "redis s' = redis s" "now s' = now s"
  using assms
  by (auto simp: sessionFor_def generateTokens_def createSession_def draw_def Let_def split: option.splits if_splits)

lemma verify2fa_uses_token:
  assumes "verify2faToken ev temp code ip device s = (Inr r, s')"
    and "jverify ev TempKey temp (now s) = Some (c, iat)" and "cm_jti c = Some j" and "j \<noteq> []"
    and "redis s = Some store"
  shows "\<exists>r1. redis s' = Some r1 \<and> live store (now s) (usedKey j) = None
       \<and> r1 (usedKey j) = Some \<lparr>re_value = 1, re_expires = Some (now s + 360000)\<rparr>"
  using assms
  by (auto simp: verify2faToken_def consumeTemp_def clear2faFailures_def redisSetNx_def redisSetEx_def
      redisDel_def split: option.splits if_splits dest!: sessionFor_frames(1))

lemma used_token_fails:
  assumes "jverify ev TempKey temp (now s) = Some (c, iat)" and "cm_jti c = Some j" and "j \<noteq> []"
    and "redis s = Some store" and "live store (now s) (usedKey j) \<noteq> None"
  shows "\<exists>e. fst (verify2faToken ev temp code ip device s) = Inl e"
  using assms by (auto simp: verify2faToken_def consumeTemp_def redisSetNx_def split: option.splits)

lemma resetPassword_Inr:
  assumes "resetPassword ev link password s = (Inr (), s')"
  obtains tokenId raw u h expiry where "link = tokenId @ CHR '':'' # raw" "CHR '':'' \<notin> set tokenId"
    "u \<in> set (users s)" "u_resetId u = Some tokenId" "u_resetHash u = Some h" "u_resetExpiry u = Some expiry"
    "now s \<le> expiry" "bcompare ev raw h"
    "sessions s' = filter (\<lambda>x. ss_user x \<noteq> u_id u) (sessions s)"
    "users s' = map (\<lambda>v. if u_id v = u_id u then v\<lparr>u_password := bhash ev (entropy s) password,
       u_resetId := None, u_resetHash := None, u_resetExpiry := None, u_legacyRefresh := None\<rparr> else v) (users s)"
    "redis s' = map_option (redisSetEx (now s) (revokedUserKey (u_id u)) (now s div 1000 + 1) (max (accessSeconds ev) 1)) (redis s)"
    "now s' = now s"
proof -
  let ?t = "takeWhile (\<lambda>ch. ch \<noteq> CHR '':'') link" and ?d = "dropWhile (\<lambda>ch. ch \<noteq> CHR '':'') link"
  have has: "CHR '':'' \<in> set link" using assms by (auto simp: resetPassword_def split: if_splits)
  then have d: "?d \<noteq> []" by (simp add: dropWhile_eq_Nil_conv)
  have "hd ?d = CHR '':''" using hd_dropWhile [OF d] by simp
  with list.collapse [OF d] have "?d = CHR '':'' # tl ?d" by simp
  with takeWhile_dropWhile_id [of "\<lambda>ch. ch \<noteq> CHR '':''" link]
  have split: "link = ?t @ CHR '':'' # tl ?d" by simp
  have cut: "filter (\<lambda>x. ss_user x \<noteq> k) (map (\<lambda>x. if ss_user x = k then x\<lparr>ss_hash := None\<rparr> else x) xs)
      = filter (\<lambda>x. ss_user x \<noteq> k) xs" for k xs
    by (rule delete_after_update) simp
  obtain u where u: "find (\<lambda>u. u_resetId u = Some ?t) (users s) = Some u"
    using assms has by (fastforce simp: resetPassword_def Let_def split: option.splits)
  obtain h expiry where h: "u_resetHash u = Some h" "u_resetExpiry u = Some expiry"
    using assms has u by (fastforce simp: resetPassword_def Let_def split: option.splits)
  have ok: "\<not> (h = [] \<or> expiry < now s \<or> \<not> bcompare ev (tl ?d) h)"
    using assms has u h by (auto simp: resetPassword_def Let_def split: if_splits)
  with assms has u h have s': "s' = revokeUserAccessTokens (u_id u) (accessSeconds ev)
      (deleteSessions (\<lambda>x. ss_user x = u_id u) (updateSessions (\<lambda>x. ss_user x = u_id u) (\<lambda>x. x\<lparr>ss_hash := None\<rparr>)
        (updateUser (u_id u) (\<lambda>v. v\<lparr>u_password := bhash ev (entropy s) password, u_resetId := None,
            u_resetHash := None, u_resetExpiry := None, u_legacyRefresh := None\<rparr>)
          (s\<lparr>entropy := Suc (entropy s)\<rparr>))))"
    by (simp add: resetPassword_def Let_def draw_def)
  have "u \<in> set (users s)" "u_resetId u = Some ?t" using u by (auto simp: find_Some_iff)
  moreover have "CHR '':'' \<notin> set ?t" by (auto dest: set_takeWhileD)
  ultimately show thesis
    by (intro that [OF split _ _ _ h]) (use ok in \<open>simp_all add: s' cut revokeUserAccessTokens_def updateUser_def\<close>)
qed

subsection \<open>Properties\<close>

text \<open>C20. The second factor guards every way in: for an account with two-factor authentication, no
  registration, password login, Google sign-in, code exchange or refresh opens a session; only a
  valid one-time code sent with a temporary token of that account does.\<close>

theorem two_factor_guards_every_sign_in:
  assumes "signIn ev tx q s = (r, s')" and "rollsBack tx"
    and "distinct (map u_id (users s))" and "userById i s = Some u" and "u_totpEnabled u"
    and "\<And>n. entropy s \<le> n \<Longrightarrow> uuid ev n \<noteq> i" and "i \<in> opened s s'"
  shows "\<exists>temp code c iat secret. q = BySecondFactor temp code
     \<and> jverify ev TempKey temp (now s) = Some (c, iat) \<and> cm_scope c = Some PendingScope \<and> cm_sub c = i
     \<and> u_totpSecret u = Some secret \<and> totpVerify ev secret code (now s)"
proof -
  have row: "v = u" if "v \<in> set (users s)" "u_id v = i" for v
    using that assms(3,4) find_id [of u_id i "users s" u] inj_onD [of u_id "set (users s)" v u]
    by (auto simp: distinct_map userById_def)
  then have plain: "i \<notin> {u_id v |v. v \<in> set (users s) \<and> \<not> u_totpEnabled v}"
    using assms(5) by auto
  show ?thesis
  proof (cases q)
    case (BySecondFactor temp code)
    then have "verify2faToken ev temp code None None s = (r, s')" using assms(1) by (simp add: signIn_def)
    from verify2fa_opened [OF this assms(7)] obtain c iat v secret where
      v: "jverify ev TempKey temp (now s) = Some (c, iat)" "cm_scope c = Some PendingScope"
        "userById (cm_sub c) s = Some v" "u_id v = i" "u_totpSecret v = Some secret"
        "totpVerify ev secret code (now s)" by blast
    then have "cm_sub c = i" "v = u"
      using find_id [of u_id "cm_sub c" "users s" v] row by (auto simp: userById_def)
    with v BySecondFactor show ?thesis by blast
  next
    case (ByRegister email password)
    with assms(1) register_opened [of ev email password None None s r s'] assms(6,7) show ?thesis
      by (auto simp: signIn_def)
  next
    case (ByLogin email password)
    with assms(1) login_opened [of ev email password None None s r s'] plain assms(7) show ?thesis
      by (auto simp: signIn_def)
  next
    case (ByGoogle google email)
    with assms(1) google_opened [of ev google email None None s r s'] plain assms(6,7) show ?thesis
      by (auto simp: signIn_def)
  next
    case (ByExchange user)
    with assms(1) exchange_opened [of ev user None None s r s'] plain assms(7) show ?thesis
      by (auto simp: signIn_def)
  next
    case (ByRefresh token)
    with assms(1,2,7) refresh_opened [of ev tx token s r s'] show ?thesis by (simp add: signIn_def)
  qed
qed

definition totpUser :: auth_user where
  "totpUser = demoUser\<lparr>u_totpEnabled := True, u_totpSecret := Some ''123''\<rparr>"

definition twoFaState :: astate where
  "twoFaState = (demoAuth [])\<lparr>users := [totpUser]\<rparr>"

definition twoFaEnv :: auth_env where
  "twoFaEnv = demoEnv\<lparr>jverify := (\<lambda>k tok t. if k = TempKey \<and> tok = ''T1'' \<and> t div 1000 < 305
     then Some (tempClaims ''u1'' ''j1'', 5) else None)\<rparr>"

lemmas two_fa_demo = totpUser_def twoFaState_def twoFaEnv_def tempClaims_def

lemma demo_second_factor:
  "\<exists>r s'. verify2faToken twoFaEnv ''T1'' ''123'' None None twoFaState = (Inr r, s') \<and> ''u1'' \<in> opened twoFaState s'"
  by (simp add: verify2faToken_def userById_def check2faLockout_def isLocked_def live_def consumeTemp_def
      redisSetNx_def clear2faFailures_def sessionFor_def createSession_def generateTokens_def draw_def Let_def
      opened_def rotateSession_def two_fa_demo demo_auth_defs)

lemma two_factor_guards_every_sign_in_witness:
  "\<exists>r s'. signIn twoFaEnv demoTx (BySecondFactor ''T1'' ''123'') twoFaState = (r, s')
     \<and> (\<exists>temp code c iat secret. BySecondFactor ''T1'' ''123'' = BySecondFactor temp code
     \<and> jverify twoFaEnv TempKey temp (now twoFaState) = Some (c, iat) \<and> cm_scope c = Some PendingScope
     \<and> cm_sub c = ''u1'' \<and> u_totpSecret totpUser = Some secret \<and> totpVerify twoFaEnv secret code (now twoFaState))"
proof -
  obtain r s' where *: "signIn twoFaEnv demoTx (BySecondFactor ''T1'' ''123'') twoFaState = (Inr r, s')"
    "''u1'' \<in> opened twoFaState s'" using demo_second_factor by (auto simp: signIn_def)
  have "set (uuid twoFaEnv n) \<subseteq> {CHR ''i''}" for n
    by (auto simp: twoFaEnv_def demoEnv_def)
  moreover have "\<not> set ''u1'' \<subseteq> {CHR ''i''}" by simp
  ultimately have "uuid twoFaEnv n \<noteq> ''u1''" for n by metis
  then have out: "\<exists>temp code c iat secret. BySecondFactor ''T1'' ''123'' = BySecondFactor temp code
     \<and> jverify twoFaEnv TempKey temp (now twoFaState) = Some (c, iat) \<and> cm_scope c = Some PendingScope
     \<and> cm_sub c = ''u1'' \<and> u_totpSecret totpUser = Some secret \<and> totpVerify twoFaEnv secret code (now twoFaState)"
    by (intro two_factor_guards_every_sign_in [OF *(1) demoTx_rolls _ _ _ _ *(2)])
      (simp_all add: userById_def two_fa_demo demo_auth_defs)
  show ?thesis by (rule exI, rule exI, rule conjI [OF *(1) out])
qed

text \<open>C28. A temporary token opens at most one session: once it has been exchanged with a valid code, no
  later request with the same token succeeds, whatever the code, as long as the mark of its use is
  only left to expire, because the mark outlives the token.\<close>

theorem temporary_token_is_single_use:
  assumes "verify2faToken ev temp code ip device s = (Inr r, s1)" and "redis s = Some store"
    and "jverify ev TempKey temp (now s) = Some (c, iat)" and "cm_jti c = Some j" and "j \<noteq> []"
    and "iat \<le> now s div 1000"
    and "\<And>t c2 iat2. jverify ev TempKey temp t = Some (c2, iat2) \<Longrightarrow> c2 = c \<and> t div 1000 < iat + 300"
    and "now s \<le> now s2" and "redis s2 = Some kept"
    and "Some (kept (usedKey j)) = map_option (\<lambda>r. r (usedKey j)) (redis s1)"
  shows "\<exists>e. fst (verify2faToken ev temp code2 ip2 device2 s2) = Inl e"
proof (cases "jverify ev TempKey temp (now s2)")
  case None
  then show ?thesis by (simp add: verify2faToken_def)
next
  case (Some v)
  obtain iat2 where v: "jverify ev TempKey temp (now s2) = Some (c, iat2)" "now s2 div 1000 < iat + 300"
    using assms(7) Some by (cases v) blast
  with assms(6) have "now s2 div 1000 < now s div 1000 + 300" by linarith
  moreover have "now s2 = 1000 * (now s2 div 1000) + now s2 mod 1000" "now s2 mod 1000 < 1000"
    "now s = 1000 * (now s div 1000) + now s mod 1000" "0 \<le> now s mod 1000" by simp_all
  ultimately have "now s2 < now s + 360000" by linarith
  with verify2fa_uses_token [OF assms(1,3,4,5,2)] assms(10)
  have "live kept (now s2) (usedKey j) \<noteq> None" by (auto simp: live_def)
  from used_token_fails [OF v(1) assms(4,5,9) this] show ?thesis .
qed

lemma temporary_token_is_single_use_witness:
  "\<exists>s1 e. snd (verify2faToken twoFaEnv ''T1'' ''123'' None None twoFaState) = s1
     \<and> fst (verify2faToken twoFaEnv ''T1'' ''123'' None None (s1\<lparr>now := 9000\<rparr>)) = Inl e"
proof -
  obtain r s1 where run: "verify2faToken twoFaEnv ''T1'' ''123'' None None twoFaState = (Inr r, s1)"
    using demo_second_factor by blast
  have ver: "jverify twoFaEnv TempKey ''T1'' (now twoFaState) = Some (tempClaims ''u1'' ''j1'', 5)"
    by (simp add: twoFaEnv_def twoFaState_def demoAuth_def)
  have red: "redis twoFaState = Some Map.empty" by (simp add: twoFaState_def demoAuth_def)
  obtain kept where kept: "redis s1 = Some kept"
    using verify2fa_uses_token [OF run ver _ _ red, of "''j1''"] by (auto simp: tempClaims_def)
  have "\<exists>e. fst (verify2faToken twoFaEnv ''T1'' ''123'' None None (s1\<lparr>now := 9000\<rparr>)) = Inl e"
    by (rule temporary_token_is_single_use [OF run red ver, of "''j1''" "s1\<lparr>now := 9000\<rparr>" kept])
      (use kept in \<open>auto simp: tempClaims_def twoFaEnv_def twoFaState_def demoAuth_def split: if_splits\<close>)
  with run show ?thesis by simp
qed


definition resetState :: astate where
  "resetState = (demoAuth [demoSession None None])\<lparr>users := [demoUser\<lparr>u_resetExpiry := Some 9000\<rparr>]\<rparr>"


text \<open>Fifteen wrong passwords lock the account for the rest of the window: when no failure is
  counted for an email, a first wrong password followed by up to fourteen others inside fifteen
  minutes makes the next attempt, whatever its password, fail with the lock exactly when the
  fifteen are reached; once the window is over no attempt fails with the lock.\<close>

theorem failed_logins_lock_the_account:
  assumes "redis s \<noteq> None" and "expiring (loginFailKey ev (normalizeEmail email)) s"
    and "counterAt (loginFailKey ev (normalizeEmail email)) s = None"
    and "wrongPassword ev email s p" and "list_all (wrongPassword ev email s) (map snd attempts)"
    and "length attempts \<le> 14" and "sorted_wrt (\<le>) (now s # map fst attempts @ [t])"
    and "\<forall>x\<in>set (map fst attempts). x < now s + 900000"
  shows "fst (login ev email good ip device
            ((fold (attemptAt ev email) attempts (attemptAt ev email (now s, p) s))\<lparr>now := t\<rparr>)) = Inl TooManyLogins
         \<longleftrightarrow> length attempts = 14 \<and> t < now s + 900000"
proof -
  let ?e = "normalizeEmail email" and ?x = "now s + 900000"
  let ?k = "loginFailKey ev ?e" and ?f = "recordLoginFailure ev (normalizeEmail email)"
  have "\<not> checkLoginLockout ev ?e s" by (rule login_lock.free [OF assms(2,3)])
  with assms(4) have first: "attemptAt ev email (now s, p) s = ?f s"
    by (simp add: attemptAt_def login_wrong)
  have one: "counterAt ?k (?f s) = Some (1, ?x)"
    using login_lock.first [OF assms(2,3,1)] by (simp add: loginFailWindowSeconds_def)
  note ok = login_lock.ok_fail [OF assms(2)]
  have order: "sorted_wrt (\<le>) (now s # map fst attempts)" using assms(7) by (auto simp: sorted_wrt_append)
  have run: "fold (attemptAt ev email) attempts (?f s)
      = fold (\<lambda>t s. ?f (s\<lparr>now := t\<rparr>)) (map fst attempts) (?f s)"
    by (rule attempts_are_failures [OF ok one])
      (use assms(5,6,8) order in \<open>simp_all add: login_lock.fail_now wrongPassword_def loginFailMaxAttempts_def\<close>)
  have cnt: "counterAt ?k (fold (\<lambda>t s. ?f (s\<lparr>now := t\<rparr>)) (map fst attempts) (?f s))
        = Some (1 + int (length attempts), ?x)"
      "now (fold (\<lambda>t s. ?f (s\<lparr>now := t\<rparr>)) (map fst attempts) (?f s)) = last (now s # map fst attempts)"
    using login_lock.failures_count [OF ok one, of "map fst attempts"] assms(8) order
    by (simp_all add: login_lock.fail_now)
  have "last (now s # map fst attempts) \<le> t"
    using assms(7) last_in_set [of "now s # map fst attempts"] by (auto simp: sorted_wrt_append)
  note at = login_lock.later [OF cnt(1), of t, unfolded cnt(2), OF this]
  show ?thesis
  proof (cases "t < ?x")
    case True
    with at have "checkLoginLockout ev ?e ((fold (\<lambda>t s. ?f (s\<lparr>now := t\<rparr>)) (map fst attempts) (?f s))\<lparr>now := t\<rparr>)
        \<longleftrightarrow> loginFailMaxAttempts \<le> 1 + int (length attempts)"
      by (intro login_lock.locked_iff) simp
    with True assms(6) show ?thesis
      by (auto simp: login_locked_iff first run loginFailMaxAttempts_def)
  next
    case False
    have "expiring ?k (fold (\<lambda>t s. ?f (s\<lparr>now := t\<rparr>)) ts (?f s))" for ts
      by (induction ts rule: rev_induct) (simp_all add: ok login_lock.ok_fail login_lock.ok_later)
    with False at have "\<not> checkLoginLockout ev ?e ((fold (\<lambda>t s. ?f (s\<lparr>now := t\<rparr>)) (map fst attempts) (?f s))\<lparr>now := t\<rparr>)"
      by (intro login_lock.free) (simp_all add: login_lock.ok_later)
    with False show ?thesis by (simp add: login_locked_iff first run)
  qed
qed

lemma failed_logins_lock_the_account_witness:
  "fst (login demoEnv ''A@b '' ''pw'' None None
     ((fold (attemptAt demoEnv ''A@b '') (replicate 14 (6000, ''no''))
        (attemptAt demoEnv ''A@b '' (now (demoAuth []), ''no'') (demoAuth [])))\<lparr>now := 7000\<rparr>)) = Inl TooManyLogins"
proof -
  let ?s = "demoAuth []"
  have st: "redis ?s \<noteq> None" "expiring k ?s" "counterAt k ?s = None" "now ?s = 5000" for k
    by (simp_all add: demoAuth_def expiring_def counterAt_def)
  have wrong: "wrongPassword demoEnv ''A@b '' ?s ''no''"
    by (simp add: wrongPassword_def storedPassword_def demo_auth_defs)
  have "fst (login demoEnv ''A@b '' ''pw'' None None
      ((fold (attemptAt demoEnv ''A@b '') (replicate 14 (6000, ''no''))
        (attemptAt demoEnv ''A@b '' (now ?s, ''no'') ?s))\<lparr>now := 7000\<rparr>)) = Inl TooManyLogins
      \<longleftrightarrow> length (replicate 14 (6000::ms, ''no'')) = 14 \<and> 7000 < now ?s + 900000"
    by (rule failed_logins_lock_the_account [OF st(1-3) wrong])
      (simp_all add: st(4) wrong sorted_wrt_append list_all_iff map_replicate_const)
  then show ?thesis by (simp only: st(4) length_replicate) simp
qed

end
