(* ===== verification/Auth_Relay.thy ===== *)
theory Auth_Relay
  imports DT_Prelude
begin

text \<open>
  The native sign-in relay (\<open>oauth-relay.service.ts\<close>): \<open>begin\<close> stores the PKCE challenge of the
  application under a nonce, \<open>issueCode\<close> trades the nonce for an exchange code bound to a user
  and that challenge, \<open>verifyAndConsumeCode\<close> trades the code for the user. The service keeps its
  entries in Redis or, without Redis, in two maps of the process; both backends are modelled and
  both satisfy the locale \<open>relay\<close>, in which the protocol is proved once. The challenge function
  (SHA-256, base64url) and the random nonces and codes are arguments.
\<close>

definition RELAY_TTL_MS :: ms where "RELAY_TTL_MS = 10 * 60 * 1000"
definition CODE_TTL_MS :: ms where "CODE_TTL_MS = 60 * 1000"

datatype relay_op =
  OpBegin string string
| OpValid string
| OpIssue string ident string
| OpConsume string string
| OpClean

datatype relay_answer = Done | Valid bool | Code "string option" | User "ident option"

definition safeEqual :: "string \<Rightarrow> string \<Rightarrow> bool" where
  "safeEqual a b \<longleftrightarrow> length a = length b \<and> a = b"

subsection \<open>Entries in Redis\<close>

record redis_relay =
  rr_relays :: "string \<rightharpoonup> string \<times> ms"
  rr_codes :: "string \<rightharpoonup> (ident \<times> string) \<times> ms"

definition unexpired :: "ms \<Rightarrow> 'v \<times> ms \<Rightarrow> 'v option" where
  "unexpired t e = (if t < snd e then Some (fst e) else None)"

definition redisRelay :: "(string \<Rightarrow> string) \<Rightarrow> relay_op \<Rightarrow> ms \<Rightarrow> redis_relay \<Rightarrow> relay_answer \<times> redis_relay" where
  "redisRelay derive q t s =
     (case q of
        OpBegin rid ch \<Rightarrow> (Done, s\<lparr>rr_relays := (rr_relays s)(rid \<mapsto> (ch, t + RELAY_TTL_MS))\<rparr>)
      | OpValid rid \<Rightarrow> (Valid (Option.bind (rr_relays s rid) (unexpired t) \<noteq> None), s)
      | OpIssue rid user code \<Rightarrow>
          (case Option.bind (rr_relays s rid) (unexpired t) of
             None \<Rightarrow> (Code None, s)
           | Some ch \<Rightarrow> (Code (Some code),
               s\<lparr>rr_relays := (rr_relays s)(rid := None),
                 rr_codes := (rr_codes s)(code \<mapsto> ((user, ch), t + CODE_TTL_MS))\<rparr>))
      | OpConsume code verifier \<Rightarrow>
          (case Option.bind (rr_codes s code) (unexpired t) of
             None \<Rightarrow> (User None, s)
           | Some (user, ch) \<Rightarrow>
               (User (if safeEqual (derive verifier) ch then Some user else None),
                s\<lparr>rr_codes := (rr_codes s)(code := None)\<rparr>))
      | OpClean \<Rightarrow> (Done, s))"

subsection \<open>Entries in the process\<close>

record mem_code =
  mc_user :: ident
  mc_challenge :: string
  mc_expires :: ms
  mc_used :: bool

record mem_relay =
  memRelays :: "string \<rightharpoonup> string \<times> ms"
  memCodes :: "string \<rightharpoonup> mem_code"

definition cleanupMemory :: "ms \<Rightarrow> mem_relay \<Rightarrow> mem_relay" where
  "cleanupMemory t s =
     s\<lparr>memRelays := (\<lambda>k. case memRelays s k of Some (ch, e) \<Rightarrow> if e < t then None else Some (ch, e) | None \<Rightarrow> None),
       memCodes := (\<lambda>k. case memCodes s k of Some c \<Rightarrow> if mc_expires c < t then None else Some c | None \<Rightarrow> None)\<rparr>"

definition memoryRelay :: "(string \<Rightarrow> string) \<Rightarrow> relay_op \<Rightarrow> ms \<Rightarrow> mem_relay \<Rightarrow> relay_answer \<times> mem_relay" where
  "memoryRelay derive q t s =
     (case q of
        OpBegin rid ch \<Rightarrow> (Done, s\<lparr>memRelays := (memRelays s)(rid \<mapsto> (ch, t + RELAY_TTL_MS))\<rparr>)
      | OpValid rid \<Rightarrow>
          (case memRelays s rid of
             None \<Rightarrow> (Valid False, s)
           | Some (ch, e) \<Rightarrow>
               if e < t then (Valid False, s\<lparr>memRelays := (memRelays s)(rid := None)\<rparr>) else (Valid True, s))
      | OpIssue rid user code \<Rightarrow>
          (case memRelays s rid of
             None \<Rightarrow> (Code None, s)
           | Some (ch, e) \<Rightarrow>
               if e < t then (Code None, s)
               else (Code (Some code),
                 s\<lparr>memRelays := (memRelays s)(rid := None),
                   memCodes := (memCodes s)(code \<mapsto> \<lparr>mc_user = user, mc_challenge = ch,
                     mc_expires = t + CODE_TTL_MS, mc_used = False\<rparr>)\<rparr>))
      | OpConsume code verifier \<Rightarrow>
          (case memCodes s code of
             None \<Rightarrow> (User None, s)
           | Some c \<Rightarrow>
               (let s1 = s\<lparr>memCodes := (memCodes s)(code := None)\<rparr> in
                if mc_used c \<or> mc_expires c < t then (User None, s1)
                else (User (if safeEqual (derive verifier) (mc_challenge c) then Some (mc_user c) else None), s1)))
      | OpClean \<Rightarrow> (Done, cleanupMemory t s))"

subsection \<open>Sequences of requests\<close>

definition relayRun :: "(relay_op \<Rightarrow> ms \<Rightarrow> 's \<Rightarrow> relay_answer \<times> 's) \<Rightarrow> (ms \<times> relay_op) list \<Rightarrow> 's \<Rightarrow> 's" where
  "relayRun step evs s = fold (\<lambda>(t, q) s. snd (step q t s)) evs s"

fun relayAnswers :: "(relay_op \<Rightarrow> ms \<Rightarrow> 's \<Rightarrow> relay_answer \<times> 's) \<Rightarrow> (ms \<times> relay_op) list \<Rightarrow> 's \<Rightarrow> relay_answer list" where
  "relayAnswers step [] s = []"
| "relayAnswers step ((t, q) # evs) s = fst (step q t s) # relayAnswers step evs (snd (step q t s))"

lemma relayRun_simps [simp]:
  "relayRun step [] s = s" "relayRun step (evs @ [(t, q)]) s = snd (step q t (relayRun step evs s))"
  by (simp_all add: relayRun_def)

subsection \<open>The contract\<close>

text \<open>\<open>waiting t s\<close> are the nonces that still count at time \<open>t\<close>, \<open>pending t s\<close> the codes;
  \<open>alive t e\<close> says that an entry expiring at \<open>e\<close> counts at \<open>t\<close>, and a backend is free only
  at the very instant of expiry.\<close>

locale relay =
  fixes step :: "relay_op \<Rightarrow> ms \<Rightarrow> 's \<Rightarrow> relay_answer \<times> 's"
    and empty :: 's
    and derive :: "string \<Rightarrow> string"
    and alive :: "ms \<Rightarrow> ms \<Rightarrow> bool"
    and waiting :: "ms \<Rightarrow> 's \<Rightarrow> string \<rightharpoonup> string"
    and pending :: "ms \<Rightarrow> 's \<Rightarrow> string \<rightharpoonup> ident \<times> string"
    and ok :: "'s \<Rightarrow> bool"
  assumes alive: "t < e \<Longrightarrow> alive t e" "e < t \<Longrightarrow> \<not> alive t e"
    and empty: "ok empty" "waiting t empty = Map.empty" "pending t empty = Map.empty"
    and ok_step: "ok s \<Longrightarrow> ok (snd (step q t s))"
    and begins: "ok s \<Longrightarrow> t \<le> t' \<Longrightarrow> waiting t' (snd (step (OpBegin rid ch) t s))
        = (waiting t' s)(rid := (if alive t' (t + RELAY_TTL_MS) then Some ch else None))
      \<and> pending t' (snd (step (OpBegin rid ch) t s)) = pending t' s"
    and valid: "ok s \<Longrightarrow> fst (step (OpValid rid) t s) = Valid (waiting t s rid \<noteq> None)"
      "ok s \<Longrightarrow> t \<le> t' \<Longrightarrow> waiting t' (snd (step (OpValid rid) t s)) = waiting t' s
         \<and> pending t' (snd (step (OpValid rid) t s)) = pending t' s"
    and issue: "ok s \<Longrightarrow> fst (step (OpIssue rid user code) t s)
        = Code (if waiting t s rid = None then None else Some code)"
      "ok s \<Longrightarrow> t \<le> t' \<Longrightarrow> waiting t' (snd (step (OpIssue rid user code) t s)) = (waiting t' s)(rid := None)"
      "ok s \<Longrightarrow> t \<le> t' \<Longrightarrow> pending t' (snd (step (OpIssue rid user code) t s))
        = (case waiting t s rid of None \<Rightarrow> pending t' s
           | Some ch \<Rightarrow> (pending t' s)(code := (if alive t' (t + CODE_TTL_MS) then Some (user, ch) else None)))"
    and consume: "ok s \<Longrightarrow> fst (step (OpConsume code verifier) t s)
        = User (case pending t s code of None \<Rightarrow> None
                | Some (user, ch) \<Rightarrow> if derive verifier = ch then Some user else None)"
      "ok s \<Longrightarrow> t \<le> t' \<Longrightarrow> pending t' (snd (step (OpConsume code verifier) t s)) = (pending t' s)(code := None)"
      "ok s \<Longrightarrow> t \<le> t' \<Longrightarrow> waiting t' (snd (step (OpConsume code verifier) t s)) = waiting t' s"
    and clean: "ok s \<Longrightarrow> t \<le> t' \<Longrightarrow> waiting t' (snd (step OpClean t s)) = waiting t' s
        \<and> pending t' (snd (step OpClean t s)) = pending t' s"
    and lapse: "t \<le> t' \<Longrightarrow> waiting t s k = None \<Longrightarrow> waiting t' s k = None"
begin

lemma run_ok: "ok s \<Longrightarrow> ok (relayRun step evs s)"
  by (induction evs rule: rev_induct) (auto simp: ok_step)

lemma alive_bound: "alive t e \<Longrightarrow> t \<le> e"
  using alive(2) [of e t] by linarith

text \<open>One step at a time \<open>t\<close>, seen at a later time: what counts afterwards counted before or was
  stored by the step.\<close>

lemma waiting_step:
  assumes "ok s" and "t \<le> t'" and "waiting t' (snd (step q t s)) rid = Some ch"
  shows "waiting t' s rid = Some ch \<or> q = OpBegin rid ch \<and> t' \<le> t + RELAY_TTL_MS"
  using assms begins [OF assms(1,2)] valid(2) [OF assms(1,2)] issue(2) [OF assms(1,2)]
    consume(3) [OF assms(1,2)] clean [OF assms(1,2)] alive_bound
  by (cases q) (auto split: if_splits)

lemma pending_step:
  assumes "ok s" and "t \<le> t'" and "pending t' (snd (step q t s)) code = Some (user, ch)"
  shows "pending t' s code = Some (user, ch) \<and> (\<forall>v. q \<noteq> OpConsume code v)
       \<or> (\<exists>rid. q = OpIssue rid user code \<and> waiting t s rid = Some ch \<and> t' \<le> t + CODE_TTL_MS)"
  using assms begins [OF assms(1,2)] valid(2) [OF assms(1,2)] issue(3) [OF assms(1,2)]
    consume(2) [OF assms(1,2)] clean [OF assms(1,2)] alive_bound
  by (cases q) (auto split: if_splits option.splits)

lemma waiting_was_begun:
  assumes "sorted (map fst evs @ [t'])" and "waiting t' (relayRun step evs empty) rid = Some ch"
  shows "\<exists>t0. (t0, OpBegin rid ch) \<in> set evs \<and> t' \<le> t0 + RELAY_TTL_MS"
  using assms
proof (induction evs rule: rev_induct)
  case Nil
  then show ?case by (simp add: empty(2))
next
  case (snoc e evs)
  obtain t q where e: "e = (t, q)" by fastforce
  from waiting_step [OF run_ok [OF empty(1)], of t t' q evs rid ch] snoc e show ?case
    by (auto simp: sorted_append)
qed

lemma pending_was_issued:
  assumes "sorted (map fst evs @ [t'])" and "pending t' (relayRun step evs empty) code = Some (user, ch)"
  shows "\<exists>pre t1 rid post t0. evs = pre @ (t1, OpIssue rid user code) # post
     \<and> (t0, OpBegin rid ch) \<in> set pre \<and> t1 \<le> t0 + RELAY_TTL_MS \<and> t' \<le> t1 + CODE_TTL_MS
     \<and> (\<forall>v. OpConsume code v \<notin> snd ` set post)"
  using assms
proof (induction evs rule: rev_induct)
  case Nil
  then show ?case by (simp add: empty(3))
next
  case (snoc e evs)
  obtain t q where e: "e = (t, q)" by fastforce
  have times: "t \<le> t'" "sorted (map fst evs @ [t'])" "sorted (map fst evs @ [t])"
    using snoc.prems(1) e by (auto simp: sorted_append)
  from pending_step [OF run_ok [OF empty(1)] times(1), of q evs code user ch] snoc.prems(2) e
  consider "pending t' (relayRun step evs empty) code = Some (user, ch)" "\<forall>v. q \<noteq> OpConsume code v"
    | rid where "q = OpIssue rid user code" "waiting t (relayRun step evs empty) rid = Some ch" "t' \<le> t + CODE_TTL_MS"
    by auto
  then show ?case
  proof cases
    case 1
    from snoc.IH [OF times(2) 1(1)] obtain pre t1 rid post t0 where
      *: "evs = pre @ (t1, OpIssue rid user code) # post" "(t0, OpBegin rid ch) \<in> set pre"
        "t1 \<le> t0 + RELAY_TTL_MS" "t' \<le> t1 + CODE_TTL_MS" "\<forall>v. OpConsume code v \<notin> snd ` set post" by blast
    have "evs @ [e] = pre @ (t1, OpIssue rid user code) # (post @ [e])" using *(1) by simp
    moreover have "\<forall>v. OpConsume code v \<notin> snd ` set (post @ [e])" using *(5) 1(2) e by auto
    ultimately show ?thesis using *(2-4) by blast
  next
    case (2 rid)
    with waiting_was_begun [OF times(3) 2(2)] e show ?thesis by fastforce
  qed
qed

lemma exchange_origin:
  assumes "sorted (map fst evs @ [t])"
    and "fst (step (OpConsume code verifier) t (relayRun step evs empty)) = User (Some user)"
  shows "\<exists>pre t1 rid post t0. evs = pre @ (t1, OpIssue rid user code) # post
     \<and> (t0, OpBegin rid (derive verifier)) \<in> set pre \<and> t1 \<le> t0 + RELAY_TTL_MS \<and> t \<le> t1 + CODE_TTL_MS
     \<and> (\<forall>v. OpConsume code v \<notin> snd ` set post)"
proof -
  from assms(2) have "pending t (relayRun step evs empty) code = Some (user, derive verifier)"
    by (auto simp: consume(1) run_ok empty(1) split: option.splits if_splits)
  from pending_was_issued [OF assms(1) this] show ?thesis .
qed

end

subsection \<open>Both backends keep it\<close>

definition emptyRedisRelay :: redis_relay where
  "emptyRedisRelay = \<lparr>rr_relays = Map.empty, rr_codes = Map.empty\<rparr>"

definition emptyMemRelay :: mem_relay where
  "emptyMemRelay = \<lparr>memRelays = Map.empty, memCodes = Map.empty\<rparr>"

definition redisWaiting :: "ms \<Rightarrow> redis_relay \<Rightarrow> string \<rightharpoonup> string" where
  "redisWaiting t s k = Option.bind (rr_relays s k) (unexpired t)"

definition redisPending :: "ms \<Rightarrow> redis_relay \<Rightarrow> string \<rightharpoonup> ident \<times> string" where
  "redisPending t s k = Option.bind (rr_codes s k) (unexpired t)"

definition memWaiting :: "ms \<Rightarrow> mem_relay \<Rightarrow> string \<rightharpoonup> string" where
  "memWaiting t s k = (case memRelays s k of Some (ch, e) \<Rightarrow> if t \<le> e then Some ch else None | None \<Rightarrow> None)"

definition memPending :: "ms \<Rightarrow> mem_relay \<Rightarrow> string \<rightharpoonup> ident \<times> string" where
  "memPending t s k =
     (case memCodes s k of
        Some c \<Rightarrow> if t \<le> mc_expires c then Some (mc_user c, mc_challenge c) else None
      | None \<Rightarrow> None)"

definition allFresh :: "mem_relay \<Rightarrow> bool" where
  "allFresh s \<longleftrightarrow> (\<forall>c\<in>ran (memCodes s). \<not> mc_used c)"

interpretation redis_relay: relay "redisRelay derive" emptyRedisRelay derive "(<)" redisWaiting redisPending "\<lambda>s. True"
  for derive
  by unfold_locales
    (auto simp: redisRelay_def redisWaiting_def redisPending_def emptyRedisRelay_def unexpired_def fun_eq_iff
      safeEqual_def split: option.splits bind_splits if_splits)

lemma mem_fresh: "allFresh s \<Longrightarrow> allFresh (snd (memoryRelay derive q t s))"
  by (cases q)
    (auto simp: memoryRelay_def cleanupMemory_def allFresh_def ran_def Let_def split: option.splits if_splits)

interpretation mem_relay: relay "memoryRelay derive" emptyMemRelay derive "(\<le>)" memWaiting memPending allFresh
  for derive
  by (unfold_locales; (erule mem_fresh)?)
    (auto simp: memoryRelay_def memWaiting_def memPending_def emptyMemRelay_def fun_eq_iff cleanupMemory_def
      allFresh_def ran_def safeEqual_def Let_def split: option.splits if_splits)

subsection \<open>The backends agree\<close>

locale relay_twins = a: relay stepA emptyA derive aliveA waitingA pendingA okA
    + b: relay stepB emptyB derive aliveB waitingB pendingB okB
  for stepA :: "relay_op \<Rightarrow> ms \<Rightarrow> 'a \<Rightarrow> relay_answer \<times> 'a" and emptyA derive aliveA waitingA pendingA okA
    and stepB :: "relay_op \<Rightarrow> ms \<Rightarrow> 'b \<Rightarrow> relay_answer \<times> 'b" and emptyB aliveB waitingB pendingB okB +
  assumes unit_answers: "fst (stepA (OpBegin rid ch) t s) = Done" "fst (stepB (OpBegin rid ch) t s') = Done"
    "fst (stepA OpClean t s) = Done" "fst (stepB OpClean t s') = Done"
begin

text \<open>Equal at every instant to come, but at an instant of expiry.\<close>

definition same :: "ms set \<Rightarrow> ms \<Rightarrow> 'a \<Rightarrow> 'b \<Rightarrow> bool" where
  "same bad t x y \<longleftrightarrow> okA x \<and> okB y
     \<and> (\<forall>t'\<ge>t. t' \<notin> bad \<longrightarrow> waitingA t' x = waitingB t' y \<and> pendingA t' x = pendingB t' y)"

lemma alive_same: "t \<noteq> e \<Longrightarrow> aliveA t e = aliveB t e"
  using a.alive(1) [of t e] a.alive(2) [of e t] b.alive(1) [of t e] b.alive(2) [of e t] by (cases t e rule: linorder_cases) auto

lemma same_step:
  assumes "same bad t x y" and "t \<notin> bad" and "t + RELAY_TTL_MS \<in> bad" and "t + CODE_TTL_MS \<in> bad"
  shows "fst (stepA q t x) = fst (stepB q t y)" "same bad t (snd (stepA q t x)) (snd (stepB q t y))"
proof -
  have ok: "okA x" "okB y" and eq: "waitingA t x = waitingB t y" "pendingA t x = pendingB t y"
    using assms(1,2) by (auto simp: same_def)
  show "fst (stepA q t x) = fst (stepB q t y)"
    by (cases q) (simp_all add: unit_answers a.valid(1) b.valid(1) a.issue(1) b.issue(1) a.consume(1) b.consume(1) ok eq)
  have "waitingA t' (snd (stepA q t x)) = waitingB t' (snd (stepB q t y))
      \<and> pendingA t' (snd (stepA q t x)) = pendingB t' (snd (stepB q t y))" if t: "t \<le> t'" "t' \<notin> bad" for t'
  proof -
    have eq': "waitingA t' x = waitingB t' y" "pendingA t' x = pendingB t' y"
      using assms(1) t by (auto simp: same_def)
    have al: "aliveA t' (t + RELAY_TTL_MS) = aliveB t' (t + RELAY_TTL_MS)"
      "aliveA t' (t + CODE_TTL_MS) = aliveB t' (t + CODE_TTL_MS)"
      using assms(3,4) t(2) by (metis alive_same)+
    show ?thesis
      by (cases q)
        (simp_all add: a.begins b.begins a.valid(2) b.valid(2) a.issue(2,3) b.issue(2,3) a.consume(2,3)
          b.consume(2,3) a.clean b.clean ok t(1) eq eq' al split: option.split)
  qed
  then show "same bad t (snd (stepA q t x)) (snd (stepB q t y))"
    using ok by (auto simp: same_def a.ok_step b.ok_step)
qed

lemma answers_agree:
  assumes "same bad t0 x y" and "sorted (t0 # map fst evs)"
    and "\<forall>t\<in>set (map fst evs). t \<notin> bad \<and> t + RELAY_TTL_MS \<in> bad \<and> t + CODE_TTL_MS \<in> bad"
  shows "relayAnswers stepA evs x = relayAnswers stepB evs y"
  using assms
proof (induction evs arbitrary: t0 x y)
  case (Cons e evs)
  obtain t q where e: "e = (t, q)" by fastforce
  have "same bad t x y" using Cons.prems(1,2) e by (auto simp: same_def)
  note st = same_step [OF this, of q]
  from Cons.IH [of t "snd (stepA q t x)" "snd (stepB q t y)"] Cons.prems(2,3) st e show ?case by simp
qed simp

lemma same_empty: "same bad t emptyA emptyB"
  by (simp add: same_def a.empty b.empty)

end

interpretation twins: relay_twins "redisRelay derive" emptyRedisRelay derive "(<)" redisWaiting redisPending "\<lambda>s. True"
    "memoryRelay derive" emptyMemRelay "(\<le>)" memWaiting memPending allFresh for derive
  by unfold_locales (simp_all add: redisRelay_def memoryRelay_def)

subsection \<open>Properties\<close>

text \<open>A native sign-in code opens a session only for the application that began the sign-in: on
  either backend, an exchange succeeds only with the verifier whose challenge was stored by a
  \<open>begin\<close>, for the user whose code was issued on that nonce at most ten minutes later, at most
  sixty seconds ago, and not exchanged (successfully or not) since.\<close>

theorem exchange_needs_the_verifier:
  assumes "sorted (map fst evs @ [t])"
    and "fst (redisRelay derive (OpConsume code verifier) t (relayRun (redisRelay derive) evs emptyRedisRelay)) = User (Some user)
       \<or> fst (memoryRelay derive (OpConsume code verifier) t (relayRun (memoryRelay derive) evs emptyMemRelay)) = User (Some user)"
  shows "\<exists>pre t1 rid post t0. evs = pre @ (t1, OpIssue rid user code) # post
     \<and> (t0, OpBegin rid (derive verifier)) \<in> set pre \<and> t1 \<le> t0 + RELAY_TTL_MS \<and> t \<le> t1 + CODE_TTL_MS
     \<and> (\<forall>v. OpConsume code v \<notin> snd ` set post)"
  using assms(2)
  by (elim disjE) (erule redis_relay.exchange_origin [OF assms(1)], erule mem_relay.exchange_origin [OF assms(1)])

lemma exchange_needs_the_verifier_witness:
  "\<exists>pre t1 rid post t0. [(0, OpBegin ''n'' ''v''), (5, OpIssue ''n'' ''u1'' ''c'')] = pre @ (t1, OpIssue rid ''u1'' ''c'') # post
     \<and> (t0, OpBegin rid (id ''v'')) \<in> set pre \<and> t1 \<le> t0 + RELAY_TTL_MS \<and> 9 \<le> t1 + CODE_TTL_MS
     \<and> (\<forall>v. OpConsume ''c'' v \<notin> snd ` set post)"
  by (rule exchange_needs_the_verifier)
    (simp_all add: relayRun_def redisRelay_def emptyRedisRelay_def unexpired_def RELAY_TTL_MS_def CODE_TTL_MS_def safeEqual_def)

text \<open>C37. The two backends of the relay are interchangeable: over any chronological sequence of
  requests they give the same answers, unless a request comes exactly sixty seconds or ten minutes
  after another one, the instants at which Redis has dropped an entry and the map has not.\<close>

theorem relay_backends_agree:
  assumes "sorted (map fst evs)"
    and "\<forall>t\<in>set (map fst evs). \<forall>t0\<in>set (map fst evs). t \<noteq> t0 + RELAY_TTL_MS \<and> t \<noteq> t0 + CODE_TTL_MS"
  shows "relayAnswers (redisRelay derive) evs emptyRedisRelay = relayAnswers (memoryRelay derive) evs emptyMemRelay"
proof (cases evs)
  case (Cons e rest)
  let ?bad = "(\<lambda>t. t + RELAY_TTL_MS) ` set (map fst evs) \<union> (\<lambda>t. t + CODE_TTL_MS) ` set (map fst evs)"
  show ?thesis
    by (rule twins.answers_agree [OF twins.same_empty, of "fst e" _ ?bad])
      (use assms Cons in auto)
qed simp

lemma relay_backends_agree_witness:
  "relayAnswers (redisRelay id) [(0, OpBegin ''n'' ''v''), (5, OpIssue ''n'' ''u1'' ''c''), (9, OpConsume ''c'' ''v'')] emptyRedisRelay
   = relayAnswers (memoryRelay id) [(0, OpBegin ''n'' ''v''), (5, OpIssue ''n'' ''u1'' ''c''), (9, OpConsume ''c'' ''v'')] emptyMemRelay"
  by (rule relay_backends_agree) (simp_all add: RELAY_TTL_MS_def CODE_TTL_MS_def)

end
