(* ===== verification/Tracking_Data.thy ===== *)
theory Tracking_Data
  imports Delivery_Data
begin

text \<open>
  The state of \<open>backend/src/modules/tracking\<close>: the rows of vehicles, drivers, deliveries,
  positions, geofences and geofence events that the services query, the company settings, the
  cache service (a key-value store whose entries expire) and the effects, appended to an outbox.
  The deliveries are those of \<open>Delivery_Data\<close>. \<open>findFirst\<close> with an order on the timestamp is
  \<open>newest\<close>; the unique index on vehicle and timestamp leaves no ties.
\<close>

datatype position_source = Phone | PhysicalTracker

record track_vehicle =
  tv_id :: ident
  tv_company :: ident
  tv_deleted :: bool
  tv_active :: bool
  tv_source :: position_source
  tv_created :: ms

record track_driver =
  td_id :: ident
  td_user :: "ident option"
  td_active :: bool
  td_deleted :: bool
  td_vehicle :: "ident option"

text \<open>\<open>UpdatePositionDto\<close> after validation.\<close>

record position_dto =
  po_vehicle :: ident
  po_delivery :: "ident option"
  po_lat :: real
  po_lng :: real
  po_speed :: "real option"
  po_heading :: "real option"
  po_altitude :: "real option"
  po_acc :: "real option"
  po_time :: ms

record gps_position =
  gp_vehicle :: ident
  gp_delivery :: "ident option"
  gp_driver :: "ident option"
  gp_company :: ident
  gp_lat :: real
  gp_lng :: real
  gp_speed :: "real option"
  gp_heading :: "real option"
  gp_altitude :: "real option"
  gp_acc :: "real option"
  gp_suspect :: bool
  gp_time :: ms
  gp_source :: position_source

record company_settings =
  cs_speedLimit :: "real option"
  cs_stopMinutes :: "real option"
  cs_offlineMinutes :: "real option"

record geofence =
  gf_id :: ident
  gf_delivery :: ident
  gf_lat :: real
  gf_lng :: real
  gf_radius :: real

record fence_event =
  fe_fence :: ident
  fe_vehicle :: ident
  fe_delivery :: ident
  fe_entry :: bool

datatype track_effect =
  SpeedAlert ident ident int "ident option"
| StopAlert ident ident int "ident option"
| DelayAlert ident ident int "ident option"
| OfflineAlert ident ident int "ident option"
| FenceAlert ident ident ident bool "ident option"
| FenceUpdate ident ident bool
| ProximityAlert ident ident ident ident nat
| SilenceAlert ident ident "int option" "ident option"

datatype cache_value = Flag | Num int | Journal ms

type_synonym cache = "string \<rightharpoonup> cache_value \<times> ms"

record metrics =
  m_received :: nat
  m_saved :: nat
  m_deduped :: nat
  m_teleported :: nat
  m_batchSaved :: nat
  m_rateLimited :: nat
  m_batchRateLimited :: nat

record tstate =
  ts_vehicles :: "track_vehicle list"
  ts_drivers :: "track_driver list"
  ts_deliveries :: "(ident \<times> delivery) list"
  ts_positions :: "gps_position list"
  ts_settings :: "ident \<rightharpoonup> company_settings"
  ts_fences :: "geofence list"
  ts_fenceEvents :: "fence_event list"
  ts_lastDelivery :: "ident \<rightharpoonup> ident"
  ts_cache :: cache
  ts_metrics :: metrics
  ts_outbox :: "track_effect list"
  ts_now :: ms

subsection \<open>Cache\<close>

definition cacheGet :: "ms \<Rightarrow> string \<Rightarrow> cache \<Rightarrow> cache_value option" where
  "cacheGet t k c = (case c k of Some (v, e) \<Rightarrow> if t < e then Some v else None | None \<Rightarrow> None)"

definition cacheSet :: "ms \<Rightarrow> string \<Rightarrow> cache_value \<Rightarrow> int \<Rightarrow> cache \<Rightarrow> cache" where
  "cacheSet t k v secs c = c(k \<mapsto> (v, t + secs * 1000))"

definition startsWith :: "string \<Rightarrow> string \<Rightarrow> bool" where
  "startsWith k pre \<longleftrightarrow> take (length pre) k = pre"

definition cacheInvalidate :: "string \<Rightarrow> cache \<Rightarrow> cache" where
  "cacheInvalidate pre c = (\<lambda>k. if startsWith k pre then None else c k)"

lemma cacheGet_set [simp]:
  "cacheGet t' j (cacheSet t k v secs c)
     = (if j = k then (if t' < t + secs * 1000 then Some v else None) else cacheGet t' j c)"
  by (simp add: cacheGet_def cacheSet_def)

text \<open>The pattern of the alerts: do it unless the key is set, and set the key.\<close>

definition cooldown :: "string \<Rightarrow> int \<Rightarrow> tstate \<Rightarrow> bool \<times> tstate" where
  "cooldown k secs s =
     (case cacheGet (ts_now s) k (ts_cache s) of
        Some _ \<Rightarrow> (False, s)
      | None \<Rightarrow> (True, s\<lparr>ts_cache := cacheSet (ts_now s) k Flag secs (ts_cache s)\<rparr>))"

definition alertOut :: "track_effect list \<Rightarrow> tstate \<Rightarrow> tstate" where
  "alertOut es s = s\<lparr>ts_outbox := ts_outbox s @ es\<rparr>"

definition whenCool :: "string \<Rightarrow> int \<Rightarrow> track_effect list \<Rightarrow> tstate \<Rightarrow> tstate" where
  "whenCool k secs es s = (let (go, s1) = cooldown k secs s in if go then alertOut es s1 else s1)"

lemma alertOut_simps [simp, frame_simps]:
  "ts_outbox (alertOut es s) = ts_outbox s @ es" "ts_cache (alertOut es s) = ts_cache s"
  "ts_now (alertOut es s) = ts_now s" "ts_positions (alertOut es s) = ts_positions s"
  "ts_fences (alertOut es s) = ts_fences s" "ts_fenceEvents (alertOut es s) = ts_fenceEvents s"
  "ts_deliveries (alertOut es s) = ts_deliveries s" "ts_drivers (alertOut es s) = ts_drivers s"
  "ts_settings (alertOut es s) = ts_settings s" "ts_vehicles (alertOut es s) = ts_vehicles s"
  by (simp_all add: alertOut_def)

subsection \<open>Queries on positions\<close>

fun newestOf :: "gps_position option \<Rightarrow> gps_position list \<Rightarrow> gps_position option" where
  "newestOf best [] = best"
| "newestOf best (g # gs) =
     newestOf (case best of None \<Rightarrow> Some g | Some b \<Rightarrow> if gp_time b < gp_time g then Some g else Some b) gs"

definition newest :: "(gps_position \<Rightarrow> bool) \<Rightarrow> gps_position list \<Rightarrow> gps_position option" where
  "newest p rows = newestOf None (filter p rows)"

definition getLastPosition :: "ident \<Rightarrow> bool \<Rightarrow> tstate \<Rightarrow> gps_position option" where
  "getLastPosition vehicle excludeSuspect s =
     newest (\<lambda>g. gp_vehicle g = vehicle \<and> (excludeSuspect \<longrightarrow> \<not> gp_suspect g)) (ts_positions s)"

lemma newestOf_spec:
  "newestOf best gs = Some g \<Longrightarrow> (g \<in> set gs \<or> best = Some g)
     \<and> (\<forall>h\<in>set gs. gp_time h \<le> gp_time g) \<and> (\<forall>b. best = Some b \<longrightarrow> gp_time b \<le> gp_time g)"
proof (induction gs arbitrary: best)
  case (Cons h gs)
  then show ?case
    by (cases best) (force split: if_splits)+
qed simp

lemma newestOf_None: "newestOf best gs = None \<longleftrightarrow> best = None \<and> gs = []"
  by (induction best gs rule: newestOf.induct) (auto split: option.splits)

lemma newest_spec:
  "newest p rows = Some g \<Longrightarrow> g \<in> set rows \<and> p g \<and> (\<forall>h\<in>set rows. p h \<longrightarrow> gp_time h \<le> gp_time g)"
  unfolding newest_def by (drule newestOf_spec) auto

lemma newest_None: "newest p rows = None \<longleftrightarrow> (\<forall>h\<in>set rows. \<not> p h)"
  by (auto simp: newest_def newestOf_None filter_empty_conv)

subsection \<open>A fleet of one, for the examples\<close>

definition vanId :: ident where "vanId = ''van-000000000001''"
definition jobId :: ident where "jobId = ''job-000000000001''"
definition acmeId :: ident where "acmeId = ''acme''"

lemma long_ids [simp]:
  "length vanId = 16" "length jobId = 16" "vanId \<noteq> []" "jobId \<noteq> []" "vanId \<noteq> jobId" "jobId \<noteq> vanId" "acmeId \<noteq> []"
  by (simp_all add: vanId_def jobId_def acmeId_def)

definition fleetInfo :: delivery_info where
  "fleetInfo = \<lparr>description = None, pickupAddress = [], pickupPoint = (None, None),
     pickupLocationLabel = None, deliveryLocationLabel = None, scheduledDate = None,
     noteText = None, clientPhone = None, amount = None, articlePrice = None,
     productDescription = None\<rparr>"

definition fleetJob :: delivery where
  "fleetJob = \<lparr>companyId = acmeId, title = ''T1'', status = InProgress, deliveryAddress = ''A'',
     deliveryLat = Some 0, deliveryLng = Some 0, vehicleId = Some vanId, driverId = Some ''drv'',
     assignedDriverId = Some ''usr'', clientId = None, completedAt = None, proofLat = None,
     proofLng = None, proofDistance = None, proofAccuracy = None, locationMismatch = False,
     mismatchResolved = False, externalOrderRef = None, tourSequence = None, deletedAt = None,
     info = fleetInfo\<rparr>"

definition van :: track_vehicle where
  "van = \<lparr>tv_id = vanId, tv_company = acmeId, tv_deleted = False, tv_active = True, tv_source = Phone,
     tv_created = 0\<rparr>"

definition noMetrics :: metrics where
  "noMetrics = \<lparr>m_received = 0, m_saved = 0, m_deduped = 0, m_teleported = 0, m_batchSaved = 0,
     m_rateLimited = 0, m_batchRateLimited = 0\<rparr>"

definition fleet :: tstate where
  "fleet = \<lparr>ts_vehicles = [van],
     ts_drivers = [\<lparr>td_id = ''drv'', td_user = Some ''usr'', td_active = True, td_deleted = False, td_vehicle = Some vanId\<rparr>],
     ts_deliveries = [(jobId, fleetJob)], ts_positions = [],
     ts_settings = [acmeId \<mapsto> \<lparr>cs_speedLimit = Some 90, cs_stopMinutes = Some 15, cs_offlineMinutes = Some 60\<rparr>],
     ts_fences = [\<lparr>gf_id = ''gate'', gf_delivery = jobId, gf_lat = 0, gf_lng = 0, gf_radius = 100\<rparr>],
     ts_fenceEvents = [], ts_lastDelivery = Map.empty, ts_cache = Map.empty, ts_metrics = noMetrics,
     ts_outbox = [], ts_now = 0\<rparr>"

definition fixAt :: "ms \<Rightarrow> real \<Rightarrow> position_dto" where
  "fixAt t v = \<lparr>po_vehicle = vanId, po_delivery = Some jobId, po_lat = 0, po_lng = 0, po_speed = Some v,
     po_heading = None, po_altitude = None, po_acc = Some 10, po_time = t\<rparr>"

definition storedAt :: "ms \<Rightarrow> real \<Rightarrow> gps_position" where
  "storedAt t v = \<lparr>gp_vehicle = vanId, gp_delivery = Some jobId, gp_driver = Some ''drv'', gp_company = acmeId,
     gp_lat = 0, gp_lng = 0, gp_speed = Some v, gp_heading = None, gp_altitude = None, gp_acc = Some 10,
     gp_suspect = False, gp_time = t, gp_source = Phone\<rparr>"

end
