(* ===== verification/Tracking_Alerts.thy ===== *)
theory Tracking_Alerts
  imports Tracking_Data Geo
begin

text \<open>
  What a stored position triggers: \<open>generateAlerts\<close> of \<open>tracking.service.ts\<close> (speed, prolonged
  stop, delay, signal lost, geofences), \<open>geofence.service.ts\<close> and
  \<open>delivery-proximity.service.ts\<close>. The alerts that are throttled share the locale \<open>throttled\<close>.
\<close>

definition STOP_SPEED_THRESHOLD_MS :: real where "STOP_SPEED_THRESHOLD_MS = 3 / 10"
definition SPEED_SMOOTHING_WINDOW :: nat where "SPEED_SMOOTHING_WINDOW = 5"
definition STATIONARY_RADIUS_M :: real where "STATIONARY_RADIUS_M = 30"
definition PROXIMITY_THRESHOLD_M :: real where "PROXIMITY_THRESHOLD_M = 300"
definition ESCALATION_AFTER_MS :: ms where "ESCALATION_AFTER_MS = 15 * 60 * 1000"
definition SNOOZE_MS :: ms where "SNOOZE_MS = 5 * 60 * 1000"
definition ESCALATION_SNOOZE_MS :: ms where "ESCALATION_SNOOZE_MS = 2 * 60 * 1000"

subsection \<open>Geofences\<close>

definition insideFence :: "real \<Rightarrow> real \<Rightarrow> geofence \<Rightarrow> bool" where
  "insideFence lat lng f \<longleftrightarrow> haversineDistance lat lng (gf_lat f) (gf_lng f) \<le> gf_radius f"

definition lastEntry :: "fence_event list \<Rightarrow> ident \<Rightarrow> bool" where
  "lastEntry events i = (case find (\<lambda>e. fe_fence e = i) events of Some e \<Rightarrow> fe_entry e | None \<Rightarrow> False)"

text \<open>The events, newest first; the fences in the order of the query.\<close>

fun fenceLoop ::
    "ident \<Rightarrow> ident \<Rightarrow> real \<Rightarrow> real \<Rightarrow> (ident \<Rightarrow> bool) \<Rightarrow> geofence list \<Rightarrow> fence_event list
       \<Rightarrow> (ident \<times> bool) list \<times> fence_event list" where
  "fenceLoop delivery vehicle lat lng before [] rows = ([], rows)"
| "fenceLoop delivery vehicle lat lng before (f # fs) rows =
     (let now = insideFence lat lng f in
      if now \<noteq> before (gf_id f) then
        (let (fired, rows1) = fenceLoop delivery vehicle lat lng before fs
               (\<lparr>fe_fence = gf_id f, fe_vehicle = vehicle, fe_delivery = delivery, fe_entry = now\<rparr> # rows)
         in ((gf_id f, now) # fired, rows1))
      else fenceLoop delivery vehicle lat lng before fs rows)"

definition checkGeofences ::
    "ident \<Rightarrow> ident \<Rightarrow> real \<Rightarrow> real \<Rightarrow> tstate \<Rightarrow> (ident \<times> bool) list \<times> tstate" where
  "checkGeofences delivery vehicle lat lng s =
     (let fences = filter (\<lambda>f. gf_delivery f = delivery) (ts_fences s) in
      if fences = [] then ([], s)
      else
        (let mine = filter (\<lambda>e. fe_vehicle e = vehicle \<and> fe_delivery e = delivery) (ts_fenceEvents s);
             (fired, rows) = fenceLoop delivery vehicle lat lng (lastEntry mine) fences (ts_fenceEvents s)
         in (fired, s\<lparr>ts_fenceEvents := rows\<rparr>)))"

definition emitGeofenceEvents ::
    "ident \<Rightarrow> ident \<Rightarrow> real \<Rightarrow> real \<Rightarrow> ident \<Rightarrow> ident option \<Rightarrow> tstate \<Rightarrow> tstate" where
  "emitGeofenceEvents delivery vehicle lat lng company user s =
     (let (fired, s1) = checkGeofences delivery vehicle lat lng s
      in alertOut (concat (map (\<lambda>(f, entry). [FenceAlert company delivery f entry user, FenceUpdate company f entry])
           fired)) s1)"

subsection \<open>Alerts of a position\<close>

definition speedKey :: "ident \<Rightarrow> string" where "speedKey v = ''speed_alert:'' @ v"
definition delayKey :: "ident \<Rightarrow> string" where "delayKey v = ''delay_alert:'' @ v"

lemma alert_keys [simp]:
  "speedKey v = speedKey w \<longleftrightarrow> v = w" "delayKey v = delayKey w \<longleftrightarrow> v = w"
  "speedKey v \<noteq> delayKey w" "delayKey w \<noteq> speedKey v"
  by (simp_all add: speedKey_def delayKey_def)

definition speedAlert :: "ident \<Rightarrow> ident option \<Rightarrow> position_dto \<Rightarrow> company_settings \<Rightarrow> tstate \<Rightarrow> tstate" where
  "speedAlert company user dto st s =
     (case (po_speed dto, cs_speedLimit st) of
        (Some v, Some limit) \<Rightarrow>
          if limit \<noteq> 0 \<and> limit < v * (36 / 10)
          then whenCool (speedKey (po_vehicle dto)) 300
                 [SpeedAlert company (po_vehicle dto) (js_round (v * (36 / 10))) user] s
          else s
      | _ \<Rightarrow> s)"

definition stopAlert ::
    "ident \<Rightarrow> ident option \<Rightarrow> position_dto \<Rightarrow> gps_position option \<Rightarrow> company_settings \<Rightarrow> tstate \<Rightarrow> tstate" where
  "stopAlert company user dto prev st s =
     (case (prev, cs_stopMinutes st, po_speed dto) of
        (Some g, Some minutes, Some v) \<Rightarrow>
          (let stoppedMin = real_of_int (po_time dto - gp_time g) / 60000;
               bothSlow = v < STOP_SPEED_THRESHOLD_MS
                 \<and> (case gp_speed g of Some w \<Rightarrow> w < STOP_SPEED_THRESHOLD_MS | None \<Rightarrow> False);
               dwelled = haversineDistance (gp_lat g) (gp_lng g) (po_lat dto) (po_lng dto) \<le> STATIONARY_RADIUS_M
           in if minutes \<noteq> 0 \<and> (bothSlow \<or> dwelled) \<and> minutes \<le> stoppedMin
              then alertOut [StopAlert company (po_vehicle dto) (js_round stoppedMin) user] s else s)
      | _ \<Rightarrow> s)"

definition getAverageSpeed :: "ident \<Rightarrow> ident \<Rightarrow> tstate \<Rightarrow> real option" where
  "getAverageSpeed vehicle delivery s =
     (let rows = take SPEED_SMOOTHING_WINDOW (rev (sort_key gp_time
                   (filter (\<lambda>g. gp_vehicle g = vehicle \<and> gp_delivery g = Some delivery) (ts_positions s))));
          speeds = List.map_filter gp_speed rows
      in if speeds = [] then None else Some (sum_list speeds / real (length speeds)))"

definition delayAlert :: "ident \<Rightarrow> ident option \<Rightarrow> position_dto \<Rightarrow> tstate \<Rightarrow> tstate" where
  "delayAlert company user dto s =
     (case (po_delivery dto, po_speed dto) of
        (Some di, Some v) \<Rightarrow>
          (case map_of (ts_deliveries s) di of
             Some d \<Rightarrow>
               (case (deliveryLat d, deliveryLng d, scheduledDate (info d)) of
                  (Some a, Some b, Some sched) \<Rightarrow>
                    (let distance = haversineDistance (po_lat dto) (po_lng dto) a b;
                         speed = nullish (getAverageSpeed (po_vehicle dto) di s) v;
                         eta = \<lfloor>real_of_int (po_time dto) + distance / speed * 1000\<rfloor>
                     in if di \<noteq> [] \<and> 0 < v \<and> a \<noteq> 0 \<and> b \<noteq> 0 \<and> 0 < speed \<and> sched < eta
                        then whenCool (delayKey (po_vehicle dto)) 900
                               [DelayAlert company (po_vehicle dto)
                                  (js_round (real_of_int (eta - sched) / 60000)) user] s
                        else s)
                | _ \<Rightarrow> s)
           | None \<Rightarrow> s)
      | _ \<Rightarrow> s)"

definition offlineAlert ::
    "ident \<Rightarrow> ident option \<Rightarrow> position_dto \<Rightarrow> gps_position option \<Rightarrow> company_settings \<Rightarrow> tstate \<Rightarrow> tstate" where
  "offlineAlert company user dto prev st s =
     (case (case prev of Some g \<Rightarrow> Some g | None \<Rightarrow> getLastPosition (po_vehicle dto) False s, cs_offlineMinutes st) of
        (Some g, Some minutes) \<Rightarrow>
          (let gapMin = real_of_int (po_time dto - gp_time g) / 60000
           in if minutes \<noteq> 0 \<and> minutes < gapMin \<and> po_speed dto \<noteq> None
              then alertOut [OfflineAlert company (po_vehicle dto) (js_round gapMin) user] s else s)
      | _ \<Rightarrow> s)"

definition alertUser :: "ident option \<Rightarrow> tstate \<Rightarrow> ident option" where
  "alertUser driver s =
     (case driver of
        Some d \<Rightarrow> if d = [] then None else Option.bind (find (\<lambda>r. td_id r = d) (ts_drivers s)) td_user
      | None \<Rightarrow> None)"

definition generateAlerts ::
    "position_dto \<Rightarrow> ident \<Rightarrow> ident option \<Rightarrow> gps_position option \<Rightarrow> tstate \<Rightarrow> tstate" where
  "generateAlerts dto company driver prev s =
     (case ts_settings s company of
        None \<Rightarrow> s
      | Some st \<Rightarrow>
          (let user = alertUser driver s;
               s1 = speedAlert company user dto st s;
               s2 = stopAlert company user dto prev st s1;
               s3 = delayAlert company user dto s2;
               s4 = offlineAlert company user dto prev st s3
           in case po_delivery dto of
                Some di \<Rightarrow>
                  if di = [] then s4
                  else emitGeofenceEvents di (po_vehicle dto) (po_lat dto) (po_lng dto) company user s4
              | None \<Rightarrow> s4))"

subsection \<open>Proximity\<close>

definition proximityKey :: "ident \<Rightarrow> ident \<Rightarrow> string" where
  "proximityKey delivery vehicle = ''proximity:entered:'' @ delivery @ '':'' @ vehicle"

definition snoozeKey :: "ident \<Rightarrow> ident \<Rightarrow> string" where
  "snoozeKey delivery vehicle = ''proximity:snoozed:'' @ delivery @ '':'' @ vehicle"

definition getEnteredTime :: "ident \<Rightarrow> ident \<Rightarrow> tstate \<Rightarrow> ms option" where
  "getEnteredTime delivery vehicle s =
     (case cacheGet (ts_now s) (proximityKey delivery vehicle) (ts_cache s) of Some (Num n) \<Rightarrow> Some n | _ \<Rightarrow> None)"

definition setEnteredTime :: "ident \<Rightarrow> ident \<Rightarrow> ms \<Rightarrow> tstate \<Rightarrow> tstate" where
  "setEnteredTime delivery vehicle t s =
     s\<lparr>ts_cache := cacheSet (ts_now s) (proximityKey delivery vehicle) (Num t) 86400 (ts_cache s)\<rparr>"

definition removeEnteredTime :: "ident \<Rightarrow> ident \<Rightarrow> tstate \<Rightarrow> tstate" where
  "removeEnteredTime delivery vehicle s = s\<lparr>ts_cache := (ts_cache s)(proximityKey delivery vehicle := None)\<rparr>"

definition isSnoozed :: "ident \<Rightarrow> ident \<Rightarrow> tstate \<Rightarrow> bool" where
  "isSnoozed delivery vehicle s =
     (case cacheGet (ts_now s) (snoozeKey delivery vehicle) (ts_cache s) of Some (Num n) \<Rightarrow> ts_now s < n | _ \<Rightarrow> False)"

definition snoozeProximity :: "ident \<Rightarrow> ident \<Rightarrow> nat \<Rightarrow> tstate \<Rightarrow> tstate" where
  "snoozeProximity delivery vehicle level s =
     (let snoozeMs = (if 2 \<le> level then ESCALATION_SNOOZE_MS else SNOOZE_MS)
      in s\<lparr>ts_cache := cacheSet (ts_now s) (snoozeKey delivery vehicle) (Num (ts_now s + snoozeMs))
             (snoozeMs div 1000) (ts_cache s)\<rparr>)"

definition escalationLevel :: "ms \<Rightarrow> nat" where
  "escalationLevel timeInZone =
     (if ESCALATION_AFTER_MS < timeInZone then 2
      else if real_of_int ESCALATION_AFTER_MS / 2 < real_of_int timeInZone then 1 else 0)"

definition inProgressFor :: "ident \<Rightarrow> tstate \<Rightarrow> (ident \<times> delivery) option" where
  "inProgressFor driver s =
     find (\<lambda>(i, d). driverId d = Some driver \<and> status d = InProgress \<and> deletedAt d = None
             \<and> deliveryLat d \<noteq> None \<and> deliveryLng d \<noteq> None) (ts_deliveries s)"

definition checkProximity ::
    "ident \<Rightarrow> ident \<Rightarrow> ident \<Rightarrow> real \<Rightarrow> real \<Rightarrow> tstate \<Rightarrow> tstate" where
  "checkProximity driver vehicle company lat lng s =
     (case Option.bind (find (\<lambda>r. td_id r = driver) (ts_drivers s)) td_user of
        None \<Rightarrow> s
      | Some user \<Rightarrow>
          (case inProgressFor driver s of
             None \<Rightarrow>
               (case ts_lastDelivery s vehicle of
                  None \<Rightarrow> s
                | Some old \<Rightarrow>
                    (removeEnteredTime old vehicle s)\<lparr>ts_lastDelivery := (ts_lastDelivery s)(vehicle := None)\<rparr>)
           | Some (i, d) \<Rightarrow>
               (let s1 = s\<lparr>ts_lastDelivery := (ts_lastDelivery s)(vehicle \<mapsto> i)\<rparr> in
                if haversineDistance lat lng (the (deliveryLat d)) (the (deliveryLng d)) \<le> PROXIMITY_THRESHOLD_M
                then
                  (let entered = getEnteredTime i vehicle s1;
                       s2 = (if entered = None then setEnteredTime i vehicle (ts_now s1) s1 else s1);
                       level = escalationLevel (ts_now s1 - nullish entered (ts_now s1))
                   in if isSnoozed i vehicle s2 then s2
                      else alertOut [ProximityAlert company user i vehicle level] s2)
                else removeEnteredTime i vehicle s1)))"

subsection \<open>Geofence events are the edges of the trace\<close>

text \<open>The changes of a sequence of observations, from a given one.\<close>

fun edges :: "bool \<Rightarrow> bool list \<Rightarrow> bool list" where
  "edges before [] = []"
| "edges before (b # bs) = (if b \<noteq> before then b # edges b bs else edges before bs)"

definition fenceRun :: "ident \<Rightarrow> ident \<Rightarrow> (real \<times> real) list \<Rightarrow> tstate \<Rightarrow> tstate" where
  "fenceRun delivery vehicle ps s =
     fold (\<lambda>(lat, lng) s. snd (checkGeofences delivery vehicle lat lng s)) ps s"

text \<open>The events of one fence, oldest first.\<close>

definition crossings :: "ident \<Rightarrow> ident \<Rightarrow> ident \<Rightarrow> tstate \<Rightarrow> bool list" where
  "crossings delivery vehicle i s =
     rev (map fe_entry (filter (\<lambda>e. fe_vehicle e = vehicle \<and> fe_delivery e = delivery \<and> fe_fence e = i)
       (ts_fenceEvents s)))"

lemma lastEntry_crossings:
  "lastEntry (filter (\<lambda>e. fe_vehicle e = vehicle \<and> fe_delivery e = delivery) (ts_fenceEvents s)) i
     = last (False # crossings delivery vehicle i s)"
proof -
  have "(case find (\<lambda>e. fe_fence e = i) (filter p xs) of Some e \<Rightarrow> fe_entry e | None \<Rightarrow> False)
      = last (False # rev (map fe_entry (filter (\<lambda>e. p e \<and> fe_fence e = i) xs)))" for p xs
    by (induction xs) (auto simp: last_append)
  from this [of "\<lambda>e. fe_vehicle e = vehicle \<and> fe_delivery e = delivery" "ts_fenceEvents s"]
  show ?thesis unfolding lastEntry_def crossings_def conj_assoc .
qed

lemma fenceLoop_other:
  "i \<notin> gf_id ` set fs \<Longrightarrow>
     filter (\<lambda>e. fe_vehicle e = v \<and> fe_delivery e = d \<and> fe_fence e = i) (snd (fenceLoop d v lat lng before fs rows))
       = filter (\<lambda>e. fe_vehicle e = v \<and> fe_delivery e = d \<and> fe_fence e = i) rows"
  by (induction fs arbitrary: rows) (auto simp: Let_def split_beta)

lemma fenceLoop_own:
  assumes "distinct (map gf_id fs)" and "f \<in> set fs"
  shows "map fe_entry (filter (\<lambda>e. fe_vehicle e = v \<and> fe_delivery e = d \<and> fe_fence e = gf_id f)
           (snd (fenceLoop d v lat lng before fs rows)))
       = (if insideFence lat lng f \<noteq> before (gf_id f) then [insideFence lat lng f] else [])
           @ map fe_entry (filter (\<lambda>e. fe_vehicle e = v \<and> fe_delivery e = d \<and> fe_fence e = gf_id f) rows)"
  using assms
proof (induction fs arbitrary: rows)
  case (Cons g gs)
  show ?case
  proof (cases "f = g")
    case True
    then have "gf_id f \<notin> gf_id ` set gs" using Cons.prems(1) by auto
    from fenceLoop_other [OF this, of v d lat lng before] True show ?thesis
      by (auto simp: Let_def split_beta)
  next
    case False
    then have f: "f \<in> set gs" using Cons.prems(2) by simp
    then have "gf_id f \<in> gf_id ` set gs" by (rule imageI)
    moreover have "gf_id g \<notin> gf_id ` set gs" using Cons.prems(1) by simp
    ultimately have "gf_id f \<noteq> gf_id g" by metis
    with f Cons.IH Cons.prems(1) show ?thesis by (auto simp: Let_def split_beta)
  qed
qed simp

lemma checkGeofences_frames [simp]:
  "ts_fences (snd (checkGeofences d v lat lng s)) = ts_fences s"
  "ts_outbox (snd (checkGeofences d v lat lng s)) = ts_outbox s"
  "ts_cache (snd (checkGeofences d v lat lng s)) = ts_cache s"
  "ts_now (snd (checkGeofences d v lat lng s)) = ts_now s"
  "ts_positions (snd (checkGeofences d v lat lng s)) = ts_positions s"
  by (simp_all add: checkGeofences_def Let_def split_beta)

lemma crossings_step:
  assumes "f \<in> set (ts_fences s)" and "gf_delivery f = delivery"
    and "distinct (map gf_id (filter (\<lambda>f. gf_delivery f = delivery) (ts_fences s)))"
  shows "crossings delivery vehicle (gf_id f) (snd (checkGeofences delivery vehicle lat lng s))
       = crossings delivery vehicle (gf_id f) s
         @ (if insideFence lat lng f \<noteq> last (False # crossings delivery vehicle (gf_id f) s)
            then [insideFence lat lng f] else [])"
proof -
  let ?fs = "filter (\<lambda>f. gf_delivery f = delivery) (ts_fences s)"
  have f: "f \<in> set ?fs" using assms(1,2) by simp
  then have "?fs \<noteq> []" by force
  with fenceLoop_own [OF assms(3) f] show ?thesis
    unfolding lastEntry_crossings [symmetric]
    by (simp add: checkGeofences_def Let_def split_beta crossings_def)
qed

lemma edges_snoc:
  "edges b (bs @ [c]) = edges b bs @ (if c \<noteq> last (b # edges b bs) then [c] else [])"
  by (induction bs arbitrary: b) auto

lemma fenceRun_crossings:
  assumes "f \<in> set (ts_fences s)" and "gf_delivery f = delivery"
    and "distinct (map gf_id (filter (\<lambda>f. gf_delivery f = delivery) (ts_fences s)))"
    and "crossings delivery vehicle (gf_id f) s = []"
  shows "crossings delivery vehicle (gf_id f) (fenceRun delivery vehicle ps s)
       = edges False (map (\<lambda>(lat, lng). insideFence lat lng f) ps)
     \<and> ts_fences (fenceRun delivery vehicle ps s) = ts_fences s"
proof (induction ps rule: rev_induct)
  case Nil
  then show ?case by (simp add: fenceRun_def assms(4))
next
  case (snoc p ps)
  obtain lat lng where p: "p = (lat, lng)" by fastforce
  let ?s = "fenceRun delivery vehicle ps s"
  have step: "fenceRun delivery vehicle (ps @ [p]) s = snd (checkGeofences delivery vehicle lat lng ?s)"
    by (simp add: fenceRun_def p)
  from snoc have eq: "ts_fences ?s = ts_fences s" by simp
  show ?case
    unfolding step using snoc crossings_step [of f ?s, unfolded eq, OF assms(1-3)]
    by (simp add: edges_snoc p)
qed

subsection \<open>Throttled alerts\<close>

definition alertCount :: "(track_effect \<Rightarrow> bool) \<Rightarrow> tstate \<Rightarrow> nat" where
  "alertCount p s = length (filter p (ts_outbox s))"

definition runAt :: "('a \<Rightarrow> tstate \<Rightarrow> tstate) \<Rightarrow> (ms \<times> 'a) list \<Rightarrow> tstate \<Rightarrow> tstate" where
  "runAt step evs s = fold (\<lambda>(t, a) s. step a (s\<lparr>ts_now := t\<rparr>)) evs s"

lemma runAt_simps [simp]:
  "runAt step [] s = s" "runAt step (evs @ [(t, a)]) s = step a ((runAt step evs s)\<lparr>ts_now := t\<rparr>)"
  by (simp_all add: runAt_def)

lemma alertCount_simps [simp]:
  "alertCount p (alertOut es s) = alertCount p s + length (filter p es)"
  "alertCount p (s\<lparr>ts_now := t\<rparr>) = alertCount p s" "alertCount p (s\<lparr>ts_cache := c\<rparr>) = alertCount p s"
  by (simp_all add: alertCount_def)

lemma whenCool_simps [simp]:
  "alertCount p (whenCool k secs es s) = alertCount p s
     + (if cacheGet (ts_now s) k (ts_cache s) = None then length (filter p es) else 0)"
  "ts_cache (whenCool k secs es s) = (if cacheGet (ts_now s) k (ts_cache s) = None
     then cacheSet (ts_now s) k Flag secs (ts_cache s) else ts_cache s)"
  "ts_now (whenCool k secs es s) = ts_now s"
  by (simp_all add: whenCool_def cooldown_def Let_def split: option.splits)

text \<open>A step that leaves the alert and its key alone, or raises one alert and sets the key when the
  key is not set.\<close>

definition throttleStep :: "string \<Rightarrow> int \<Rightarrow> (track_effect \<Rightarrow> bool) \<Rightarrow> tstate \<Rightarrow> tstate \<Rightarrow> bool" where
  "throttleStep key ttl p s s' \<longleftrightarrow>
     alertCount p s' = alertCount p s \<and> ts_cache s' key = ts_cache s key
     \<or> cacheGet (ts_now s) key (ts_cache s) = None \<and> alertCount p s' = Suc (alertCount p s)
       \<and> (\<exists>e. ts_cache s' key = Some (Flag, e) \<and> ts_now s + ttl * 1000 \<le> e)"

lemma throttle_same [simp]: "throttleStep key ttl p s s"
  by (simp add: throttleStep_def)

lemma whenCool_throttle:
  "length (filter p es) = 1 \<Longrightarrow> throttleStep key ttl p s (whenCool key ttl es s)"
  by (simp add: throttleStep_def cacheSet_def)

lemma whenCool_other:
  "filter p es = [] \<Longrightarrow> key \<noteq> k \<Longrightarrow> throttleStep key ttl p s (whenCool k secs es s)"
  by (simp add: throttleStep_def cacheSet_def)

locale throttled =
  fixes step :: "'a \<Rightarrow> tstate \<Rightarrow> tstate"
    and key :: string
    and ttl :: int
    and isAlert :: "track_effect \<Rightarrow> bool"
  assumes throttles: "throttleStep key ttl isAlert s (step a s)"
begin

lemma at_most_one_in_window:
  assumes "\<forall>t\<in>fst ` set evs. t0 \<le> t \<and> t < t0 + ttl * 1000"
  shows "alertCount isAlert (runAt step evs s) \<le> Suc (alertCount isAlert s)"
proof -
  let ?n = "alertCount isAlert s"
  have "alertCount isAlert (runAt step evs s) = ?n
      \<or> alertCount isAlert (runAt step evs s) = Suc ?n
        \<and> (\<exists>e. ts_cache (runAt step evs s) key = Some (Flag, e) \<and> t0 + ttl * 1000 \<le> e)"
    using assms
  proof (induction evs rule: rev_induct)
    case (snoc x evs)
    obtain t a where x: "x = (t, a)" by fastforce
    let ?s = "(runAt step evs s)\<lparr>ts_now := t\<rparr>"
    have t: "t0 \<le> t" "t < t0 + ttl * 1000" using snoc.prems x by auto
    from snoc consider "alertCount isAlert ?s = ?n"
      | e where "alertCount isAlert ?s = Suc ?n" "ts_cache ?s key = Some (Flag, e)" "t0 + ttl * 1000 \<le> e"
      by auto
    then show ?case
    proof cases
      case 1
      then show ?thesis
        using throttles [of ?s a] t x by (auto simp: throttleStep_def)
    next
      case (2 e)
      then have "cacheGet (ts_now ?s) key (ts_cache ?s) \<noteq> None" using t(2) by (simp add: cacheGet_def)
      with throttles [of ?s a] 2 x show ?thesis by (auto simp: throttleStep_def)
    qed
  qed simp
  then show ?thesis by auto
qed

end

definition isSpeedAlert :: "ident \<Rightarrow> track_effect \<Rightarrow> bool" where
  "isSpeedAlert v e = (case e of SpeedAlert c w k u \<Rightarrow> w = v | _ \<Rightarrow> False)"

definition isDelayAlert :: "ident \<Rightarrow> track_effect \<Rightarrow> bool" where
  "isDelayAlert v e = (case e of DelayAlert c w k u \<Rightarrow> w = v | _ \<Rightarrow> False)"

definition isStopAlert :: "track_effect \<Rightarrow> bool" where
  "isStopAlert e = (case e of StopAlert c w k u \<Rightarrow> True | _ \<Rightarrow> False)"

definition fenceOnly :: "(track_effect \<Rightarrow> bool) \<Rightarrow> bool" where
  "fenceOnly p \<longleftrightarrow> (\<forall>c d f b u. \<not> p (FenceAlert c d f b u)) \<and> (\<forall>c f b. \<not> p (FenceUpdate c f b))"

lemmas alert_kinds = isSpeedAlert_def isDelayAlert_def isStopAlert_def fenceOnly_def

lemma emitGeofenceEvents_count:
  "fenceOnly p \<Longrightarrow> alertCount p (emitGeofenceEvents d v lat lng c u s) = alertCount p s"
  "ts_cache (emitGeofenceEvents d v lat lng c u s) = ts_cache s"
proof -
  have "alertCount p (snd (checkGeofences d v lat lng s)) = alertCount p s" by (simp add: alertCount_def)
  then show "fenceOnly p \<Longrightarrow> alertCount p (emitGeofenceEvents d v lat lng c u s) = alertCount p s"
    by (auto simp: emitGeofenceEvents_def split_beta fenceOnly_def filter_empty_conv)
qed (simp add: emitGeofenceEvents_def split_beta)

lemma stop_offline_frames [simp]:
  "ts_cache (stopAlert c u dto prev st s) = ts_cache s" "ts_now (stopAlert c u dto prev st s) = ts_now s"
  "ts_cache (offlineAlert c u dto prev st s) = ts_cache s" "ts_now (offlineAlert c u dto prev st s) = ts_now s"
  by (simp_all add: stopAlert_def offlineAlert_def Let_def split: option.splits)

lemma stop_offline_count:
  "(\<And>x y. \<not> p (StopAlert c x y u)) \<Longrightarrow> alertCount p (stopAlert c u dto prev st s) = alertCount p s"
  "(\<And>x y. \<not> p (OfflineAlert c x y u)) \<Longrightarrow> alertCount p (offlineAlert c u dto prev st s) = alertCount p s"
  by (simp_all add: stopAlert_def offlineAlert_def Let_def split: option.splits)

lemma speedAlert_cases:
  "speedAlert c u dto st s = s \<or> (\<exists>k. speedAlert c u dto st s
      = whenCool (speedKey (po_vehicle dto)) 300 [SpeedAlert c (po_vehicle dto) k u] s)"
  unfolding speedAlert_def by (simp split: option.split) blast

lemma delayAlert_cases:
  "delayAlert c u dto s = s \<or> (\<exists>k. delayAlert c u dto s
      = whenCool (delayKey (po_vehicle dto)) 900 [DelayAlert c (po_vehicle dto) k u] s)"
  unfolding delayAlert_def Let_def by (simp split: option.split) blast

type_synonym alert_call = "position_dto \<times> ident \<times> ident option \<times> gps_position option"

definition alertsFor :: "alert_call \<Rightarrow> tstate \<Rightarrow> tstate" where
  "alertsFor a s = (case a of (dto, company, driver, prev) \<Rightarrow> generateAlerts dto company driver prev s)"

lemma generateAlerts_cache:
  "ts_settings s company = Some st \<Longrightarrow> ts_cache (generateAlerts dto company driver prev s)
     = ts_cache (delayAlert company (alertUser driver s) dto
         (stopAlert company (alertUser driver s) dto prev st (speedAlert company (alertUser driver s) dto st s)))"
  by (simp add: generateAlerts_def Let_def emitGeofenceEvents_count(2) split: option.split)

lemma generateAlerts_count:
  assumes "ts_settings s company = Some st" and "fenceOnly p" and "\<And>x y u. \<not> p (OfflineAlert company x y u)"
  shows "alertCount p (generateAlerts dto company driver prev s)
       = alertCount p (delayAlert company (alertUser driver s) dto
           (stopAlert company (alertUser driver s) dto prev st (speedAlert company (alertUser driver s) dto st s)))"
  using assms
  by (simp add: generateAlerts_def Let_def emitGeofenceEvents_count stop_offline_count split: option.split)

lemma generateAlerts_none: "ts_settings s company = None \<Longrightarrow> generateAlerts dto company driver prev s = s"
  by (simp add: generateAlerts_def)

lemma delayAlert_apart:
  "key \<noteq> delayKey (po_vehicle dto) \<Longrightarrow> ts_cache (delayAlert c u dto s) key = ts_cache s key"
  "(\<And>x y. \<not> p (DelayAlert c x y u)) \<Longrightarrow> alertCount p (delayAlert c u dto s) = alertCount p s"
  using delayAlert_cases [of c u dto s] by (auto simp: cacheSet_def)

lemma speedAlert_apart:
  "key \<noteq> speedKey (po_vehicle dto) \<Longrightarrow> ts_cache (speedAlert c u dto st s) key = ts_cache s key"
  "(\<And>x y. \<not> p (SpeedAlert c x y u)) \<Longrightarrow> alertCount p (speedAlert c u dto st s) = alertCount p s"
  "ts_now (speedAlert c u dto st s) = ts_now s"
  using speedAlert_cases [of c u dto st s] by (auto simp: cacheSet_def)

lemma delayAlert_throttle:
  "throttleStep (delayKey v) 900 (isDelayAlert v) s (delayAlert c u dto s)"
  using delayAlert_cases [of c u dto s] whenCool_throttle whenCool_other
  by (cases "po_vehicle dto = v") (auto simp: isDelayAlert_def)

lemma speedAlert_throttle:
  "throttleStep (speedKey v) 300 (isSpeedAlert v) s (speedAlert c u dto st s)"
  using speedAlert_cases [of c u dto st s] whenCool_throttle whenCool_other
  by (cases "po_vehicle dto = v") (auto simp: isSpeedAlert_def)

lemma generateAlerts_throttles:
  "throttleStep (speedKey v) 300 (isSpeedAlert v) s (generateAlerts dto company driver prev s)"
  "throttleStep (delayKey v) 900 (isDelayAlert v) s (generateAlerts dto company driver prev s)"
proof -
  have "throttleStep (speedKey v) 300 (isSpeedAlert v) s (generateAlerts dto company driver prev s)
      \<and> throttleStep (delayKey v) 900 (isDelayAlert v) s (generateAlerts dto company driver prev s)"
  proof (cases "ts_settings s company")
    case None
    then show ?thesis by (simp add: generateAlerts_none)
  next
    case (Some st)
    let ?u = "alertUser driver s"
    let ?s2 = "stopAlert company ?u dto prev st (speedAlert company ?u dto st s)"
    have other: "isSpeedAlert v (OfflineAlert c x y w) = False" "isDelayAlert v (OfflineAlert c x y w) = False"
      "isSpeedAlert v (StopAlert c x y w) = False" "isDelayAlert v (StopAlert c x y w) = False"
      "isSpeedAlert v (DelayAlert c x y w) = False" "isDelayAlert v (SpeedAlert c x y w) = False"
      "fenceOnly (isSpeedAlert v)" "fenceOnly (isDelayAlert v)" for c x y w
      by (simp_all add: alert_kinds)
    show ?thesis
      using speedAlert_throttle [of v s company ?u dto st] delayAlert_throttle [of v ?s2 company ?u dto]
      by (simp add: throttleStep_def cacheGet_def generateAlerts_cache [OF Some] generateAlerts_count [OF Some] other
          stop_offline_count delayAlert_apart speedAlert_apart)
  qed
  then show "throttleStep (speedKey v) 300 (isSpeedAlert v) s (generateAlerts dto company driver prev s)"
    "throttleStep (delayKey v) 900 (isDelayAlert v) s (generateAlerts dto company driver prev s)"
    by blast+
qed

interpretation speed_throttle: throttled alertsFor "speedKey v" 300 "isSpeedAlert v" for v
  by unfold_locales (simp add: alertsFor_def generateAlerts_throttles split: prod.split)

interpretation delay_throttle: throttled alertsFor "delayKey v" 900 "isDelayAlert v" for v
  by unfold_locales (simp add: alertsFor_def generateAlerts_throttles split: prod.split)

end
