(* ===== verification/Tracking_Ingest.thy ===== *)
theory Tracking_Ingest
  imports Tracking_Alerts Teleport GroundSpeed
begin

text \<open>
  The ingestion of positions in \<open>tracking.service.ts\<close>: the real time path \<open>savePosition\<close> and the
  catch-up path \<open>saveBatch\<close>, with the checks they share (duplicates, teleportation) and the flood
  limits. Alerts and proximity checks are started without being awaited; here they run at once, in
  the order they are started. Telemetry attributes, stored as they come, are not part of a row.
\<close>

definition DEDUP_CLOCK_SKEW_S :: int where "DEDUP_CLOCK_SKEW_S = 1"

subsection \<open>Flood limits\<close>

definition rateKey :: "ident \<Rightarrow> string" where "rateKey d = ''rate_limit:driver:'' @ d"
definition batchRateKey :: "ident \<Rightarrow> string" where "batchRateKey d = ''rate_limit_batch:'' @ d"

definition countLimited :: "metrics \<Rightarrow> metrics" where
  "countLimited m = m\<lparr>m_rateLimited := Suc (m_rateLimited m)\<rparr>"

definition isRateLimited :: "int \<Rightarrow> ident \<Rightarrow> tstate \<Rightarrow> bool \<times> tstate" where
  "isRateLimited ttlMs driver s =
     (if ttlMs \<le> 0 then (False, s)
      else case cacheGet (ts_now s) (rateKey driver) (ts_cache s) of
             Some _ \<Rightarrow> (True, s\<lparr>ts_metrics := countLimited (ts_metrics s)\<rparr>)
           | None \<Rightarrow> (False, s\<lparr>ts_cache := (ts_cache s)(rateKey driver \<mapsto> (Flag, ts_now s + ttlMs))\<rparr>))"

definition batchesSoFar :: "ident \<Rightarrow> tstate \<Rightarrow> int option" where
  "batchesSoFar driver s =
     (case cacheGet (ts_now s) (batchRateKey driver) (ts_cache s) of Some (Num n) \<Rightarrow> Some n | _ \<Rightarrow> None)"

definition isBatchRateLimited :: "int \<Rightarrow> ident \<Rightarrow> tstate \<Rightarrow> bool \<times> tstate" where
  "isBatchRateLimited maxPerMin driver s =
     (if maxPerMin \<le> 0 then (False, s)
      else if (case batchesSoFar driver s of Some n \<Rightarrow> maxPerMin \<le> n | None \<Rightarrow> False)
      then (True, s\<lparr>ts_metrics := (ts_metrics s)\<lparr>m_batchRateLimited := Suc (m_batchRateLimited (ts_metrics s))\<rparr>\<rparr>)
      else (False, s\<lparr>ts_cache := cacheSet (ts_now s) (batchRateKey driver)
                       (Num (nullish (batchesSoFar driver s) 0 + 1)) 60 (ts_cache s)\<rparr>))"

subsection \<open>Duplicates and teleportation\<close>

definition isDuplicateByTimestamp :: "ident \<Rightarrow> ident option \<Rightarrow> ms \<Rightarrow> tstate \<Rightarrow> bool" where
  "isDuplicateByTimestamp vehicle delivery t s =
     (let windowMs = DEDUP_CLOCK_SKEW_S * 1000;
          sameDelivery = (\<lambda>g. case delivery of None \<Rightarrow> True | Some d \<Rightarrow> d \<noteq> [] \<longrightarrow> gp_delivery g = Some d)
      in case newest (\<lambda>g. gp_vehicle g = vehicle \<and> sameDelivery g \<and> gp_time g \<le> t + windowMs) (ts_positions s) of
           Some g \<Rightarrow> t - windowMs \<le> gp_time g
         | None \<Rightarrow> False)"

definition teleportRef :: "gps_position \<Rightarrow> teleport_reference" where
  "teleportRef g = \<lparr>tr_lat = gp_lat g, tr_lng = gp_lng g, tr_time = gp_time g,
     tr_speed = map_option Fin (gp_speed g), tr_acc = gp_acc g\<rparr>"

definition teleportReference :: "ident \<Rightarrow> position_source \<Rightarrow> ms \<Rightarrow> tstate \<Rightarrow> gps_position option" where
  "teleportReference vehicle src t s =
     (case getLastPosition vehicle True s of
        None \<Rightarrow> None
      | Some l \<Rightarrow>
          (case (if t \<le> gp_time l
                 then newest (\<lambda>g. gp_vehicle g = vehicle \<and> \<not> gp_suspect g \<and> gp_time g < t) (ts_positions s)
                 else Some l) of
             None \<Rightarrow> None
           | Some g \<Rightarrow>
               if gp_source g \<noteq> src \<and> 0 < secs_between (gp_time g) t \<and> secs_between (gp_time g) t \<le> 300
               then newest (\<lambda>g. gp_vehicle g = vehicle \<and> gp_source g = src \<and> \<not> gp_suspect g) (ts_positions s)
               else Some g))"

definition detectTeleportation ::
    "real \<Rightarrow> real \<Rightarrow> ms \<Rightarrow> ident \<Rightarrow> real option \<Rightarrow> position_source \<Rightarrow> real option \<Rightarrow> tstate \<Rightarrow> bool" where
  "detectTeleportation lat lng t vehicle acc src speed s =
     (case teleportReference vehicle src t s of
        None \<Rightarrow> False
      | Some g \<Rightarrow> suspect (evaluateTeleportation (teleportRef g) lat lng t acc (map_option Fin speed)))"

subsection \<open>The real time path\<close>

definition logMetrics :: "metrics \<Rightarrow> metrics" where
  "logMetrics m = \<lparr>m_received = 0, m_saved = 0, m_deduped = 0, m_teleported = 0, m_batchSaved = 0,
     m_rateLimited = 0, m_batchRateLimited = 0\<rparr>"

definition updMetrics :: "(metrics \<Rightarrow> metrics) \<Rightarrow> tstate \<Rightarrow> tstate" where
  "updMetrics f s = s\<lparr>ts_metrics := f (ts_metrics s)\<rparr>"

definition rowOf ::
    "ident option \<Rightarrow> position_dto \<Rightarrow> ident \<Rightarrow> position_source \<Rightarrow> bool \<Rightarrow> gps_position" where
  "rowOf driver dto company src susp = \<lparr>gp_vehicle = po_vehicle dto, gp_delivery = po_delivery dto,
     gp_driver = driver, gp_company = company, gp_lat = po_lat dto, gp_lng = po_lng dto,
     gp_speed = po_speed dto, gp_heading = po_heading dto, gp_altitude = po_altitude dto,
     gp_acc = po_acc dto, gp_suspect = susp, gp_time = po_time dto, gp_source = src\<rparr>"

definition gpKey :: "gps_position \<Rightarrow> ident \<times> ms" where
  "gpKey g = (gp_vehicle g, gp_time g)"

text \<open>The insertion under the unique index on vehicle and timestamp.\<close>

definition insertPosition :: "gps_position \<Rightarrow> tstate \<Rightarrow> tstate option" where
  "insertPosition g s =
     (if gpKey g \<in> gpKey ` set (ts_positions s) then None
      else Some (s\<lparr>ts_positions := ts_positions s @ [g]\<rparr>))"

definition given :: "ident option \<Rightarrow> ident option" where
  "given i = (case i of Some [] \<Rightarrow> None | _ \<Rightarrow> i)"

definition shortId :: "ident \<Rightarrow> bool" where
  "shortId i \<longleftrightarrow> length i < 16"

definition afterSave ::
    "ident option \<Rightarrow> position_dto \<Rightarrow> ident option \<Rightarrow> bool \<Rightarrow> gps_position option \<Rightarrow> tstate \<Rightarrow> tstate" where
  "afterSave driver dto company susp prev s =
     (case given company of
        None \<Rightarrow> s
      | Some co \<Rightarrow>
          if susp then s
          else (let s1 = generateAlerts dto co driver prev s in
                case given driver of
                  None \<Rightarrow> s1
                | Some dr \<Rightarrow> checkProximity dr (po_vehicle dto) co (po_lat dto) (po_lng dto) s1))"

definition savePosition ::
    "ident option \<Rightarrow> position_dto \<Rightarrow> ident option \<Rightarrow> position_source \<Rightarrow> tstate \<Rightarrow> gps_position option \<times> tstate" where
  "savePosition driver dto company src s0 =
     (let s = updMetrics (\<lambda>m. m\<lparr>m_received := Suc (m_received m)\<rparr>) s0 in
      if shortId (po_vehicle dto) \<or> (\<exists>d. po_delivery dto = Some d \<and> shortId d) then (None, s)
      else
        (case find (\<lambda>v. tv_id v = po_vehicle dto \<and> \<not> tv_deleted v \<and> tv_active v) (ts_vehicles s) of
           None \<Rightarrow> (None, s)
         | Some v \<Rightarrow>
             if given company \<noteq> None \<and> company \<noteq> Some (tv_company v) then (None, s)
             else if src = Phone \<and> tv_source v = PhysicalTracker then (None, s)
             else if isDuplicateByTimestamp (po_vehicle dto) (po_delivery dto) (po_time dto) s
             then (None, updMetrics (\<lambda>m. m\<lparr>m_deduped := Suc (m_deduped m)\<rparr>) s)
             else
               (let susp = detectTeleportation (po_lat dto) (po_lng dto) (po_time dto) (po_vehicle dto)
                      (po_acc dto) src (po_speed dto) s;
                    s1 = (if susp then updMetrics (\<lambda>m. m\<lparr>m_teleported := Suc (m_teleported m)\<rparr>) s else s);
                    prev = getLastPosition (po_vehicle dto) False s1;
                    g = rowOf driver dto (nullish (given company) (tv_company v)) src susp
                in case insertPosition g s1 of
                     None \<Rightarrow> (None, updMetrics (\<lambda>m. m\<lparr>m_deduped := Suc (m_deduped m)\<rparr>) s1)
                   | Some s2 \<Rightarrow>
                       (let s3 = updMetrics (\<lambda>m. m\<lparr>m_saved := Suc (m_saved m)\<rparr>) s2;
                            s4 = (if m_received (ts_metrics s3) mod 100 = 0 then updMetrics logMetrics s3 else s3)
                        in (Some g, afterSave driver dto company susp prev s4)))))"

subsection \<open>The batch path\<close>

text \<open>What the loop over a batch keeps: per vehicle the last position seen and its accuracy, the
history for the speed window, the rows to insert and the counters. Batches come from the phone
application on behalf of a company.\<close>

record batch_last =
  bl_lat :: real
  bl_lng :: real
  bl_time :: ms
  bl_speed :: "real option"

record batch_ctx =
  bc_last :: "ident \<rightharpoonup> batch_last"
  bc_acc :: "ident \<Rightarrow> real option"
  bc_history :: "ident \<Rightarrow> ground_ref list"
  bc_out :: "gps_position list"
  bc_metrics :: metrics

definition lastOf :: "gps_position \<Rightarrow> batch_last" where
  "lastOf g = \<lparr>bl_lat = gp_lat g, bl_lng = gp_lng g, bl_time = gp_time g, bl_speed = gp_speed g\<rparr>"

definition verifiedDelivery :: "ident \<Rightarrow> ident \<Rightarrow> tstate \<Rightarrow> ident \<Rightarrow> bool" where
  "verifiedDelivery user driver s i \<longleftrightarrow>
     (case map_of (ts_deliveries s) i of
        None \<Rightarrow> False
      | Some d \<Rightarrow> deletedAt d = None \<and> (assignedDriverId d = Some user \<or> driverId d = Some driver))"

definition validBatchVehicle :: "ident \<Rightarrow> tstate \<Rightarrow> ident \<Rightarrow> bool" where
  "validBatchVehicle company s i \<longleftrightarrow>
     (\<exists>v\<in>set (ts_vehicles s). tv_id v = i \<and> \<not> tv_deleted v \<and> tv_active v \<and> tv_source v = Phone
        \<and> (company \<noteq> [] \<longrightarrow> tv_company v = company))"

definition effectiveDelivery :: "(ident \<Rightarrow> bool) \<Rightarrow> ident option \<Rightarrow> ident option" where
  "effectiveDelivery verified d =
     (case d of
        None \<Rightarrow> None
      | Some i \<Rightarrow> if i \<noteq> [] \<and> \<not> verified i then None else if shortId i then None else Some i)"

definition validPositions :: "(ident \<Rightarrow> bool) \<Rightarrow> (ident \<Rightarrow> bool) \<Rightarrow> position_dto list \<Rightarrow> position_dto list" where
  "validPositions verified okVehicle ps =
     map (\<lambda>p. p\<lparr>po_delivery := effectiveDelivery verified (po_delivery p)\<rparr>)
       (filter (\<lambda>p. \<not> shortId (po_vehicle p) \<and> okVehicle (po_vehicle p)) ps)"

definition nearTime :: "ms \<Rightarrow> ms option \<Rightarrow> bool" where
  "nearTime t r = (case r of None \<Rightarrow> False | Some u \<Rightarrow> \<bar>t - u\<bar> \<le> DEDUP_CLOCK_SKEW_S * 1000)"

definition fixRef :: "position_dto \<Rightarrow> ground_ref" where
  "fixRef p = \<lparr>ref_lat = Fin (po_lat p), ref_lng = Fin (po_lng p), ref_time = po_time p, ref_acc = po_acc p\<rparr>"

definition batchSpeed :: "batch_ctx \<Rightarrow> position_dto \<Rightarrow> real" where
  "batchSpeed c p =
     speedMs (resolveGroundSpeed (map_option Fin (po_speed p))
       (map_option (\<lambda>l. \<lparr>ref_lat = Fin (bl_lat l), ref_lng = Fin (bl_lng l), ref_time = bl_time l,
            ref_acc = bc_acc c (po_vehicle p)\<rparr>) (bc_last c (po_vehicle p)))
       (fixRef p) False (selectSpeedWindowRef (bc_history c (po_vehicle p)) (po_time p)))"

definition batchSuspect :: "batch_ctx \<Rightarrow> position_dto \<Rightarrow> bool" where
  "batchSuspect c p =
     (case bc_last c (po_vehicle p) of
        None \<Rightarrow> False
      | Some l \<Rightarrow> bl_time l < po_time p
          \<and> suspect (evaluateTeleportation
              \<lparr>tr_lat = bl_lat l, tr_lng = bl_lng l, tr_time = bl_time l,
               tr_speed = map_option Fin (bl_speed l), tr_acc = bc_acc c (po_vehicle p)\<rparr>
              (po_lat p) (po_lng p) (po_time p) (po_acc p) (Some (Fin (batchSpeed c p)))))"

definition lastN :: "nat \<Rightarrow> 'a list \<Rightarrow> 'a list" where
  "lastN n xs = drop (length xs - n) xs"

definition batchStep ::
    "ident \<Rightarrow> ident \<Rightarrow> (ident \<Rightarrow> ms option) \<Rightarrow> position_dto \<Rightarrow> batch_ctx \<Rightarrow> batch_ctx" where
  "batchStep driver company dbLatest p c =
     (let v = po_vehicle p in
      if nearTime (po_time p) (map_option bl_time (bc_last c v)) \<or> nearTime (po_time p) (dbLatest v)
      then c\<lparr>bc_metrics := (bc_metrics c)\<lparr>m_deduped := Suc (m_deduped (bc_metrics c))\<rparr>\<rparr>
      else
        (let speed = batchSpeed c p; susp = batchSuspect c p; m = bc_metrics c
         in c\<lparr>bc_last := (bc_last c)(v \<mapsto> \<lparr>bl_lat = po_lat p, bl_lng = po_lng p, bl_time = po_time p, bl_speed = Some speed\<rparr>),
              bc_acc := (bc_acc c)(v := po_acc p),
              bc_history := (if susp then bc_history c
                 else (bc_history c)(v := lastN 30 (bc_history c v @ [fixRef p]))),
              bc_out := bc_out c @ [rowOf (Some driver) (p\<lparr>po_speed := Some speed\<rparr>) company Phone susp],
              bc_metrics := (if susp then m\<lparr>m_teleported := Suc (m_teleported m)\<rparr> else m)\<rparr>))"

definition batchStart :: "tstate \<Rightarrow> batch_ctx" where
  "batchStart s = \<lparr>bc_last = (\<lambda>v. map_option lastOf (getLastPosition v False s)),
     bc_acc = (\<lambda>v. Option.bind (getLastPosition v False s) gp_acc), bc_history = (\<lambda>v. []), bc_out = [],
     bc_metrics = ts_metrics s\<rparr>"

definition batchRows :: "ident \<Rightarrow> ident \<Rightarrow> ident \<Rightarrow> position_dto list \<Rightarrow> tstate \<Rightarrow> batch_ctx" where
  "batchRows user driver company ps s =
     fold (batchStep driver company (\<lambda>v. map_option gp_time (getLastPosition v False s)))
       (sort_key po_time (validPositions (verifiedDelivery user driver s) (validBatchVehicle company s) ps))
       (batchStart s)"

text \<open>\<open>createManyAndReturn\<close> with \<open>skipDuplicates\<close>: the rows really inserted, and the table.\<close>

fun insertMany :: "gps_position list \<Rightarrow> tstate \<Rightarrow> gps_position list \<times> tstate" where
  "insertMany [] s = ([], s)"
| "insertMany (g # gs) s =
     (case insertPosition g s of
        None \<Rightarrow> insertMany gs s
      | Some s1 \<Rightarrow> (let (ins, s2) = insertMany gs s1 in (g # ins, s2)))"

definition dtoOf :: "gps_position \<Rightarrow> position_dto" where
  "dtoOf g = \<lparr>po_vehicle = gp_vehicle g, po_delivery = gp_delivery g, po_lat = gp_lat g, po_lng = gp_lng g,
     po_speed = gp_speed g, po_heading = gp_heading g, po_altitude = gp_altitude g, po_acc = gp_acc g,
     po_time = gp_time g\<rparr>"

fun batchAlerts ::
    "ident \<Rightarrow> ident \<Rightarrow> (ident \<rightharpoonup> gps_position) \<Rightarrow> gps_position list \<Rightarrow> tstate \<Rightarrow> tstate" where
  "batchAlerts driver company lastByVehicle [] s = s"
| "batchAlerts driver company lastByVehicle (g # gs) s =
     batchAlerts driver company (lastByVehicle(gp_vehicle g \<mapsto> g)) gs
       (if gp_suspect g then s
        else generateAlerts (dtoOf g) company (Some driver) (lastByVehicle (gp_vehicle g)) s)"

text \<open>The proximity of each vehicle of the batch, on \<open>inserted.find\<close>.\<close>

definition batchProximity :: "ident \<Rightarrow> ident \<Rightarrow> gps_position list \<Rightarrow> tstate \<Rightarrow> tstate" where
  "batchProximity driver company inserted s =
     fold (\<lambda>v s. case find (\<lambda>g. gp_vehicle g = v) inserted of
                   None \<Rightarrow> s
                 | Some g \<Rightarrow> checkProximity driver v company (gp_lat g) (gp_lng g) s)
       (rev (remdups (rev (map gp_vehicle inserted)))) s"

definition saveBatch ::
    "ident \<Rightarrow> ident \<Rightarrow> position_dto list \<Rightarrow> ident \<Rightarrow> tstate \<Rightarrow> gps_position list \<times> tstate" where
  "saveBatch user driver ps company s =
     (let c = batchRows user driver company ps s; s1 = s\<lparr>ts_metrics := bc_metrics c\<rparr> in
      if bc_out c = [] then ([], s1)
      else
        (let s2 = updMetrics (\<lambda>m. m\<lparr>m_batchSaved := m_batchSaved m + length (bc_out c)\<rparr>) s1;
             (inserted, s3) = insertMany (bc_out c) s2;
             s4 = updMetrics (\<lambda>m. m\<lparr>m_saved := m_saved m + length inserted\<rparr>) s3
         in (inserted,
             if company = [] then s4
             else batchProximity driver company inserted (batchAlerts driver company Map.empty inserted s4))))"

subsection \<open>Validation\<close>

text \<open>A position as it arrives, its numbers converted; \<open>rp_time\<close> is what \<open>Date.parse\<close> makes of the
timestamp and \<open>rp_iso\<close> whether it has the ISO format. An absent required number is not a number.\<close>

record raw_position =
  rp_lat :: jsnum
  rp_lng :: jsnum
  rp_speed :: "jsnum option"
  rp_heading :: "jsnum option"
  rp_altitude :: "jsnum option"
  rp_acc :: "jsnum option"
  rp_time :: "ms option"
  rp_iso :: bool
  rp_delivery :: "ident option"
  rp_vehicle :: "ident option"

datatype position_field = Latitude | Longitude | Speed | Heading | Altitude | Accuracy | Timestamp
  | DeliveryIdField | VehicleIdField

definition FUTURE_TOLERANCE_MS :: ms where "FUTURE_TOLERANCE_MS = 5 * 60 * 1000"
definition PAST_TOLERANCE_MS :: ms where "PAST_TOLERANCE_MS = 30 * 24 * 60 * 60 * 1000"

definition clampFutureTimestamp :: "ms \<Rightarrow> raw_position \<Rightarrow> raw_position" where
  "clampFutureTimestamp now r =
     (case rp_time r of
        None \<Rightarrow> r
      | Some t \<Rightarrow> if now + FUTURE_TOLERANCE_MS < t then r\<lparr>rp_time := Some now, rp_iso := True\<rparr> else r)"

definition isPlausibleTimestamp :: "ms \<Rightarrow> ms option \<Rightarrow> bool" where
  "isPlausibleTimestamp now t =
     (case t of None \<Rightarrow> False | Some u \<Rightarrow> u \<le> now + FUTURE_TOLERANCE_MS \<and> now - PAST_TOLERANCE_MS \<le> u)"

definition numberIn :: "real option \<Rightarrow> real option \<Rightarrow> jsnum \<Rightarrow> bool" where
  "numberIn lo hi x =
     (case x of NonFinite \<Rightarrow> False
      | Fin v \<Rightarrow> (case lo of Some a \<Rightarrow> a \<le> v | None \<Rightarrow> True) \<and> (case hi of Some b \<Rightarrow> v \<le> b | None \<Rightarrow> True))"

definition optionalIn :: "real option \<Rightarrow> real option \<Rightarrow> jsnum option \<Rightarrow> bool" where
  "optionalIn lo hi x = (case x of None \<Rightarrow> True | Some v \<Rightarrow> numberIn lo hi v)"

definition invalidFields :: "(ident \<Rightarrow> bool) \<Rightarrow> ms \<Rightarrow> raw_position \<Rightarrow> position_field list" where
  "invalidFields isUuid4 now r =
     map snd (filter (\<lambda>(ok, f). \<not> ok)
       [(numberIn (Some (- 90)) (Some 90) (rp_lat r), Latitude),
        (numberIn (Some (- 180)) (Some 180) (rp_lng r), Longitude),
        (optionalIn (Some 0) None (rp_speed r), Speed),
        (optionalIn (Some 0) (Some 360) (rp_heading r), Heading),
        (optionalIn None None (rp_altitude r), Altitude),
        (optionalIn (Some 0) (Some 1000) (rp_acc r), Accuracy),
        (rp_iso r \<and> isPlausibleTimestamp now (rp_time r), Timestamp),
        (case rp_delivery r of None \<Rightarrow> True | Some d \<Rightarrow> isUuid4 d, DeliveryIdField),
        (case rp_vehicle r of None \<Rightarrow> False | Some v \<Rightarrow> isUuid4 v, VehicleIdField)])"

definition dtoOfRaw :: "raw_position \<Rightarrow> position_dto" where
  "dtoOfRaw r = \<lparr>po_vehicle = nullish (rp_vehicle r) [], po_delivery = rp_delivery r,
     po_lat = nullish (num_of (rp_lat r)) 0, po_lng = nullish (num_of (rp_lng r)) 0,
     po_speed = Option.bind (rp_speed r) num_of, po_heading = Option.bind (rp_heading r) num_of,
     po_altitude = Option.bind (rp_altitude r) num_of, po_acc = Option.bind (rp_acc r) num_of,
     po_time = nullish (rp_time r) 0\<rparr>"

definition validateUpdate :: "(ident \<Rightarrow> bool) \<Rightarrow> ms \<Rightarrow> raw_position \<Rightarrow> position_field list + position_dto" where
  "validateUpdate isUuid4 now raw =
     (let r = clampFutureTimestamp now raw; bad = invalidFields isUuid4 now r
      in if bad = [] then Inr (dtoOfRaw r) else Inl bad)"

datatype batch_result =
  BatchRateLimited | BatchEmpty | BatchNoDriver
| BatchOk "gps_position list" nat ident "(nat \<times> position_field list) list"

text \<open>The valid positions, and the index and reason of the others.\<close>

fun sortOut ::
    "nat \<Rightarrow> (position_field list + position_dto) list \<Rightarrow> position_dto list \<times> (nat \<times> position_field list) list" where
  "sortOut i [] = ([], [])"
| "sortOut i (Inl bad # rs) = (let (ok, rejected) = sortOut (Suc i) rs in (ok, (i, bad) # rejected))"
| "sortOut i (Inr p # rs) = (let (ok, rejected) = sortOut (Suc i) rs in (p # ok, rejected))"

definition findDriverByUserId :: "ident \<Rightarrow> tstate \<Rightarrow> track_driver option" where
  "findDriverByUserId user s = find (\<lambda>r. td_user r = Some user) (ts_drivers s)"

definition validateAndSaveBatch ::
    "(ident \<Rightarrow> bool) \<Rightarrow> int \<Rightarrow> ident \<Rightarrow> ident \<Rightarrow> raw_position list option \<Rightarrow> tstate \<Rightarrow> batch_result \<times> tstate" where
  "validateAndSaveBatch isUuid4 maxPerMin user company raw s =
     (let (limited, s1) = isBatchRateLimited maxPerMin user s in
      if limited then (BatchRateLimited, s1)
      else
        (case raw of
           None \<Rightarrow> (BatchEmpty, s1)
         | Some [] \<Rightarrow> (BatchEmpty, s1)
         | Some rs \<Rightarrow>
             (let (ok, rejected) = sortOut 0 (map (validateUpdate isUuid4 (ts_now s1)) rs)
              in case findDriverByUserId user s1 of
                   None \<Rightarrow> (BatchNoDriver, s1)
                 | Some d \<Rightarrow>
                     if ok = [] then (BatchOk [] 0 (td_id d) rejected, s1)
                     else (let (saved, s2) = saveBatch user (td_id d) ok company s1
                           in (BatchOk saved (length ok) (td_id d) rejected, s2)))))"

definition verifyDriverAssignment :: "ident \<Rightarrow> ident \<Rightarrow> tstate \<Rightarrow> bool" where
  "verifyDriverAssignment delivery user s =
     (case map_of (ts_deliveries s) delivery of
        None \<Rightarrow> False
      | Some d \<Rightarrow> assignedDriverId d = Some user
          \<or> (case findDriverByUserId user s of None \<Rightarrow> False | Some r \<Rightarrow> driverId d = Some (td_id r)))"

definition assertVehicleOwnership :: "ident \<Rightarrow> ident \<Rightarrow> tstate \<Rightarrow> bool" where
  "assertVehicleOwnership vehicle company s =
     (find (\<lambda>v. tv_id v = vehicle \<and> tv_company v = company \<and> \<not> tv_deleted v) (ts_vehicles s) \<noteq> None)"

end
