(* ===== verification/Tracking_IngestLaws.thy ===== *)
theory Tracking_IngestLaws
  imports Tracking_Ingest "HOL-Library.Sublist"
begin

text \<open>
  What ingestion promises: whatever mixture of live positions and batches arrives, the table of
  positions only grows, by rows of active vehicles of the right company and source, with one row
  per vehicle and instant (locale \<open>position_path\<close>, refined by both paths); and how the two paths
  differ.
\<close>

subsection \<open>Alerts leave the tables alone\<close>

definition sameTables :: "tstate \<Rightarrow> tstate \<Rightarrow> bool" where
  "sameTables s s' \<longleftrightarrow> ts_positions s' = ts_positions s \<and> ts_vehicles s' = ts_vehicles s
     \<and> ts_drivers s' = ts_drivers s \<and> ts_deliveries s' = ts_deliveries s
     \<and> ts_settings s' = ts_settings s \<and> ts_fences s' = ts_fences s"

lemma sameTables_refl [simp]: "sameTables s s"
  by (simp add: sameTables_def)

lemma sameTables_trans: "sameTables s t \<Longrightarrow> sameTables t u \<Longrightarrow> sameTables s u"
  by (simp add: sameTables_def)

lemma sameTables_updates [simp]:
  "sameTables s (s\<lparr>ts_cache := c\<rparr>)" "sameTables s (s\<lparr>ts_lastDelivery := m\<rparr>)" "sameTables s (alertOut es s)"
  "sameTables s (s\<lparr>ts_fenceEvents := fe\<rparr>)" "sameTables s (updMetrics f s)" "sameTables s (s\<lparr>ts_metrics := mm\<rparr>)"
  "sameTables s (setEnteredTime d v t s)" "sameTables s (removeEnteredTime d v s)"
  by (simp_all add: sameTables_def alertOut_def updMetrics_def setEnteredTime_def removeEnteredTime_def)

lemma sameTables_whenCool [simp]: "sameTables s (whenCool k secs es s)"
  by (simp add: sameTables_def whenCool_def cooldown_def alertOut_def Let_def split: option.split)

lemma sameTables_alerts [simp]:
  "sameTables s (speedAlert c u dto st s)" "sameTables s (delayAlert c u dto s)"
  "sameTables s (stopAlert c u dto prev st s)" "sameTables s (offlineAlert c u dto prev st s)"
proof -
  show "sameTables s (speedAlert c u dto st s)" using speedAlert_cases [of c u dto st s] by auto
  show "sameTables s (delayAlert c u dto s)" using delayAlert_cases [of c u dto s] by auto
  show "sameTables s (stopAlert c u dto prev st s)" "sameTables s (offlineAlert c u dto prev st s)"
    by (simp_all add: stopAlert_def offlineAlert_def Let_def split: option.split)
qed

lemma sameTables_fences [simp]: "sameTables s (emitGeofenceEvents d v lat lng c u s)"
  by (simp add: emitGeofenceEvents_def checkGeofences_def sameTables_def Let_def split_beta)

lemma sameTables_generateAlerts [simp]: "sameTables s (generateAlerts dto c d prev s)"
proof (cases "ts_settings s c")
  case None
  then show ?thesis by (simp add: generateAlerts_none)
next
  case (Some st)
  let ?u = "alertUser d s"
  let ?s4 = "offlineAlert c ?u dto prev st (delayAlert c ?u dto (stopAlert c ?u dto prev st (speedAlert c ?u dto st s)))"
  have "sameTables s ?s4" by (meson sameTables_alerts sameTables_trans)
  then show ?thesis
    using sameTables_trans [OF _ sameTables_fences, of s ?s4]
    by (simp add: generateAlerts_def Some Let_def split: option.split)
qed

lemma sameTables_checkProximity [simp]: "sameTables s (checkProximity dr v c lat lng s)"
  by (simp add: checkProximity_def sameTables_def Let_def setEnteredTime_def removeEnteredTime_def alertOut_def
      split: option.split)

lemma sameTables_afterSave [simp]: "sameTables s (afterSave d dto c susp prev s)"
  using sameTables_trans [OF sameTables_generateAlerts sameTables_checkProximity]
  by (simp add: afterSave_def Let_def split: option.split)

lemma sameTables_batchAlerts: "sameTables s (batchAlerts d c m gs s)"
proof (induction gs arbitrary: m s)
  case (Cons g gs)
  let ?s = "if gp_suspect g then s else generateAlerts (dtoOf g) c (Some d) (m (gp_vehicle g)) s"
  have "sameTables s ?s" by simp
  then have "sameTables s (batchAlerts d c (m(gp_vehicle g \<mapsto> g)) gs ?s)" by (rule sameTables_trans [OF _ Cons])
  then show ?case by (simp only: batchAlerts.simps)
qed simp

lemma sameTables_batchProximity: "sameTables s (batchProximity d c ins s)"
proof -
  have "sameTables s (fold (\<lambda>v s. case find (\<lambda>g. gp_vehicle g = v) ins of None \<Rightarrow> s
      | Some g \<Rightarrow> checkProximity d v c (gp_lat g) (gp_lng g) s) vs s)" for vs
  proof (induction vs arbitrary: s)
    case (Cons v vs)
    then show ?case
      by (cases "find (\<lambda>g. gp_vehicle g = v) ins") (auto intro: sameTables_trans [OF sameTables_checkProximity])
  qed simp
  then show ?thesis by (simp add: batchProximity_def)
qed

subsection \<open>The specification of a path\<close>

definition admissible :: "tstate \<Rightarrow> gps_position \<Rightarrow> bool" where
  "admissible s g \<longleftrightarrow>
     (\<exists>v\<in>set (ts_vehicles s). tv_id v = gp_vehicle g \<and> tv_active v \<and> \<not> tv_deleted v
        \<and> tv_company v = gp_company g \<and> (gp_source g = Phone \<longrightarrow> tv_source v = Phone))"

definition storeStep :: "tstate \<Rightarrow> tstate \<Rightarrow> bool" where
  "storeStep s s' \<longleftrightarrow>
     (\<exists>new. ts_positions s' = ts_positions s @ new \<and> (\<forall>g\<in>set new. admissible s g)
        \<and> distinct (map gpKey new) \<and> gpKey ` set new \<inter> gpKey ` set (ts_positions s) = {})
     \<and> ts_vehicles s' = ts_vehicles s"

lemma storeStep_same: "sameTables s s' \<Longrightarrow> storeStep s s'"
  by (auto simp: storeStep_def sameTables_def)

lemma storeStep_after: "storeStep s s' \<Longrightarrow> sameTables s' s'' \<Longrightarrow> storeStep s s''"
  by (simp add: storeStep_def sameTables_def)

lemma storeStep_before: "sameTables s s' \<Longrightarrow> storeStep s' s'' \<Longrightarrow> storeStep s s''"
  by (simp add: storeStep_def sameTables_def admissible_def)

lemma storeStep_trans:
  assumes "storeStep s t" and "storeStep t u"
  shows "storeStep s u"
proof -
  from assms obtain n1 n2 where n: "ts_positions t = ts_positions s @ n1" "ts_positions u = ts_positions t @ n2"
    "\<forall>g\<in>set n1. admissible s g" "\<forall>g\<in>set n2. admissible t g" "distinct (map gpKey n1)" "distinct (map gpKey n2)"
    "gpKey ` set n1 \<inter> gpKey ` set (ts_positions s) = {}" "gpKey ` set n2 \<inter> gpKey ` set (ts_positions t) = {}"
    "ts_vehicles t = ts_vehicles s" "ts_vehicles u = ts_vehicles t"
    unfolding storeStep_def by auto
  then show ?thesis
    unfolding storeStep_def admissible_def
    by (intro conjI exI [of _ "n1 @ n2"]) (auto simp: image_Un Int_Un_distrib)
qed

locale position_path =
  fixes path :: "'a \<Rightarrow> tstate \<Rightarrow> tstate"
    and allowed :: "'a \<Rightarrow> bool"
  assumes stores: "allowed a \<Longrightarrow> storeStep s (path a s)"
begin

lemma run_stores:
  assumes "\<forall>a\<in>snd ` set evs. allowed a"
  shows "storeStep s (runAt path evs s)"
  using assms
proof (induction evs rule: rev_induct)
  case (snoc e evs)
  obtain t a where e: "e = (t, a)" by fastforce
  have tick: "sameTables (runAt path evs s) ((runAt path evs s)\<lparr>ts_now := t\<rparr>)" by (simp add: sameTables_def)
  have "allowed a" and "storeStep s (runAt path evs s)" using snoc e by auto
  with storeStep_trans [OF _ storeStep_before [OF tick stores]] show ?case by (simp add: e)
qed (simp add: storeStep_same)

lemma run_keeps_keys_distinct:
  assumes "\<forall>a\<in>snd ` set evs. allowed a" and "distinct (map gpKey (ts_positions s))"
  shows "distinct (map gpKey (ts_positions (runAt path evs s)))"
  using run_stores [OF assms(1), of s] assms(2)
  by (elim storeStep_def [THEN iffD1, elim_format] conjE exE) (simp add: Int_commute)

lemma run_rows_admissible:
  assumes "\<forall>a\<in>snd ` set evs. allowed a" and "\<forall>g\<in>set (ts_positions s). admissible s g"
  shows "\<forall>g\<in>set (ts_positions (runAt path evs s)). admissible (runAt path evs s) g"
  using run_stores [OF assms(1), of s] assms(2) by (auto simp: storeStep_def admissible_def)

lemma run_only_appends:
  assumes "\<forall>a\<in>snd ` set evs. allowed a"
  shows "\<exists>new. ts_positions (runAt path evs s) = ts_positions s @ new"
  using run_stores [OF assms, of s] by (auto simp: storeStep_def)

end

text \<open>Two paths into the same table are one path.\<close>

definition eitherPath :: "('a \<Rightarrow> tstate \<Rightarrow> tstate) \<Rightarrow> ('b \<Rightarrow> tstate \<Rightarrow> tstate) \<Rightarrow> 'a + 'b \<Rightarrow> tstate \<Rightarrow> tstate" where
  "eitherPath p q e s = (case e of Inl a \<Rightarrow> p a s | Inr b \<Rightarrow> q b s)"

definition eitherAllowed :: "('a \<Rightarrow> bool) \<Rightarrow> ('b \<Rightarrow> bool) \<Rightarrow> 'a + 'b \<Rightarrow> bool" where
  "eitherAllowed p q e = (case e of Inl a \<Rightarrow> p a | Inr b \<Rightarrow> q b)"

locale path_pair = first: position_path path1 allowed1 + second: position_path path2 allowed2
  for path1 :: "'a \<Rightarrow> tstate \<Rightarrow> tstate" and allowed1 and path2 :: "'b \<Rightarrow> tstate \<Rightarrow> tstate" and allowed2

sublocale path_pair \<subseteq> both: position_path "eitherPath path1 path2" "eitherAllowed allowed1 allowed2"
  by unfold_locales
    (auto simp: eitherPath_def eitherAllowed_def first.stores second.stores split: sum.splits)

subsection \<open>The two paths refine it\<close>

lemma insertPosition_Some:
  "insertPosition g s = Some s' \<longleftrightarrow> gpKey g \<notin> gpKey ` set (ts_positions s) \<and> s' = s\<lparr>ts_positions := ts_positions s @ [g]\<rparr>"
  by (auto simp: insertPosition_def)

lemma insertPosition_stores: "insertPosition g s = Some s' \<Longrightarrow> admissible s g \<Longrightarrow> storeStep s s'"
  by (auto simp: insertPosition_Some storeStep_def)

definition liveFor :: "ident option \<times> position_dto \<times> ident option \<times> position_source \<Rightarrow> tstate \<Rightarrow> tstate" where
  "liveFor a s = (case a of (driver, dto, company, src) \<Rightarrow> snd (savePosition driver dto company src s))"

definition batchFor :: "ident \<times> ident \<times> position_dto list \<times> ident \<Rightarrow> tstate \<Rightarrow> tstate" where
  "batchFor a s = (case a of (user, driver, ps, company) \<Rightarrow> snd (saveBatch user driver ps company s))"

definition batchAllowed :: "ident \<times> ident \<times> position_dto list \<times> ident \<Rightarrow> bool" where
  "batchAllowed a = (case a of (user, driver, ps, company) \<Rightarrow> company \<noteq> [])"

lemma given_eq: "given c = Some x \<Longrightarrow> c = Some x"
  by (auto simp: given_def split: option.splits list.splits)

lemma savePosition_stores: "storeStep s0 (snd (savePosition driver dto company src s0))"
proof -
  let ?s = "updMetrics (\<lambda>m. m\<lparr>m_received := Suc (m_received m)\<rparr>) s0"
  have pre: "sameTables s0 (updMetrics f (updMetrics h s0))" "sameTables s0 (updMetrics h s0)" for f h
    using sameTables_trans [OF sameTables_updates(5) sameTables_updates(5)] by simp_all
  show ?thesis
  proof (cases "find (\<lambda>v. tv_id v = po_vehicle dto \<and> \<not> tv_deleted v \<and> tv_active v) (ts_vehicles ?s)")
    case None
    with pre show ?thesis by (simp add: savePosition_def Let_def storeStep_same)
  next
    case (Some v)
    then have v: "v \<in> set (ts_vehicles s0)" "tv_id v = po_vehicle dto" "\<not> tv_deleted v" "tv_active v"
      by (auto simp: find_Some_iff updMetrics_def)
    define susp where "susp = detectTeleportation (po_lat dto) (po_lng dto) (po_time dto) (po_vehicle dto)
                      (po_acc dto) src (po_speed dto) ?s"
    define s1 where "s1 = (if susp then updMetrics (\<lambda>m. m\<lparr>m_teleported := Suc (m_teleported m)\<rparr>) ?s else ?s)"
    define g where "g = rowOf driver dto (nullish (given company) (tv_company v)) src susp"
    have s1: "sameTables s0 s1" using pre by (simp add: s1_def)
    show ?thesis
    proof (cases "shortId (po_vehicle dto) \<or> (\<exists>d. po_delivery dto = Some d \<and> shortId d)
        \<or> given company \<noteq> None \<and> company \<noteq> Some (tv_company v) \<or> src = Phone \<and> tv_source v = PhysicalTracker
        \<or> isDuplicateByTimestamp (po_vehicle dto) (po_delivery dto) (po_time dto) ?s \<or> insertPosition g s1 = None")
      case True
      with Some pre s1 sameTables_trans [OF s1 sameTables_updates(5)] show ?thesis
        by (auto simp: savePosition_def Let_def susp_def s1_def g_def intro!: storeStep_same)
    next
      case False
      then obtain s2 where s2: "insertPosition g s1 = Some s2" by blast
      have "tv_company v = nullish (given company) (tv_company v)"
        using False given_eq by (cases "given company") auto
      moreover have "src = Phone \<longrightarrow> tv_source v = Phone" using False by (cases "tv_source v") auto
      ultimately have "admissible s1 g"
        using v s1 unfolding admissible_def g_def rowOf_def sameTables_def by fastforce
      then have st: "storeStep s0 s2" by (rule storeStep_before [OF s1 insertPosition_stores [OF s2]])
      define s3 where "s3 = updMetrics (\<lambda>m. m\<lparr>m_saved := Suc (m_saved m)\<rparr>) s2"
      define s4 where "s4 = (if m_received (ts_metrics s3) mod 100 = 0 then updMetrics logMetrics s3 else s3)"
      have "sameTables s2 s4" unfolding s4_def s3_def
        using sameTables_trans [OF sameTables_updates(5) sameTables_updates(5)] by simp
      then have "sameTables s2 (afterSave driver dto company susp (getLastPosition (po_vehicle dto) False s1) s4)"
        by (rule sameTables_trans) simp
      with st have "storeStep s0 (afterSave driver dto company susp (getLastPosition (po_vehicle dto) False s1) s4)"
        by (rule storeStep_after)
      moreover have "snd (savePosition driver dto company src s0)
          = afterSave driver dto company susp (getLastPosition (po_vehicle dto) False s1) s4"
        using False unfolding savePosition_def Let_def Some option.case susp_def [symmetric]
        unfolding s1_def [symmetric] g_def [symmetric]
        unfolding s2 option.case s3_def [symmetric] s4_def [symmetric] by (cases "tv_source v") auto
      ultimately show ?thesis by simp
    qed
  qed
qed

text \<open>What is stored when nothing stands in the way.\<close>

lemma updMetrics_tables [simp]:
  "ts_positions (updMetrics f s) = ts_positions s" "ts_vehicles (updMetrics f s) = ts_vehicles s"
  by (simp_all add: updMetrics_def)

lemma queries_updMetrics [simp]:
  "isDuplicateByTimestamp v d t (updMetrics f s) = isDuplicateByTimestamp v d t s"
  "detectTeleportation lat lng t v acc src spd (updMetrics f s) = detectTeleportation lat lng t v acc src spd s"
  "getLastPosition v b (updMetrics f s) = getLastPosition v b s"
  unfolding isDuplicateByTimestamp_def detectTeleportation_def teleportReference_def getLastPosition_def updMetrics_tables
  by (rule refl)+

lemma savePosition_saved:
  assumes "\<not> shortId (po_vehicle dto)" and "\<And>d. po_delivery dto = Some d \<Longrightarrow> \<not> shortId d"
    and "find (\<lambda>v. tv_id v = po_vehicle dto \<and> \<not> tv_deleted v \<and> tv_active v) (ts_vehicles s) = Some v"
    and "company = Some (tv_company v)" and "\<not> (src = Phone \<and> tv_source v = PhysicalTracker)"
    and "\<not> isDuplicateByTimestamp (po_vehicle dto) (po_delivery dto) (po_time dto) s"
    and "(po_vehicle dto, po_time dto) \<notin> gpKey ` set (ts_positions s)"
  shows "fst (savePosition driver dto company src s)
       = Some (rowOf driver dto (tv_company v) src
           (detectTeleportation (po_lat dto) (po_lng dto) (po_time dto) (po_vehicle dto) (po_acc dto) src (po_speed dto) s))"
    and "ts_positions (snd (savePosition driver dto company src s)) = ts_positions s
       @ [rowOf driver dto (tv_company v) src
           (detectTeleportation (po_lat dto) (po_lng dto) (po_time dto) (po_vehicle dto) (po_acc dto) src (po_speed dto) s)]"
proof -
  have given: "nullish (given (Some c)) c = c" for c
    by (auto simp: given_def split: list.split)
  have ins: "insertPosition (rowOf driver dto c src susp) t = Some (t\<lparr>ts_positions := ts_positions s @ [rowOf driver dto c src susp]\<rparr>)"
    if "ts_positions t = ts_positions s" for c susp t
    using assms(7) that by (simp add: insertPosition_def gpKey_def rowOf_def)
  have after: "ts_positions (afterSave d x c susp prev t) = ts_positions t" for d x c susp prev t
    using sameTables_afterSave by (simp add: sameTables_def)
  show "fst (savePosition driver dto company src s)
       = Some (rowOf driver dto (tv_company v) src
           (detectTeleportation (po_lat dto) (po_lng dto) (po_time dto) (po_vehicle dto) (po_acc dto) src (po_speed dto) s))"
    using assms by (simp add: savePosition_def Let_def given ins)
  show "ts_positions (snd (savePosition driver dto company src s)) = ts_positions s
       @ [rowOf driver dto (tv_company v) src
           (detectTeleportation (po_lat dto) (po_lng dto) (po_time dto) (po_vehicle dto) (po_acc dto) src (po_speed dto) s)]"
    using assms by (simp add: savePosition_def Let_def given ins after)
qed

interpretation live: position_path liveFor "\<lambda>a. True"
  by unfold_locales (simp add: liveFor_def savePosition_stores split: prod.split)

subsection \<open>The rows of a batch\<close>

lemma set_subseq: "subseq xs ys \<Longrightarrow> set xs \<subseteq> set ys"
  by (induction rule: list_emb.induct) auto

lemma batchStep_out:
  "bc_out (batchStep driver company db p c) = bc_out c
   \<or> (\<exists>v susp. bc_out (batchStep driver company db p c)
        = bc_out c @ [rowOf (Some driver) (p\<lparr>po_speed := Some v\<rparr>) company Phone susp])"
  by (simp add: batchStep_def Let_def) blast

definition fromDto :: "ident \<Rightarrow> ident \<Rightarrow> position_dto \<Rightarrow> gps_position \<Rightarrow> bool" where
  "fromDto driver company p g \<longleftrightarrow>
     (\<exists>v susp. g = rowOf (Some driver) (p\<lparr>po_speed := Some v\<rparr>) company Phone susp)"

lemma fromDto_fields:
  "fromDto driver company p g \<Longrightarrow> gp_vehicle g = po_vehicle p \<and> gp_time g = po_time p \<and> gp_company g = company
     \<and> gp_source g = Phone \<and> gp_driver g = Some driver \<and> gp_lat g = po_lat p \<and> gp_lng g = po_lng p
     \<and> gp_delivery g = po_delivery p"
  by (auto simp: fromDto_def rowOf_def)

text \<open>The rows come from the positions, in order, each at most once.\<close>

lemma batchFold_out:
  "\<exists>qs. subseq qs ps \<and> (\<exists>new. bc_out (fold (batchStep driver company db) ps c) = bc_out c @ new
      \<and> list_all2 (fromDto driver company) qs new)"
proof (induction ps arbitrary: c)
  case (Cons p ps)
  let ?c = "batchStep driver company db p c"
  obtain qs new where IH: "subseq qs ps" "bc_out (fold (batchStep driver company db) ps ?c) = bc_out ?c @ new"
    "list_all2 (fromDto driver company) qs new" using Cons by blast
  from batchStep_out [of driver company db p c] show ?case
  proof
    assume "bc_out ?c = bc_out c"
    with IH show ?thesis by (intro exI [of _ qs] conjI exI [of _ new]) auto
  next
    assume "\<exists>v susp. bc_out ?c = bc_out c @ [rowOf (Some driver) (p\<lparr>po_speed := Some v\<rparr>) company Phone susp]"
    then obtain g where "bc_out ?c = bc_out c @ [g]" "fromDto driver company p g" by (auto simp: fromDto_def)
    with IH show ?thesis by (intro exI [of _ "p # qs"] conjI exI [of _ "g # new"]) auto
  qed
qed simp

lemma batchRows_out:
  "\<exists>qs. subseq qs (sort_key po_time (validPositions (verifiedDelivery user driver s) (validBatchVehicle company s) ps))
     \<and> list_all2 (fromDto driver company) qs (bc_out (batchRows user driver company ps s))"
proof -
  obtain qs new where "subseq qs (sort_key po_time (validPositions (verifiedDelivery user driver s) (validBatchVehicle company s) ps))"
    "bc_out (batchRows user driver company ps s) = bc_out (batchStart s) @ new" "list_all2 (fromDto driver company) qs new"
    unfolding batchRows_def by (metis batchFold_out)
  then show ?thesis by (intro exI conjI) (auto simp: batchStart_def)
qed

lemma validPositions_vehicle: "p \<in> set (validPositions verified okVehicle ps) \<Longrightarrow> okVehicle (po_vehicle p)"
  by (auto simp: validPositions_def)

lemma batchRows_admissible:
  assumes "company \<noteq> []" and "g \<in> set (bc_out (batchRows user driver company ps s))"
  shows "admissible s g"
proof -
  obtain qs where qs: "subseq qs (sort_key po_time (validPositions (verifiedDelivery user driver s) (validBatchVehicle company s) ps))"
    "list_all2 (fromDto driver company) qs (bc_out (batchRows user driver company ps s))"
    using batchRows_out by blast
  from assms(2) obtain k where k: "k < length (bc_out (batchRows user driver company ps s))"
    "g = bc_out (batchRows user driver company ps s) ! k" by (auto simp: in_set_conv_nth)
  with qs(2) have "fromDto driver company (qs ! k) g" "qs ! k \<in> set qs"
    by (auto simp: list_all2_conv_all_nth)
  moreover from this qs(1) have "validBatchVehicle company s (po_vehicle (qs ! k))"
    using set_subseq validPositions_vehicle [of "qs ! k"] by fastforce
  ultimately show ?thesis
    using assms(1) fromDto_fields [of driver company "qs ! k" g]
    by (auto simp: admissible_def validBatchVehicle_def)
qed

lemma diff_cap: "(A - B) \<inter> B = {}"
  by blast

lemma insertMany_spec:
  "insertMany gs s = (ins, s') \<Longrightarrow> s' = s\<lparr>ts_positions := ts_positions s @ ins\<rparr> \<and> subseq ins gs
     \<and> distinct (map gpKey ins) \<and> gpKey ` set ins \<inter> gpKey ` set (ts_positions s) = {}
     \<and> gpKey ` set ins = gpKey ` set gs - gpKey ` set (ts_positions s)"
proof (induction gs s arbitrary: ins s' rule: insertMany.induct)
  case (2 g gs s)
  show ?case
  proof (cases "insertPosition g s")
    case None
    then have key: "gpKey g \<in> gpKey ` set (ts_positions s)" and ins: "insertMany gs s = (ins, s')"
      using "2.prems" by (simp_all add: insertPosition_def split: if_splits)
    from "2.IH"(1) [OF None ins] key show ?thesis by (intro conjI list_emb_Cons) (simp_all add: insert_Diff_if diff_cap)
  next
    case (Some s1)
    then obtain ins' where ins: "insertMany gs s1 = (ins', s')" "ins = g # ins'"
      using "2.prems" by (auto split: prod.splits)
    from Some have s1: "gpKey g \<notin> gpKey ` set (ts_positions s)" "s1 = s\<lparr>ts_positions := ts_positions s @ [g]\<rparr>"
      by (simp_all add: insertPosition_Some)
    have IH0: "s' = s1\<lparr>ts_positions := ts_positions s1 @ ins'\<rparr>" "subseq ins' gs" "distinct (map gpKey ins')"
      "gpKey ` set ins' \<inter> gpKey ` set (ts_positions s1) = {}"
      "gpKey ` set ins' = gpKey ` set gs - gpKey ` set (ts_positions s1)"
      using "2.IH"(2) [OF Some ins(1)] by blast+
    have table: "ts_positions s1 = ts_positions s @ [g]" by (simp add: s1(2))
    note IH = IH0 [unfolded table]
    have "gpKey g \<notin> gpKey ` set ins'" using IH(4) by auto
    moreover have "gpKey ` set (g # ins') = gpKey ` set (g # gs) - gpKey ` set (ts_positions s)"
    proof -
      have "insert k (B - (A \<union> {k})) = insert k B - A" if "k \<notin> A" for k :: "ident \<times> ms" and A B
        using that by blast
      from this [OF s1(1)] show ?thesis using IH(5) by (simp add: image_Un)
    qed
    moreover have "gpKey ` set (g # ins') \<inter> gpKey ` set (ts_positions s) = {}"
    proof -
      have "insert k X \<inter> A = {}" if "k \<notin> A" "X \<inter> (A \<union> {k}) = {}" for k :: "ident \<times> ms" and X A
        using that by blast
      from this [OF s1(1)] show ?thesis using IH(4) by (simp only: list.set image_insert image_Un set_append image_empty)
    qed
    moreover have "s' = s\<lparr>ts_positions := ts_positions s @ g # ins'\<rparr>" using IH(1) s1(2) by simp
    ultimately show ?thesis using IH(2,3) unfolding ins(2) by simp
  qed
qed simp

lemma saveBatch_result:
  "\<exists>m s3. insertMany (bc_out (batchRows user driver company ps s)) (s\<lparr>ts_metrics := m\<rparr>) = (fst (saveBatch user driver ps company s), s3)
     \<and> sameTables s3 (snd (saveBatch user driver ps company s))"
proof (cases "bc_out (batchRows user driver company ps s) = []")
  case True
  then show ?thesis
    by (intro exI [of _ "bc_metrics (batchRows user driver company ps s)"]) (simp add: saveBatch_def Let_def)
next
  case False
  define mm where "mm = (bc_metrics (batchRows user driver company ps s))\<lparr>m_batchSaved :=
    m_batchSaved (bc_metrics (batchRows user driver company ps s)) + length (bc_out (batchRows user driver company ps s))\<rparr>"
  obtain ins s3 where ins: "insertMany (bc_out (batchRows user driver company ps s)) (s\<lparr>ts_metrics := mm\<rparr>) = (ins, s3)"
    by fastforce
  define s4 where "s4 = updMetrics (\<lambda>m. m\<lparr>m_saved := m_saved m + length ins\<rparr>) s3"
  have res: "saveBatch user driver ps company s = (ins, if company = [] then s4
      else batchProximity driver company ins (batchAlerts driver company Map.empty ins s4))"
    using False ins by (simp add: saveBatch_def Let_def mm_def s4_def updMetrics_def)
  have "sameTables s3 s4" by (simp add: s4_def)
  moreover have "sameTables s4 (batchProximity driver company ins (batchAlerts driver company Map.empty ins s4))"
    by (rule sameTables_trans [OF sameTables_batchAlerts sameTables_batchProximity])
  ultimately have "sameTables s3 (snd (saveBatch user driver ps company s))"
    unfolding res by (simp add: sameTables_trans)
  with ins show ?thesis unfolding res by (intro exI [of _ mm] exI [of _ s3]) simp
qed

lemma saveBatch_positions:
  "ts_positions (snd (saveBatch user driver ps company s)) = ts_positions s @ fst (saveBatch user driver ps company s)"
  "subseq (fst (saveBatch user driver ps company s)) (bc_out (batchRows user driver company ps s))"
  "distinct (map gpKey (fst (saveBatch user driver ps company s)))"
  "gpKey ` set (fst (saveBatch user driver ps company s))
     = gpKey ` set (bc_out (batchRows user driver company ps s)) - gpKey ` set (ts_positions s)"
  "ts_vehicles (snd (saveBatch user driver ps company s)) = ts_vehicles s"
  "ts_deliveries (snd (saveBatch user driver ps company s)) = ts_deliveries s"
proof -
  obtain m s3 where s3: "insertMany (bc_out (batchRows user driver company ps s)) (s\<lparr>ts_metrics := m\<rparr>)
      = (fst (saveBatch user driver ps company s), s3)" "sameTables s3 (snd (saveBatch user driver ps company s))"
    using saveBatch_result by blast
  from insertMany_spec [OF s3(1)] s3(2)
  show "ts_positions (snd (saveBatch user driver ps company s)) = ts_positions s @ fst (saveBatch user driver ps company s)"
    "subseq (fst (saveBatch user driver ps company s)) (bc_out (batchRows user driver company ps s))"
    "distinct (map gpKey (fst (saveBatch user driver ps company s)))"
    "gpKey ` set (fst (saveBatch user driver ps company s))
       = gpKey ` set (bc_out (batchRows user driver company ps s)) - gpKey ` set (ts_positions s)"
    "ts_vehicles (snd (saveBatch user driver ps company s)) = ts_vehicles s"
    "ts_deliveries (snd (saveBatch user driver ps company s)) = ts_deliveries s"
    by (simp_all add: sameTables_def)
qed

lemma saveBatch_stores: "company \<noteq> [] \<Longrightarrow> storeStep s (snd (saveBatch user driver ps company s))"
  using saveBatch_positions [of user driver ps company s]
    batchRows_admissible [of company _ user driver ps s] set_subseq
  unfolding storeStep_def by (intro conjI exI [of _ "fst (saveBatch user driver ps company s)"]) blast+

interpretation batch: position_path batchFor batchAllowed
  by unfold_locales (auto simp: batchFor_def batchAllowed_def saveBatch_stores split: prod.splits)

interpretation ingest: path_pair liveFor "\<lambda>a. True" batchFor batchAllowed
  by unfold_locales

end
