(* ===== verification/Tracking_AlertLaws.thy ===== *)
theory Tracking_AlertLaws
  imports Tracking_Alerts
begin

text \<open>
  What the alerts of \<open>Tracking_Alerts\<close> promise over whole sequences of positions: geofence events
  are the edges of the trace, throttled alerts come once a window, a snooze is silence, and the
  escalation counts from the entry. The prolonged stop does not keep its promise.
\<close>

text \<open>C23. For a vehicle that starts without history on a geofence, the events recorded for that fence
over any sequence of positions are exactly the changes of being inside: entry first, then exit and
entry in turn, no edge missed and none repeated.\<close>

theorem geofence_events_are_the_edges:
  assumes "f \<in> set (ts_fences s)" and "gf_delivery f = delivery"
    and "distinct (map gf_id (filter (\<lambda>f. gf_delivery f = delivery) (ts_fences s)))"
    and "crossings delivery vehicle (gf_id f) s = []"
  shows "crossings delivery vehicle (gf_id f) (fenceRun delivery vehicle ps s)
       = edges False (map (\<lambda>(lat, lng). insideFence lat lng f) ps)"
  using fenceRun_crossings [OF assms] by blast

definition gateFence :: geofence where
  "gateFence = \<lparr>gf_id = ''gate'', gf_delivery = jobId, gf_lat = 0, gf_lng = 0, gf_radius = 100\<rparr>"

lemma fleet_fence: "ts_fences fleet = [gateFence]" "gf_delivery gateFence = jobId" "crossings d v i fleet = []"
  by (simp_all add: fleet_def gateFence_def crossings_def)

lemma gate_sides: "\<not> insideFence (north 500) 0 gateFence" "insideFence 0 0 gateFence"
  using haversine_north [of 500 0 0]
  by (simp_all add: insideFence_def gateFence_def north_def haversineDistance_commute)

theorem geofence_events_are_the_edges_witness:
  "crossings jobId vanId (gf_id gateFence) (fenceRun jobId vanId [(0, 0), (0, 0), (north 500, 0), (0, 0)] fleet)
     = [True, False, True]"
  by (subst geofence_events_are_the_edges) (simp_all add: fleet_fence gate_sides)

definition inWindow :: "ms \<Rightarrow> int \<Rightarrow> (ms \<times> 'a) list \<Rightarrow> bool" where
  "inWindow t0 secs evs \<longleftrightarrow> (\<forall>t\<in>fst ` set evs. t0 \<le> t \<and> t < t0 + secs * 1000)"


definition speeding :: "(ms \<times> alert_call) list" where
  "speeding = map (\<lambda>t. (t, fixAt t 30, acmeId, Some ''drv'', None)) [0, 1000, 299000]"

lemma speeding_window: "inWindow 0 300 speeding" "inWindow 0 900 speeding"
  by (simp_all add: inWindow_def speeding_def)

lemma fleet_quiet [simp]: "alertCount p fleet = 0"
  by (simp add: alertCount_def fleet_def)


lemma stopAlert_short_gap:
  assumes "cs_stopMinutes st = Some m"
    and "\<And>g. prev = Some g \<Longrightarrow> real_of_int (po_time dto - gp_time g) / 60000 < m"
  shows "stopAlert c u dto prev st s = s"
  using assms by (auto simp: stopAlert_def Let_def split: option.split)

lemma alert_frames [simp]:
  "ts_settings (speedAlert c u dto st s) = ts_settings s" "ts_settings (stopAlert c u dto prev st s) = ts_settings s"
  "ts_settings (delayAlert c u dto s) = ts_settings s" "ts_settings (offlineAlert c u dto prev st s) = ts_settings s"
  "ts_settings (emitGeofenceEvents d v lat lng c u s) = ts_settings s"
  using speedAlert_cases [of c u dto st s] delayAlert_cases [of c u dto s]
  by (auto simp: whenCool_def cooldown_def Let_def stopAlert_def offlineAlert_def emitGeofenceEvents_def
      checkGeofences_def split_beta split: option.splits)

lemma generateAlerts_settings [simp]: "ts_settings (generateAlerts dto c d prev s) = ts_settings s"
  by (simp add: generateAlerts_def Let_def split: option.split)

lemma alertsFor_call: "alertsFor (dto, c, driver, prev) s = generateAlerts dto c driver prev s"
  by (simp add: alertsFor_def)

definition reportsBefore :: "real \<Rightarrow> ident \<Rightarrow> alert_call \<Rightarrow> bool" where
  "reportsBefore minutes company a \<longleftrightarrow>
     (case a of (dto, c, driver, prev) \<Rightarrow> c = company
        \<and> (\<forall>g. prev = Some g \<longrightarrow> real_of_int (po_time dto - gp_time g) / 60000 < minutes))"

text \<open>A vehicle that stays parked and keeps reporting at intervals shorter than the company's
\<open>prolongedStopMinutes\<close> never raises the prolonged stop alert, however long it stays: the code
measures the stop from the previous position only.\<close>
theorem reporting_vehicle_never_stops_long:
  assumes "ts_settings s company = Some st" and "cs_stopMinutes st = Some m"
    and "\<forall>a\<in>snd ` set evs. reportsBefore m company a"
  shows "alertCount isStopAlert (runAt alertsFor evs s) = alertCount isStopAlert s"
proof -
  have "alertCount isStopAlert (runAt alertsFor evs s) = alertCount isStopAlert s
      \<and> ts_settings (runAt alertsFor evs s) = ts_settings s"
    using assms(3)
  proof (induction evs rule: rev_induct)
    case (snoc e evs)
    obtain t dto c driver prev where e: "e = (t, dto, c, driver, prev)" by (cases e) auto
    let ?s = "(runAt alertsFor evs s)\<lparr>ts_now := t\<rparr>"
    have st: "ts_settings ?s company = Some st" using snoc assms(1) by simp
    have r: "c = company" "\<And>g. prev = Some g \<Longrightarrow> real_of_int (po_time dto - gp_time g) / 60000 < m"
      using snoc.prems e by (auto simp: reportsBefore_def)
    have other: "fenceOnly isStopAlert" "\<not> isStopAlert (OfflineAlert company x y u)"
      "\<not> isStopAlert (DelayAlert company x y u)" "\<not> isStopAlert (SpeedAlert company x y u)" for x y u
      by (simp_all add: alert_kinds)
    show ?case
      using snoc generateAlerts_count [OF st other(1,2), of dto driver prev] stopAlert_short_gap [OF assms(2), of prev dto, OF r(2)]
      by (simp add: e r(1) alertsFor_call delayAlert_apart speedAlert_apart other)
  qed simp
  then show ?thesis by blast
qed

definition parked :: "(ms \<times> alert_call) list" where
  "parked = map (\<lambda>t. (t, fixAt t 0, acmeId, Some ''drv'', Some (storedAt (t - 600000) 0)))
     [600000, 1200000, 1800000, 2400000, 3000000, 3600000]"

lemma parked_reports: "\<forall>a\<in>snd ` set parked. reportsBefore 15 acmeId a"
  by (simp add: parked_def reportsBefore_def fixAt_def storedAt_def)

lemma fleet_settings:
  "ts_settings fleet acmeId = Some \<lparr>cs_speedLimit = Some 90, cs_stopMinutes = Some 15, cs_offlineMinutes = Some 60\<rparr>"
  "cs_stopMinutes \<lparr>cs_speedLimit = Some 90, cs_stopMinutes = Some 15, cs_offlineMinutes = Some 60\<rparr> = Some 15"
  by (simp_all add: fleet_def)

theorem reporting_vehicle_never_stops_long_witness:
  "alertCount isStopAlert (runAt alertsFor parked fleet) = 0"
  using reporting_vehicle_never_stops_long [OF fleet_settings parked_reports] by simp

subsection \<open>Proximity\<close>

type_synonym proximity_call = "ident \<times> ident \<times> ident \<times> real \<times> real"

definition proximityFor :: "proximity_call \<Rightarrow> tstate \<Rightarrow> tstate" where
  "proximityFor a s = (case a of (driver, vehicle, company, lat, lng) \<Rightarrow> checkProximity driver vehicle company lat lng s)"

definition isProximityAlert :: "ident \<Rightarrow> ident \<Rightarrow> track_effect \<Rightarrow> bool" where
  "isProximityAlert d v e = (case e of ProximityAlert c u i w l \<Rightarrow> i = d \<and> w = v | _ \<Rightarrow> False)"

lemma proximity_keys [simp]: "proximityKey d v \<noteq> snoozeKey d' v'" "snoozeKey d' v' \<noteq> proximityKey d v"
  by (simp_all add: proximityKey_def snoozeKey_def)

lemma entered_frames [simp]:
  "ts_cache (setEnteredTime d v t s) (snoozeKey d' v') = ts_cache s (snoozeKey d' v')"
  "ts_cache (removeEnteredTime d v s) (snoozeKey d' v') = ts_cache s (snoozeKey d' v')"
  "alertCount p (setEnteredTime d v t s) = alertCount p s" "alertCount p (removeEnteredTime d v s) = alertCount p s"
  "ts_now (setEnteredTime d v t s) = ts_now s" "ts_now (removeEnteredTime d v s) = ts_now s"
  by (simp_all add: setEnteredTime_def removeEnteredTime_def cacheSet_def)

lemma alertCount_lastDelivery [simp]: "alertCount p (s\<lparr>ts_lastDelivery := m\<rparr>) = alertCount p s"
  by (simp add: alertCount_def)

text \<open>What one check does to the snooze and, while it lasts, to the alerts.\<close>

lemma isSnoozed_frames [simp]:
  "isSnoozed d v (setEnteredTime d' v' t s) = isSnoozed d v s"
  "isSnoozed d v (s\<lparr>ts_lastDelivery := m\<rparr>) = isSnoozed d v s"
  by (simp_all add: isSnoozed_def cacheGet_def split: option.split cache_value.split)

lemma proximityFor_call: "proximityFor (driver, vehicle, c, lat, lng) s = checkProximity driver vehicle c lat lng s"
  by (simp add: proximityFor_def)

lemma checkProximity_snooze:
  "ts_cache (checkProximity driver vehicle company lat lng s) (snoozeKey d v) = ts_cache s (snoozeKey d v)"
  by (simp add: checkProximity_def Let_def split: option.split)

lemma checkProximity_snoozed:
  assumes "isSnoozed d v s"
  shows "alertCount (isProximityAlert d v) (checkProximity driver vehicle company lat lng s)
       = alertCount (isProximityAlert d v) s"
  using assms by (auto simp: checkProximity_def Let_def isProximityAlert_def split: option.split)

definition snoozeMillis :: "nat \<Rightarrow> ms" where
  "snoozeMillis level = (if 2 \<le> level then 2 * 60 * 1000 else 5 * 60 * 1000)"

lemma snoozed_until:
  assumes "ts_cache s' (snoozeKey d v) = ts_cache (snoozeProximity d v level s) (snoozeKey d v)"
    and "ts_now s' < ts_now s + snoozeMillis level"
  shows "isSnoozed d v s'"
  using assms by (auto simp: isSnoozed_def cacheGet_def snoozeProximity_def cacheSet_def Let_def
      SNOOZE_MS_def ESCALATION_SNOOZE_MS_def snoozeMillis_def split: if_splits)

text \<open>Once a driver dismisses a proximity alert, no position of any vehicle brings the alert of
that delivery and vehicle back before the snooze ends: five minutes, or two from the second
escalation level on.\<close>

theorem snooze_silences_proximity:
  assumes "\<forall>t\<in>fst ` set evs. t < ts_now s + snoozeMillis level"
  shows "alertCount (isProximityAlert d v) (runAt proximityFor evs (snoozeProximity d v level s))
       = alertCount (isProximityAlert d v) s"
proof -
  let ?s0 = "snoozeProximity d v level s"
  have "alertCount (isProximityAlert d v) (runAt proximityFor evs ?s0) = alertCount (isProximityAlert d v) s
      \<and> ts_cache (runAt proximityFor evs ?s0) (snoozeKey d v) = ts_cache ?s0 (snoozeKey d v)"
    using assms
  proof (induction evs rule: rev_induct)
    case Nil
    then show ?case by (simp add: snoozeProximity_def Let_def)
  next
    case (snoc e evs)
    obtain t driver vehicle company lat lng where e: "e = (t, driver, vehicle, company, lat, lng)"
      by (cases e) auto
    let ?s = "(runAt proximityFor evs ?s0)\<lparr>ts_now := t\<rparr>"
    have "isSnoozed d v ?s"
      by (rule snoozed_until [of _ _ _ level s]) (use snoc e in auto)
    with snoc checkProximity_snoozed checkProximity_snooze show ?case
      by (simp add: e proximityFor_call)
  qed
  then show ?thesis by blast
qed

lemma fleet_job: "inProgressFor ''drv'' fleet = Some (jobId, fleetJob)"
  "find (\<lambda>r. td_id r = ''drv'') (ts_drivers fleet) = Some \<lparr>td_id = ''drv'', td_user = Some ''usr'',
     td_active = True, td_deleted = False, td_vehicle = Some vanId\<rparr>"
  "deliveryLat fleetJob = Some 0" "deliveryLng fleetJob = Some 0"
  by (simp_all add: inProgressFor_def fleet_def fleetJob_def)

definition onSite :: "(ms \<times> proximity_call) list" where
  "onSite = [(1000, ''drv'', vanId, acmeId, 0, 0), (119000, ''drv'', vanId, acmeId, 0, 0)]"

theorem snooze_silences_proximity_witness:
  "alertCount (isProximityAlert jobId vanId) (runAt proximityFor onSite (snoozeProximity jobId vanId 2 fleet)) = 0"
  by (subst snooze_silences_proximity) (simp_all add: onSite_def snoozeMillis_def fleet_def alertCount_def)

text \<open>A vehicle that stays within the zone.\<close>

lemma setEnteredTime_simps [simp]:
  "ts_cache (setEnteredTime d v t s) = cacheSet (ts_now s) (proximityKey d v) (Num t) 86400 (ts_cache s)"
  "ts_outbox (setEnteredTime d v t s) = ts_outbox s" "ts_drivers (setEnteredTime d v t s) = ts_drivers s"
  "ts_deliveries (setEnteredTime d v t s) = ts_deliveries s"
  "getEnteredTime d v (s\<lparr>ts_lastDelivery := m\<rparr>) = getEnteredTime d v s"
  by (simp_all add: setEnteredTime_def getEnteredTime_def split: option.split cache_value.split)

definition inZone :: "real \<Rightarrow> real \<Rightarrow> delivery \<Rightarrow> bool" where
  "inZone lat lng d \<longleftrightarrow>
     haversineDistance lat lng (the (deliveryLat d)) (the (deliveryLng d)) \<le> PROXIMITY_THRESHOLD_M"

lemma checkProximity_inside:
  assumes "find (\<lambda>r. td_id r = driver) (ts_drivers s) = Some r" and "td_user r = Some user"
    and "inProgressFor driver s = Some (i, d)" and "inZone lat lng d" and "\<not> isSnoozed i vehicle s"
  shows "ts_outbox (checkProximity driver vehicle company lat lng s)
       = ts_outbox s @ [ProximityAlert company user i vehicle
           (escalationLevel (ts_now s - nullish (getEnteredTime i vehicle s) (ts_now s)))]
     \<and> ts_cache (checkProximity driver vehicle company lat lng s)
       = (if getEnteredTime i vehicle s = None
          then cacheSet (ts_now s) (proximityKey i vehicle) (Num (ts_now s)) 86400 (ts_cache s) else ts_cache s)
     \<and> ts_drivers (checkProximity driver vehicle company lat lng s) = ts_drivers s
     \<and> ts_deliveries (checkProximity driver vehicle company lat lng s) = ts_deliveries s"
  using assms by (simp add: checkProximity_def inZone_def Let_def)

text \<open>A vehicle that enters the zone of its delivery and stays is alerted at every position, and the
level of the alert counts the time since the entry: normal, high after seven and a half minutes, critical
after fifteen, for the day the entry is remembered.\<close>

theorem escalation_counts_from_the_entry:
  assumes "find (\<lambda>r. td_id r = driver) (ts_drivers s) = Some r" and "td_user r = Some user"
    and "inProgressFor driver s = Some (i, d)"
    and "ts_cache s (proximityKey i vehicle) = None" and "ts_cache s (snoozeKey i vehicle) = None"
    and "\<forall>(t, p)\<in>set fixes0. t0 \<le> t \<and> t < t0 + 86400000 \<and> inZone (fst p) (snd p) d"
    and "fixes0 \<noteq> [] \<longrightarrow> fst (hd fixes0) = t0"
  shows "ts_outbox (runAt proximityFor (map (\<lambda>(t, p). (t, driver, vehicle, company, p)) fixes0) s)
       = ts_outbox s @ map (\<lambda>(t, p). ProximityAlert company user i vehicle
           (if 900000 < t - t0 then 2 else if 450000 < t - t0 then 1 else 0)) fixes0"
proof -
  let ?run = "\<lambda>fs. runAt proximityFor (map (\<lambda>(t, p). (t, driver, vehicle, company, p)) fs) s"
  let ?out = "map (\<lambda>(t, p). ProximityAlert company user i vehicle
           (if 900000 < t - t0 then 2 else if 450000 < t - t0 then 1 else (0::nat)))"
  have "ts_outbox (?run fixes0) = ts_outbox s @ ?out fixes0
      \<and> ts_drivers (?run fixes0) = ts_drivers s \<and> ts_deliveries (?run fixes0) = ts_deliveries s
      \<and> ts_cache (?run fixes0) (snoozeKey i vehicle) = None
      \<and> ts_cache (?run fixes0) (proximityKey i vehicle)
        = (if fixes0 = [] then None else Some (Num t0, t0 + 86400000))"
    using assms(6,7)
  proof (induction fixes0 rule: rev_induct)
    case Nil
    then show ?case using assms(4,5) by simp
  next
    case (snoc f fs)
    obtain t lat lng where f: "f = (t, lat, lng)" by (cases f) auto
    let ?s = "(?run fs)\<lparr>ts_now := t\<rparr>"
    have all: "\<forall>(t, p)\<in>set fs. t0 \<le> t \<and> t < t0 + 86400000 \<and> inZone (fst p) (snd p) d"
      "fs \<noteq> [] \<longrightarrow> fst (hd fs) = t0"
      using snoc.prems by (simp, cases fs) simp_all
    have t: "t0 \<le> t" "t < t0 + 86400000" "inZone lat lng d" "fs = [] \<longrightarrow> t = t0"
      using snoc.prems by (auto simp: f)
    have IH: "ts_outbox ?s = ts_outbox s @ ?out fs" "ts_drivers ?s = ts_drivers s"
      "ts_deliveries ?s = ts_deliveries s" "ts_cache ?s (snoozeKey i vehicle) = None"
      "ts_cache ?s (proximityKey i vehicle) = (if fs = [] then None else Some (Num t0, t0 + 86400000))"
      using snoc.IH [OF all] by simp_all
    have entered: "getEnteredTime i vehicle ?s = (if fs = [] then None else Some t0)"
      using IH(5) t by (simp add: getEnteredTime_def cacheGet_def)
    have calm: "\<not> isSnoozed i vehicle ?s" using IH(4) by (simp add: isSnoozed_def cacheGet_def)
    have who: "find (\<lambda>r. td_id r = driver) (ts_drivers ?s) = Some r" "inProgressFor driver ?s = Some (i, d)"
      using assms(1,3) IH(2,3) by (simp_all add: inProgressFor_def)
    have level: "escalationLevel (t - nullish (getEnteredTime i vehicle ?s) t)
        = (if 900000 < t - t0 then 2 else if 450000 < t - t0 then 1 else 0)"
      using t(4) unfolding entered by (auto simp: escalationLevel_def ESCALATION_AFTER_MS_def)
    show ?case
      using checkProximity_inside [OF who(1) assms(2) who(2) t(3) calm, of company] IH t level entered
      by (simp add: f proximityFor_call cacheSet_def)
  qed
  then show ?thesis by blast
qed

theorem escalation_counts_from_the_entry_witness:
  "ts_outbox (runAt proximityFor (map (\<lambda>(t, p). (t, ''drv'', vanId, acmeId, p))
       [(0, 0, 0), (500000, 0, 0), (1000000, 0, 0)]) fleet)
     = [ProximityAlert acmeId ''usr'' jobId vanId 0, ProximityAlert acmeId ''usr'' jobId vanId 1,
        ProximityAlert acmeId ''usr'' jobId vanId 2]"
  by (subst escalation_counts_from_the_entry [OF fleet_job(2) _ fleet_job(1), where ?t0.0 = 0 and user = "''usr''"])
     (simp_all add: fleet_def inZone_def fleet_job PROXIMITY_THRESHOLD_M_def)

end
