(* ===== verification/Tracking_IngestProps.thy ===== *)
theory Tracking_IngestProps
  imports Tracking_IngestLaws Tracking_AlertLaws "HOL-Library.Multiset"
begin

text \<open>
  The promises of the ingestion of positions: one admissible row per vehicle and instant, no live
  duplicate within a second, batches stored whole whatever their order and however often they are
  sent, every position of a batch accounted for. And the places where the two paths differ, or the
  code departs from its comments.
\<close>

subsection \<open>The table of positions\<close>

type_synonym ingest_event =
  "(ident option \<times> position_dto \<times> ident option \<times> position_source) + (ident \<times> ident \<times> position_dto list \<times> ident)"

definition ingestFor :: "ingest_event \<Rightarrow> tstate \<Rightarrow> tstate" where
  "ingestFor = eitherPath liveFor batchFor"

definition ingestAllowed :: "ingest_event \<Rightarrow> bool" where
  "ingestAllowed = eitherAllowed (\<lambda>a. True) batchAllowed"

text \<open>C6. However live positions and batches mix, from the phone or the tracker, the table only grows,
keeps one row per vehicle and instant, and every row belongs to an active vehicle that is not deleted,
is stored under the company of that vehicle, and comes from the phone only where the vehicle is followed
by phone.\<close>

theorem stored_rows_are_admissible:
  assumes "\<forall>a\<in>snd ` set evs. ingestAllowed a"
    and "distinct (map gpKey (ts_positions s))" and "\<forall>g\<in>set (ts_positions s). admissible s g"
  shows "(\<exists>new. ts_positions (runAt ingestFor evs s) = ts_positions s @ new)
     \<and> distinct (map gpKey (ts_positions (runAt ingestFor evs s)))
     \<and> (\<forall>g\<in>set (ts_positions (runAt ingestFor evs s)). admissible (runAt ingestFor evs s) g)"
  using ingest.both.run_only_appends ingest.both.run_keeps_keys_distinct ingest.both.run_rows_admissible assms
  unfolding ingestFor_def ingestAllowed_def by blast

definition morning :: "(ms \<times> ingest_event) list" where
  "morning = [(1000, Inl (Some ''drv'', fixAt 1000 5, Some acmeId, Phone)),
     (2000, Inl (Some ''drv'', fixAt 1500 5, Some acmeId, PhysicalTracker)),
     (90000, Inr (''usr'', ''drv'', [fixAt 60000 5, fixAt 30000 5], acmeId))]"

theorem stored_rows_are_admissible_witness:
  "distinct (map gpKey (ts_positions (runAt ingestFor morning fleet)))
     \<and> list_all (admissible (runAt ingestFor morning fleet)) (ts_positions (runAt ingestFor morning fleet))"
proof -
  have "\<forall>a\<in>snd ` set morning. ingestAllowed a"
    by (simp add: morning_def ingestAllowed_def eitherAllowed_def batchAllowed_def)
  from stored_rows_are_admissible [OF this, of fleet] show ?thesis by (simp add: fleet_def list_all_iff)
qed

text \<open>A live position is stored only when no row of the same vehicle (and of the same delivery,
when it names one) lies within a second before or after it.\<close>

theorem live_positions_keep_their_distance:
  assumes "fst (savePosition driver dto company src s) = Some g"
    and "h \<in> set (ts_positions s)" and "gp_vehicle h = po_vehicle dto"
    and "\<forall>d. po_delivery dto = Some d \<longrightarrow> gp_delivery h = Some d"
  shows "1000 < \<bar>gp_time h - po_time dto\<bar>"
proof -
  let ?s = "updMetrics (\<lambda>m. m\<lparr>m_received := Suc (m_received m)\<rparr>) s"
  have "\<not> isDuplicateByTimestamp (po_vehicle dto) (po_delivery dto) (po_time dto) ?s"
    using assms(1) by (auto simp: savePosition_def Let_def split: option.splits if_splits)
  then have nd: "\<not> isDuplicateByTimestamp (po_vehicle dto) (po_delivery dto) (po_time dto) s"
    by (simp add: isDuplicateByTimestamp_def updMetrics_def Let_def)
  show ?thesis
  proof (rule ccontr)
    assume close: "\<not> 1000 < \<bar>gp_time h - po_time dto\<bar>"
    let ?p = "\<lambda>g. gp_vehicle g = po_vehicle dto
        \<and> (case po_delivery dto of None \<Rightarrow> True | Some d \<Rightarrow> d \<noteq> [] \<longrightarrow> gp_delivery g = Some d)
        \<and> gp_time g \<le> po_time dto + 1000"
    have h: "?p h" using assms(3,4) close by (auto split: option.split)
    then obtain n where n: "newest ?p (ts_positions s) = Some n"
      using assms(2) newest_None [of ?p "ts_positions s"] by auto
    then have "gp_time h \<le> gp_time n" using newest_spec [OF n] assms(2) h by blast
    then have "isDuplicateByTimestamp (po_vehicle dto) (po_delivery dto) (po_time dto) s"
      using n close by (simp add: isDuplicateByTimestamp_def DEDUP_CLOCK_SKEW_S_def Let_def)
    with nd show False ..
  qed
qed

definition fleetWith :: "gps_position list \<Rightarrow> tstate" where
  "fleetWith gs = fleet\<lparr>ts_positions := gs\<rparr>"

lemma fleetWith_simps [simp]:
  "ts_positions (fleetWith gs) = gs" "ts_vehicles (fleetWith gs) = [van]" "ts_deliveries (fleetWith gs) = [(jobId, fleetJob)]"
  "ts_drivers (fleetWith gs) = ts_drivers fleet" "ts_now (fleetWith gs) = 0" "ts_cache (fleetWith gs) = Map.empty"
  "alertCount p (fleetWith gs) = 0"
  by (simp_all add: fleetWith_def fleet_def alertCount_def)

lemma van_simps [simp]:
  "tv_id van = vanId" "tv_company van = acmeId" "tv_deleted van = False" "tv_active van = True" "tv_source van = Phone"
  by (simp_all add: van_def)

lemma fix_simps [simp]:
  "po_vehicle (fixAt t v) = vanId" "po_delivery (fixAt t v) = Some jobId" "po_time (fixAt t v) = t"
  "po_lat (fixAt t v) = 0" "po_lng (fixAt t v) = 0" "po_acc (fixAt t v) = Some 10" "po_speed (fixAt t v) = Some v"
  "gp_vehicle (storedAt t v) = vanId" "gp_delivery (storedAt t v) = Some jobId" "gp_time (storedAt t v) = t"
  by (simp_all add: fixAt_def storedAt_def)

lemma long_enough [simp]: "\<not> shortId vanId" "\<not> shortId jobId"
  by (simp_all add: shortId_def)

lemma live_fix_saved:
  "fst (savePosition (Some ''drv'') (fixAt 5000 5) (Some acmeId) Phone (fleetWith [storedAt 0 5]))
     = Some (rowOf (Some ''drv'') (fixAt 5000 5) acmeId Phone
         (detectTeleportation 0 0 5000 vanId (Some 10) Phone (Some 5) (fleetWith [storedAt 0 5])))"
  using savePosition_saved [of "fixAt 5000 5" "fleetWith [storedAt 0 5]" van "Some acmeId" Phone "Some ''drv''"]
  by (simp add: isDuplicateByTimestamp_def newest_def DEDUP_CLOCK_SKEW_S_def Let_def gpKey_def)

theorem live_positions_keep_their_distance_witness:
  "1000 < \<bar>gp_time (storedAt 0 5) - po_time (fixAt 5000 5)\<bar>"
  by (rule live_positions_keep_their_distance [OF live_fix_saved]) simp_all

subsection \<open>Batches\<close>

lemma mset_map_eq: "mset xs = mset ys \<Longrightarrow> mset (map f xs) = mset (map f ys)"
  by (simp add: mset_map)

lemma sort_key_mset:
  assumes "mset xs = mset ys" and "distinct (map f xs)"
  shows "sort_key f xs = sort_key f ys"
proof (rule map_inj_on)
  have "sort (map f xs) = map f (sort_key f ys)"
    by (rule properties_for_sort) (simp_all add: assms(1) mset_map)
  moreover have "sort (map f xs) = map f (sort_key f xs)"
    by (rule properties_for_sort) (simp_all add: mset_map)
  ultimately show "map f (sort_key f xs) = map f (sort_key f ys)" by simp
  have "set xs = set ys" using assms(1) by (metis set_mset_mset)
  then show "inj_on f (set (sort_key f xs) \<union> set (sort_key f ys))"
    using assms(2) by (simp add: distinct_map)
qed

lemma validPositions_mset: "mset ps = mset qs \<Longrightarrow> mset (validPositions V W ps) = mset (validPositions V W qs)"
  by (simp add: validPositions_def mset_map mset_filter)

lemma validPositions_times:
  "distinct (map po_time ps) \<Longrightarrow> distinct (map po_time (validPositions V W ps))"
  by (simp add: validPositions_def comp_def distinct_map_filter)

text \<open>The order in which the positions of a batch arrive does not matter: two batches with the same
positions, at different instants, leave the same state and the same answer.\<close>

theorem batch_ignores_arrival_order:
  assumes "mset ps = mset qs" and "distinct (map po_time ps)"
  shows "saveBatch user driver ps company s = saveBatch user driver qs company s"
proof -
  have "batchRows user driver company ps s = batchRows user driver company qs s"
    unfolding batchRows_def
    by (simp add: sort_key_mset [OF validPositions_mset [OF assms(1)] validPositions_times [OF assms(2)]])
  then show ?thesis by (simp add: saveBatch_def)
qed

theorem batch_ignores_arrival_order_witness:
  "saveBatch ''usr'' ''drv'' [fixAt 60000 5, fixAt 30000 4, fixAt 90000 3] acmeId fleet
     = saveBatch ''usr'' ''drv'' [fixAt 30000 4, fixAt 60000 5, fixAt 90000 3] acmeId fleet"
  by (rule batch_ignores_arrival_order) simp_all

lemma insertMany_all:
  "distinct (map gpKey gs) \<Longrightarrow> gpKey ` set gs \<inter> gpKey ` set (ts_positions s) = {} \<Longrightarrow> fst (insertMany gs s) = gs"
proof (induction gs arbitrary: s)
  case (Cons g gs)
  let ?s = "s\<lparr>ts_positions := ts_positions s @ [g]\<rparr>"
  have "insertPosition g s = Some ?s" using Cons.prems(2) by (simp add: insertPosition_def)
  moreover have "fst (insertMany gs ?s) = gs"
    by (rule Cons.IH) (use Cons.prems in \<open>auto simp: image_iff\<close>)
  ultimately show ?case by (simp add: split_beta)
qed simp

definition spaced :: "position_dto \<Rightarrow> position_dto \<Rightarrow> bool" where
  "spaced p q \<longleftrightarrow> po_vehicle p = po_vehicle q \<longrightarrow> 1000 < \<bar>po_time p - po_time q\<bar>"

definition clearOf :: "(ident \<Rightarrow> ms option) \<Rightarrow> position_dto \<Rightarrow> bool" where
  "clearOf r p \<longleftrightarrow> \<not> nearTime (po_time p) (r (po_vehicle p))"

lemma batchFold_all:
  assumes "sorted_wrt spaced ps" and "\<forall>p\<in>set ps. clearOf db p \<and> clearOf (\<lambda>v. map_option bl_time (bc_last c v)) p"
  shows "\<exists>new. bc_out (fold (batchStep driver company db) ps c) = bc_out c @ new
      \<and> list_all2 (fromDto driver company) ps new"
  using assms
proof (induction ps arbitrary: c)
  case (Cons p ps)
  let ?c = "batchStep driver company db p c"
  have clear: "\<not> nearTime (po_time p) (db (po_vehicle p))"
    "\<not> nearTime (po_time p) (map_option bl_time (bc_last c (po_vehicle p)))"
    using Cons.prems(2) by (simp_all add: clearOf_def)
  then obtain v susp where out: "bc_out ?c = bc_out c @ [rowOf (Some driver) (p\<lparr>po_speed := Some v\<rparr>) company Phone susp]"
    by (auto simp: batchStep_def Let_def)
  have last: "map_option bl_time (bc_last ?c w) = (if w = po_vehicle p then Some (po_time p) else map_option bl_time (bc_last c w))" for w
    using clear by (simp add: batchStep_def Let_def)
  have "clearOf (\<lambda>v. map_option bl_time (bc_last ?c v)) q" if "q \<in> set ps" for q
    using Cons.prems that unfolding clearOf_def last
    by (auto simp: spaced_def nearTime_def DEDUP_CLOCK_SKEW_S_def)
  then have "\<exists>new. bc_out (fold (batchStep driver company db) ps ?c) = bc_out ?c @ new
      \<and> list_all2 (fromDto driver company) ps new"
    using Cons.prems by (intro Cons.IH) auto
  then obtain new where "bc_out (fold (batchStep driver company db) ps ?c) = bc_out ?c @ new"
    "list_all2 (fromDto driver company) ps new" by blast
  moreover have "fromDto driver company p (rowOf (Some driver) (p\<lparr>po_speed := Some v\<rparr>) company Phone susp)"
    by (auto simp: fromDto_def)
  ultimately show ?case using out
    by (intro exI [of _ "rowOf (Some driver) (p\<lparr>po_speed := Some v\<rparr>) company Phone susp # new"]) simp
qed simp

lemma spaced_sym: "spaced p q \<longleftrightarrow> spaced q p"
  by (auto simp: spaced_def abs_minus_commute)

lemma sorted_wrt_sort_key:
  assumes "sorted_wrt spaced ps"
  shows "sorted_wrt spaced (sort_key po_time ps)"
proof -
  have cons: "sorted_wrt spaced (insort_key po_time x xs) \<longleftrightarrow> sorted_wrt spaced (x # xs)" for x xs
    by (induction xs) (auto simp: set_insort_key spaced_sym)
  show ?thesis using assms by (induction ps) (simp_all add: cons)
qed

definition validBatch :: "ident \<Rightarrow> ident \<Rightarrow> ident \<Rightarrow> position_dto list \<Rightarrow> tstate \<Rightarrow> position_dto list" where
  "validBatch user driver company ps s =
     validPositions (verifiedDelivery user driver s) (validBatchVehicle company s) ps"

lemma saveBatch_fst:
  "\<exists>m. fst (saveBatch user driver ps company s) = fst (insertMany (bc_out (batchRows user driver company ps s)) (s\<lparr>ts_metrics := m\<rparr>))"
  using saveBatch_result [of user driver company ps s] by (metis fst_conv)

lemma stored_whole:
  assumes "sorted_wrt spaced (validBatch user driver company ps s)"
    and "\<forall>p\<in>set (validBatch user driver company ps s). \<forall>g\<in>set (ts_positions s).
      gp_vehicle g = po_vehicle p \<longrightarrow> 1000 < \<bar>po_time p - gp_time g\<bar>"
  shows "list_all2 (fromDto driver company) (sort_key po_time (validBatch user driver company ps s))
       (fst (saveBatch user driver ps company s))"
proof -
  let ?qs = "sort_key po_time (validBatch user driver company ps s)"
  have far: "clearOf (\<lambda>v. map_option gp_time (getLastPosition v False s)) p" if "p \<in> set ?qs" for p
    using that assms(2) newest_spec [of _ "ts_positions s"]
    by (auto simp: clearOf_def nearTime_def DEDUP_CLOCK_SKEW_S_def getLastPosition_def split: option.split) fastforce
  have start: "map_option bl_time (bc_last (batchStart s) v) = map_option gp_time (getLastPosition v False s)" for v
    by (simp add: batchStart_def lastOf_def option.map_comp comp_def)
  have "\<exists>new. bc_out (batchRows user driver company ps s) = bc_out (batchStart s) @ new
      \<and> list_all2 (fromDto driver company) ?qs new"
    unfolding batchRows_def validBatch_def [symmetric]
    by (rule batchFold_all) (use far sorted_wrt_sort_key [OF assms(1)] in \<open>simp_all add: start\<close>)
  then have all: "list_all2 (fromDto driver company) ?qs (bc_out (batchRows user driver company ps s))"
    by (auto simp: batchStart_def)
  then have keys: "map gpKey (bc_out (batchRows user driver company ps s)) = map (\<lambda>p. (po_vehicle p, po_time p)) ?qs"
    by (induction rule: list_all2_induct) (auto simp: gpKey_def dest: fromDto_fields)
  have "distinct (map (\<lambda>p. (po_vehicle p, po_time p)) ?qs)"
  proof -
    have "distinct (map (\<lambda>p. (po_vehicle p, po_time p)) qs)" if "sorted_wrt spaced qs" for qs
      using that by (induction qs) (auto simp: spaced_def)
    with sorted_wrt_sort_key [OF assms(1)] show ?thesis by blast
  qed
  moreover have "(po_vehicle p, po_time p) \<notin> gpKey ` set (ts_positions s)" if "p \<in> set ?qs" for p
    using that assms(2) by (force simp: gpKey_def)
  moreover obtain m where "fst (saveBatch user driver ps company s)
      = fst (insertMany (bc_out (batchRows user driver company ps s)) (s\<lparr>ts_metrics := m\<rparr>))"
    using saveBatch_fst by blast
  ultimately have stored: "fst (insertMany (bc_out (batchRows user driver company ps s)) (s\<lparr>ts_metrics := m\<rparr>))
      = bc_out (batchRows user driver company ps s)"
    and m: "fst (saveBatch user driver ps company s)
      = fst (insertMany (bc_out (batchRows user driver company ps s)) (s\<lparr>ts_metrics := m\<rparr>))"
    using insertMany_all [of "bc_out (batchRows user driver company ps s)" "s\<lparr>ts_metrics := m\<rparr>"]
    unfolding keys set_map [symmetric] by (auto simp: disjoint_iff)
  from stored m have "fst (saveBatch user driver ps company s) = bc_out (batchRows user driver company ps s)" by simp
  with all show ?thesis by simp
qed

text \<open>C7. A batch loses nothing: when its valid positions are more than a second apart, from one another
and from what is stored for their vehicles, every one of them is stored, in chronological order.\<close>

theorem spaced_batch_is_stored_whole:
  assumes "sorted_wrt spaced (validBatch user driver company ps s)"
    and "\<forall>p\<in>set (validBatch user driver company ps s). \<forall>g\<in>set (ts_positions s).
      gp_vehicle g = po_vehicle p \<longrightarrow> 1000 < \<bar>po_time p - gp_time g\<bar>"
  shows "list_all2 (fromDto driver company) (sort_key po_time (validBatch user driver company ps s))
       (fst (saveBatch user driver ps company s))"
  by (rule stored_whole [OF assms])

lemma fleet_valid [simp]:
  "validBatchVehicle acmeId (fleetWith gs) vanId" "verifiedDelivery ''usr'' ''drv'' (fleetWith gs) jobId"
  "validBatchVehicle acmeId fleet vanId" "verifiedDelivery ''usr'' ''drv'' fleet jobId"
  by (simp_all add: validBatchVehicle_def verifiedDelivery_def fleetJob_def fleet_def)

lemma fleet_batch:
  assumes "\<forall>p\<in>set ps. po_vehicle p = vanId \<and> po_delivery p = Some jobId"
  shows "validBatch ''usr'' ''drv'' acmeId ps (fleetWith gs) = ps"
proof -
  have "validPositions (verifiedDelivery ''usr'' ''drv'' (fleetWith gs)) (validBatchVehicle acmeId (fleetWith gs)) ps = ps"
    using assms
  proof (induction ps)
    case (Cons p ps)
    have p: "po_vehicle p = vanId" "po_delivery p = Some jobId" using Cons.prems by simp_all
    then have "p\<lparr>po_delivery := Some jobId\<rparr> = p" by (cases p) simp
    moreover have "validPositions (verifiedDelivery ''usr'' ''drv'' (fleetWith gs)) (validBatchVehicle acmeId (fleetWith gs)) ps = ps"
      by (rule Cons.IH) (use Cons.prems in simp)
    ultimately show ?case using p unfolding validPositions_def by (simp add: effectiveDelivery_def)
  qed (simp add: validPositions_def)
  then show ?thesis by (simp add: validBatch_def)
qed

definition retried :: "position_dto list" where
  "retried = [fixAt 60000 5, fixAt 30000 4, fixAt 90000 3]"

lemma retried_valid: "validBatch ''usr'' ''drv'' acmeId retried (fleetWith gs) = retried"
  by (rule fleet_batch) (simp add: retried_def)

lemma retried_spaced: "sorted_wrt spaced retried"
  by (simp add: retried_def spaced_def)

theorem spaced_batch_is_stored_whole_witness:
  "list_all2 (fromDto ''drv'' acmeId) [fixAt 30000 4, fixAt 60000 5, fixAt 90000 3]
     (fst (saveBatch ''usr'' ''drv'' retried acmeId (fleetWith [storedAt 0 5])))"
  using spaced_batch_is_stored_whole [of "''usr''" "''drv''" acmeId retried "fleetWith [storedAt 0 5]"] retried_spaced
  by (simp add: retried_valid) (simp add: retried_def)

text \<open>A batch that stores nothing leaves no trace but the counters.\<close>

lemma saveBatch_nothing:
  assumes "fst (saveBatch user driver ps company s) = []"
  shows "ts_outbox (snd (saveBatch user driver ps company s)) = ts_outbox s
     \<and> ts_cache (snd (saveBatch user driver ps company s)) = ts_cache s"
proof (cases "bc_out (batchRows user driver company ps s) = []")
  case True
  then show ?thesis by (simp add: saveBatch_def Let_def)
next
  case False
  let ?s2 = "updMetrics (\<lambda>m. m\<lparr>m_batchSaved := m_batchSaved m + length (bc_out (batchRows user driver company ps s))\<rparr>)
      (s\<lparr>ts_metrics := bc_metrics (batchRows user driver company ps s)\<rparr>)"
  obtain ins s3 where ins: "insertMany (bc_out (batchRows user driver company ps s)) ?s2 = (ins, s3)" by fastforce
  then have empty: "ins = []" using assms False by (simp add: saveBatch_def Let_def)
  have s3: "s3 = ?s2\<lparr>ts_positions := ts_positions ?s2 @ ins\<rparr>" using insertMany_spec [OF ins] by blast
  have "ts_outbox s3 = ts_outbox s" "ts_cache s3 = ts_cache s" unfolding s3 by (simp_all add: updMetrics_def)
  then show ?thesis using False ins empty
    by (simp add: saveBatch_def Let_def batchProximity_def updMetrics_def)
qed

lemma subseq_full: "subseq xs ys \<Longrightarrow> length xs = length ys \<Longrightarrow> xs = ys"
  by (rule subseq_same_length)



subsection \<open>Proximity of a batch\<close>

lemma isProximity_apart:
  "fenceOnly (isProximityAlert d v)" "\<not> isProximityAlert d v (OfflineAlert c x y u)"
  "\<not> isProximityAlert d v (SpeedAlert c x y u)" "\<not> isProximityAlert d v (DelayAlert c x y u)"
  "\<not> isProximityAlert d v (StopAlert c x y u)"
  by (simp_all add: fenceOnly_def isProximityAlert_def)

lemma generateAlerts_proximity [simp]:
  "alertCount (isProximityAlert d v) (generateAlerts dto c drv prev s) = alertCount (isProximityAlert d v) s"
proof (cases "ts_settings s c")
  case (Some st)
  then show ?thesis
    by (simp add: generateAlerts_count [OF Some] isProximity_apart delayAlert_apart stop_offline_count speedAlert_apart)
qed (simp add: generateAlerts_none)

lemma batchAlerts_proximity:
  "alertCount (isProximityAlert d v) (batchAlerts drv c m gs s) = alertCount (isProximityAlert d v) s"
  by (induction gs arbitrary: m s) simp_all

lemma alertCount_updMetrics [simp]: "alertCount p (updMetrics f s) = alertCount p s"
  by (simp add: alertCount_def updMetrics_def)

lemma checkProximity_outside:
  assumes "inProgressFor driver s = Some (i, d)" and "\<not> inZone lat lng d"
  shows "alertCount p (checkProximity driver vehicle company lat lng s) = alertCount p s"
  using assms by (simp add: checkProximity_def inZone_def Let_def split: option.split)

text \<open>When all rows stored come from one vehicle, the batch ends with one proximity check, on the
first of them.\<close>

lemma saveBatch_single_vehicle:
  assumes "fst (saveBatch user driver ps company s) = g # gs" and "\<forall>h\<in>set gs. gp_vehicle h = gp_vehicle g"
    and "company \<noteq> []"
  shows "\<exists>s'. snd (saveBatch user driver ps company s) = checkProximity driver (gp_vehicle g) company (gp_lat g) (gp_lng g) s'
     \<and> ts_deliveries s' = ts_deliveries s
     \<and> (\<forall>d v. alertCount (isProximityAlert d v) s' = alertCount (isProximityAlert d v) s)"
proof -
  have ne: "bc_out (batchRows user driver company ps s) \<noteq> []"
    using assms(1) by (auto simp: saveBatch_def Let_def)
  define s2 where "s2 = updMetrics (\<lambda>m. m\<lparr>m_batchSaved := m_batchSaved m + length (bc_out (batchRows user driver company ps s))\<rparr>)
      (s\<lparr>ts_metrics := bc_metrics (batchRows user driver company ps s)\<rparr>)"
  obtain s3 where ins: "insertMany (bc_out (batchRows user driver company ps s)) s2 = (g # gs, s3)"
    using assms(1) ne by (cases "insertMany (bc_out (batchRows user driver company ps s)) s2")
      (simp add: saveBatch_def Let_def s2_def)
  have s3: "s3 = s2\<lparr>ts_positions := ts_positions s2 @ g # gs\<rparr>" using insertMany_spec [OF ins] by blast
  define s4 where "s4 = updMetrics (\<lambda>m. m\<lparr>m_saved := m_saved m + length (g # gs)\<rparr>) s3"
  let ?s' = "batchAlerts driver company Map.empty (g # gs) s4"
  have res: "snd (saveBatch user driver ps company s) = batchProximity driver company (g # gs) ?s'"
    using ne ins assms(3) by (simp add: saveBatch_def Let_def s2_def [symmetric] s4_def)
  have "remdups (xs @ [x]) = [x]" if "set xs \<subseteq> {x}" for xs :: "ident list" and x
    using that by (induction xs) auto
  moreover have "set (rev (map gp_vehicle gs)) \<subseteq> {gp_vehicle g}" using assms(2) by auto
  ultimately have "remdups (rev (map gp_vehicle gs) @ [gp_vehicle g]) = [gp_vehicle g]" by blast
  then have one: "rev (remdups (rev (map gp_vehicle (g # gs)))) = [gp_vehicle g]" by simp
  have "batchProximity driver company (g # gs) ?s' = checkProximity driver (gp_vehicle g) company (gp_lat g) (gp_lng g) ?s'"
    unfolding batchProximity_def one by simp
  moreover have "ts_deliveries ?s' = ts_deliveries s4" 
    using sameTables_batchAlerts [of s4 driver company Map.empty "g # gs"] by (simp only: sameTables_def)
  moreover have "ts_deliveries s4 = ts_deliveries s" "alertCount p s4 = alertCount p s" for p
    by (simp_all add: s4_def s3 s2_def updMetrics_def alertCount_def)
  ultimately show ?thesis
    by (intro exI [of _ ?s'] conjI allI) (simp_all only: res batchAlerts_proximity)
qed

text \<open>After a batch of one vehicle the proximity of its delivery is decided on the first row stored:
when that one lies outside the zone no alert is raised, even if the batch ends at the door.\<close>

theorem batch_proximity_looks_at_first_fix:
  assumes "fst (saveBatch user driver ps company s) = g # gs" and "\<forall>h\<in>set gs. gp_vehicle h = gp_vehicle g"
    and "company \<noteq> []" and "inProgressFor driver s = Some (i, d)" and "\<not> inZone (gp_lat g) (gp_lng g) d"
  shows "alertCount (isProximityAlert j v) (snd (saveBatch user driver ps company s)) = alertCount (isProximityAlert j v) s"
proof -
  obtain s' where s': "snd (saveBatch user driver ps company s)
       = checkProximity driver (gp_vehicle g) company (gp_lat g) (gp_lng g) s'" "ts_deliveries s' = ts_deliveries s"
    "alertCount (isProximityAlert j v) s' = alertCount (isProximityAlert j v) s"
    using saveBatch_single_vehicle [OF assms(1-3)] by blast
  have "inProgressFor driver s' = Some (i, d)" using assms(4) s'(2) by (simp add: inProgressFor_def)
  with s' show ?thesis by (simp add: checkProximity_outside [OF _ assms(5)])
qed

definition arriving :: "position_dto list" where
  "arriving = [(fixAt 30000 10)\<lparr>po_lat := north 2000\<rparr>, fixAt 230000 0]"

theorem batch_proximity_looks_at_first_fix_witness:
  "alertCount (isProximityAlert jobId vanId) (snd (saveBatch ''usr'' ''drv'' arriving acmeId (fleetWith []))) = 0
     \<and> map gp_lat (fst (saveBatch ''usr'' ''drv'' arriving acmeId (fleetWith []))) = [north 2000, 0]"
proof -
  have valid: "validBatch ''usr'' ''drv'' acmeId arriving (fleetWith []) = arriving"
    by (rule fleet_batch) (simp add: arriving_def)
  have sorted: "sort_key po_time arriving = arriving" by (simp add: arriving_def)
  have "list_all2 (fromDto ''drv'' acmeId) arriving (fst (saveBatch ''usr'' ''drv'' arriving acmeId (fleetWith [])))"
    using stored_whole [of "''usr''" "''drv''" acmeId arriving "fleetWith []"]
    by (simp add: valid sorted) (simp add: arriving_def spaced_def)
  then obtain g h where rows: "fst (saveBatch ''usr'' ''drv'' arriving acmeId (fleetWith [])) = [g, h]"
    "fromDto ''drv'' acmeId ((fixAt 30000 10)\<lparr>po_lat := north 2000\<rparr>) g" "fromDto ''drv'' acmeId (fixAt 230000 0) h"
    by (auto simp: arriving_def list_all2_Cons1)
  have g: "gp_vehicle g = vanId" "gp_lat g = north 2000" "gp_lng g = 0" "gp_vehicle h = vanId" "gp_lat h = 0"
    using fromDto_fields [OF rows(2)] fromDto_fields [OF rows(3)] by simp_all
  have out: "\<not> inZone (gp_lat g) (gp_lng g) fleetJob"
    using haversine_north [of 0 2000 0]
    by (simp add: inZone_def g fleet_job PROXIMITY_THRESHOLD_M_def north_def haversineDistance_commute)
  have job: "inProgressFor ''drv'' (fleetWith []) = Some (jobId, fleetJob)"
    using fleet_job(1) by (simp add: fleetWith_def inProgressFor_def)
  have "alertCount (isProximityAlert jobId vanId) (snd (saveBatch ''usr'' ''drv'' arriving acmeId (fleetWith [])))
      = alertCount (isProximityAlert jobId vanId) (fleetWith [])"
    by (rule batch_proximity_looks_at_first_fix [OF rows(1) _ _ job out]) (simp_all add: g)
  then show ?thesis by (simp add: rows(1) g)
qed

subsection \<open>Where the two paths differ\<close>

text \<open>On the live path a suspect row never serves as a reference.\<close>

lemma newest_skips: "\<not> p g \<Longrightarrow> newest p (xs @ [g]) = newest p xs"
  by (simp add: newest_def)

lemma suspect_rows_never_judge:
  assumes "gp_suspect g" and "ts_positions s' = ts_positions s @ [g]"
  shows "detectTeleportation lat lng t v acc src spd s' = detectTeleportation lat lng t v acc src spd s"
proof -
  have eqs: "newest (\<lambda>g. gp_vehicle g = v \<and> (True \<longrightarrow> \<not> gp_suspect g)) (ts_positions s @ [g])
      = newest (\<lambda>g. gp_vehicle g = v \<and> (True \<longrightarrow> \<not> gp_suspect g)) (ts_positions s)"
    "newest (\<lambda>g. gp_vehicle g = v \<and> \<not> gp_suspect g \<and> gp_time g < t) (ts_positions s @ [g])
      = newest (\<lambda>g. gp_vehicle g = v \<and> \<not> gp_suspect g \<and> gp_time g < t) (ts_positions s)"
    "newest (\<lambda>g. gp_vehicle g = v \<and> gp_source g = src \<and> \<not> gp_suspect g) (ts_positions s @ [g])
      = newest (\<lambda>g. gp_vehicle g = v \<and> gp_source g = src \<and> \<not> gp_suspect g) (ts_positions s)"
    using assms(1) by (simp_all add: newest_skips)
  show ?thesis
    unfolding detectTeleportation_def teleportReference_def getLastPosition_def assms(2) eqs by (rule refl)
qed

lemma teleport_fast:
  "0 < secs_between (tr_time r) t \<Longrightarrow>
     TELEPORT_SPEED_THRESHOLD_MS < haversineDistance (tr_lat r) (tr_lng r) lat lng / secs_between (tr_time r) t \<Longrightarrow>
     suspect (evaluateTeleportation r lat lng t acc spd)"
  by (simp add: evaluateTeleportation_def Let_def)

lemma teleport_slow:
  "30 < secs_between (tr_time r) t \<Longrightarrow>
     haversineDistance (tr_lat r) (tr_lng r) lat lng / secs_between (tr_time r) t \<le> TELEPORT_SPEED_THRESHOLD_MS \<Longrightarrow>
     \<not> suspect (evaluateTeleportation r lat lng t acc spd)"
  by (simp add: evaluateTeleportation_def Let_def TELEPORT_TIME_THRESHOLD_S_def jumpRuleApplies_def
      INCOHERENT_JUMP_MAX_DT_S_def)

lemma north_distances:
  "haversineDistance 0 0 (north 10000) 0 = 10000" "haversineDistance 0 0 (north 100) 0 = 100"
  "haversineDistance (north 10000) 0 (north 100) 0 = 9900"
  using haversine_north [of 10000 0 0] haversine_north [of 100 0 0] haversine_north [of 100 10000 0]
  by (simp_all add: north_def)

lemma batchStep_kept:
  assumes "\<not> nearTime (po_time p) (map_option bl_time (bc_last c (po_vehicle p)))" and "\<not> nearTime (po_time p) (db (po_vehicle p))"
  shows "bc_out (batchStep driver company db p c)
      = bc_out c @ [rowOf (Some driver) (p\<lparr>po_speed := Some (batchSpeed c p)\<rparr>) company Phone (batchSuspect c p)]"
    and "bc_last (batchStep driver company db p c)
      = (bc_last c)(po_vehicle p \<mapsto> \<lparr>bl_lat = po_lat p, bl_lng = po_lng p, bl_time = po_time p, bl_speed = Some (batchSpeed c p)\<rparr>)"
  using assms by (simp_all add: batchStep_def Let_def)

definition jumpOut :: position_dto where "jumpOut = (fixAt 60000 0)\<lparr>po_lat := north 10000\<rparr>"
definition jumpBack :: position_dto where "jumpBack = (fixAt 120000 0)\<lparr>po_lat := north 100\<rparr>"

lemma jump_simps [simp]:
  "po_vehicle jumpOut = vanId" "po_vehicle jumpBack = vanId" "po_delivery jumpOut = Some jobId"
  "po_delivery jumpBack = Some jobId" "po_time jumpOut = 60000" "po_time jumpBack = 120000"
  "po_lat jumpOut = north 10000" "po_lat jumpBack = north 100" "po_lng jumpOut = 0" "po_lng jumpBack = 0"
  by (simp_all add: jumpOut_def jumpBack_def)

lemma stored_ref [simp]:
  "gp_lat (storedAt t v) = 0" "gp_lng (storedAt t v) = 0" "gp_suspect (storedAt t v) = False" "gp_source (storedAt t v) = Phone"
  by (simp_all add: storedAt_def)

lemma last_stored: "getLastPosition vanId b (fleetWith [storedAt 0 0]) = Some (storedAt 0 0)"
  by (simp add: getLastPosition_def newest_def)

lemma jump_live:
  "detectTeleportation (po_lat jumpOut) (po_lng jumpOut) (po_time jumpOut) vanId acc Phone spd (fleetWith [storedAt 0 0])"
  "\<not> detectTeleportation (po_lat jumpBack) (po_lng jumpBack) (po_time jumpBack) vanId acc Phone spd (fleetWith [storedAt 0 0])"
  unfolding detectTeleportation_def teleportReference_def last_stored
  using teleport_fast [of "teleportRef (storedAt 0 0)" 60000 "north 10000" 0]
    teleport_slow [of "teleportRef (storedAt 0 0)" 120000 "north 100" 0]
  by (simp_all add: teleportRef_def secs_between_def north_distances TELEPORT_SPEED_THRESHOLD_MS_def)

text \<open>The two paths disagree after a jump. On the same stored position and the same two fixes, a jump
of 10 km and the return a minute later, the live path marks only the jump as suspect; the batch compares
the return with the jump, and marks both.\<close>

theorem batch_and_live_disagree_after_a_jump:
  "let s0 = fleetWith [storedAt 0 0];
       (g1, s1) = savePosition (Some ''drv'') jumpOut (Some acmeId) Phone s0;
       (g2, s2) = savePosition (Some ''drv'') jumpBack (Some acmeId) Phone s1
   in map gp_suspect (fst (saveBatch ''usr'' ''drv'' [jumpOut, jumpBack] acmeId s0)) = [True, True]
     \<and> map_option gp_suspect g1 = Some True \<and> map_option gp_suspect g2 = Some False"
proof -
  let ?s0 = "fleetWith [storedAt 0 0]"
  have v: "find (\<lambda>v. tv_id v = vanId \<and> \<not> tv_deleted v \<and> tv_active v) [van] = Some van" by simp
  let ?call = "savePosition (Some ''drv'') jumpOut (Some acmeId) Phone ?s0"
  define g1 where "g1 = rowOf (Some ''drv'') jumpOut acmeId Phone True"
  have g1: "gp_suspect g1" "gp_vehicle g1 = vanId" "gp_time g1 = 60000" "gp_delivery g1 = Some jobId"
    by (simp_all add: g1_def rowOf_def)
  have nd1: "\<not> isDuplicateByTimestamp vanId (Some jobId) 60000 ?s0"
    by (simp add: isDuplicateByTimestamp_def newest_def DEDUP_CLOCK_SKEW_S_def Let_def)
  have first: "fst ?call = Some g1" "ts_positions (snd ?call) = [storedAt 0 0, g1]"
    using savePosition_saved [of jumpOut ?s0 van "Some acmeId" Phone "Some ''drv''"] jump_live(1) nd1
    by (simp_all add: v gpKey_def g1_def)
  have "ts_vehicles (snd ?call) = [van]" using savePosition_stores [of ?s0] by (simp add: storeStep_def)
  then obtain s1 where s1: "snd ?call = s1" "ts_positions s1 = [storedAt 0 0, g1]" "ts_vehicles s1 = [van]"
    using first(2) by blast
  have live2: "\<not> detectTeleportation (north 100) 0 120000 vanId acc Phone spd s1" for acc spd
    using suspect_rows_never_judge [OF g1(1), of s1 ?s0] jump_live(2) s1(2) by simp
  have nd2: "\<not> isDuplicateByTimestamp vanId (Some jobId) 120000 s1"
    by (simp add: isDuplicateByTimestamp_def newest_def DEDUP_CLOCK_SKEW_S_def Let_def s1(2) g1)
  have "fst (savePosition (Some ''drv'') jumpBack (Some acmeId) Phone s1)
      = Some (rowOf (Some ''drv'') jumpBack acmeId Phone False)"
    using savePosition_saved(1) [of jumpBack s1 van "Some acmeId" Phone "Some ''drv''"] live2 nd2
    by (simp add: v s1(2,3) gpKey_def g1)
  then obtain g2 where g2: "fst (savePosition (Some ''drv'') jumpBack (Some acmeId) Phone s1) = Some g2" "\<not> gp_suspect g2"
    by (simp add: rowOf_def)
  let ?out = "bc_out (batchRows ''usr'' ''drv'' acmeId [jumpOut, jumpBack] ?s0)"
  have valid: "validBatch ''usr'' ''drv'' acmeId [jumpOut, jumpBack] ?s0 = [jumpOut, jumpBack]"
    by (rule fleet_batch) simp
  have out: "map gp_suspect ?out = [True, True]"
  proof -
    let ?db = "\<lambda>v. map_option gp_time (getLastPosition v False ?s0)"
    let ?c0 = "batchStart ?s0"
    let ?c1 = "batchStep ''drv'' acmeId ?db jumpOut ?c0"
    have rows: "batchRows ''usr'' ''drv'' acmeId [jumpOut, jumpBack] ?s0 = batchStep ''drv'' acmeId ?db jumpBack ?c1"
      using valid by (simp add: batchRows_def validBatch_def)
    have last0: "bc_last ?c0 vanId = Some (lastOf (storedAt 0 0))" "bc_out ?c0 = []" "?db vanId = Some 0"
      by (simp_all add: batchStart_def last_stored)
    have c1: "bc_out ?c1 = [rowOf (Some ''drv'') (jumpOut\<lparr>po_speed := Some (batchSpeed ?c0 jumpOut)\<rparr>) acmeId Phone (batchSuspect ?c0 jumpOut)]"
      "bc_last ?c1 vanId = Some \<lparr>bl_lat = north 10000, bl_lng = 0, bl_time = 60000, bl_speed = Some (batchSpeed ?c0 jumpOut)\<rparr>"
      using batchStep_kept [of jumpOut ?c0 ?db "''drv''" acmeId] last0
      by (simp_all add: nearTime_def lastOf_def DEDUP_CLOCK_SKEW_S_def)
    have c2: "bc_out (batchStep ''drv'' acmeId ?db jumpBack ?c1) = bc_out ?c1
        @ [rowOf (Some ''drv'') (jumpBack\<lparr>po_speed := Some (batchSpeed ?c1 jumpBack)\<rparr>) acmeId Phone (batchSuspect ?c1 jumpBack)]"
      using batchStep_kept(1) [of jumpBack ?c1 ?db "''drv''" acmeId] last0 c1(2)
      by (simp add: nearTime_def DEDUP_CLOCK_SKEW_S_def)
    have "batchSuspect ?c0 jumpOut"
      using last0 by (simp add: batchSuspect_def lastOf_def teleport_fast secs_between_def north_distances TELEPORT_SPEED_THRESHOLD_MS_def)
    moreover have "batchSuspect ?c1 jumpBack"
      using c1(2) by (simp add: batchSuspect_def teleport_fast secs_between_def north_distances TELEPORT_SPEED_THRESHOLD_MS_def)
    ultimately show ?thesis unfolding rows c2 c1(1) by (simp add: rowOf_def)
  qed
  have "length (fst (saveBatch ''usr'' ''drv'' [jumpOut, jumpBack] acmeId ?s0)) = 2"
    using list_all2_lengthD [OF stored_whole [of "''usr''" "''drv''" acmeId "[jumpOut, jumpBack]" ?s0]] valid
    by (simp add: spaced_def)
  moreover have "length ?out = 2" using arg_cong [OF out, of length] by simp
  ultimately have "fst (saveBatch ''usr'' ''drv'' [jumpOut, jumpBack] acmeId ?s0) = ?out"
    using subseq_full [OF saveBatch_positions(2)] by metis
  then have "map gp_suspect (fst (saveBatch ''usr'' ''drv'' [jumpOut, jumpBack] acmeId ?s0)) = [True, True]"
    using out by simp
  moreover have "?call = (Some g1, s1)" using first(1) s1(1) by (simp add: prod_eq_iff)
  moreover have "map_option gp_suspect (fst (savePosition (Some ''drv'') jumpBack (Some acmeId) Phone s1)) = Some False"
    using g2 by simp
  ultimately show ?thesis using g1(1) by (simp add: split_beta)
qed

end
