(* ===== verification/Tracking_Admission.thy ===== *)
theory Tracking_Admission
  imports Tracking_IngestProps
begin

text \<open>
  What is let into the ingestion: the validation of a position, the accounting of a batch, the flood
  limits; and the reference the live path takes for a late fix.
\<close>

subsection \<open>Validation\<close>

text \<open>C39. A position that passes validation has coordinates on the globe, no negative speed or accuracy,
and a time within thirty days back and five minutes ahead. A device whose clock runs ahead loses nothing:
its position passes as long as the rest of it does, dated at the reception.\<close>

theorem validation_bounds_and_clamps:
  shows "(\<forall>p. validateUpdate isUuid4 now r = Inr p \<longrightarrow>
        \<bar>po_lat p\<bar> \<le> 90 \<and> \<bar>po_lng p\<bar> \<le> 180 \<and> (\<forall>v. po_speed p = Some v \<longrightarrow> 0 \<le> v)
        \<and> (\<forall>a. po_acc p = Some a \<longrightarrow> 0 \<le> a \<and> a \<le> 1000)
        \<and> now - 30 * 24 * 3600 * 1000 \<le> po_time p \<and> po_time p \<le> now + 300000
        \<and> isUuid4 (po_vehicle p) \<and> (\<forall>d. po_delivery p = Some d \<longrightarrow> isUuid4 d))
     \<and> (\<forall>t. rp_time r = Some t \<longrightarrow> now + 300000 < t \<longrightarrow>
        validateUpdate isUuid4 now r = validateUpdate isUuid4 now (r\<lparr>rp_time := Some now, rp_iso := True\<rparr>))"
proof (intro conjI allI impI)
  fix p assume "validateUpdate isUuid4 now r = Inr p"
  then have ok: "invalidFields isUuid4 now (clampFutureTimestamp now r) = []" "p = dtoOfRaw (clampFutureTimestamp now r)"
    by (simp_all add: validateUpdate_def Let_def split: if_splits)
  let ?r = "clampFutureTimestamp now r"
  from ok(1) have fields: "numberIn (Some (- 90)) (Some 90) (rp_lat ?r)" "numberIn (Some (- 180)) (Some 180) (rp_lng ?r)"
    "optionalIn (Some 0) None (rp_speed ?r)" "optionalIn (Some 0) (Some 1000) (rp_acc ?r)"
    "isPlausibleTimestamp now (rp_time ?r)" "case rp_delivery ?r of None \<Rightarrow> True | Some d \<Rightarrow> isUuid4 d"
    "case rp_vehicle ?r of None \<Rightarrow> False | Some v \<Rightarrow> isUuid4 v"
    by (simp_all add: invalidFields_def split: if_splits)
  show "\<bar>po_lat p\<bar> \<le> 90" "\<bar>po_lng p\<bar> \<le> 180" using fields(1,2)
    by (auto simp: ok(2) dtoOfRaw_def numberIn_def split: jsnum.splits)
  show "0 \<le> v" if "po_speed p = Some v" for v using fields(3) that
    by (auto simp: ok(2) dtoOfRaw_def optionalIn_def numberIn_def split: jsnum.splits option.splits)
  show "0 \<le> a" "a \<le> 1000" if "po_acc p = Some a" for a using fields(4) that
    by (auto simp: ok(2) dtoOfRaw_def optionalIn_def numberIn_def split: jsnum.splits option.splits)
  show "now - 30 * 24 * 3600 * 1000 \<le> po_time p" "po_time p \<le> now + 300000" using fields(5)
    by (auto simp: ok(2) dtoOfRaw_def isPlausibleTimestamp_def FUTURE_TOLERANCE_MS_def PAST_TOLERANCE_MS_def split: option.splits)
  show "isUuid4 (po_vehicle p)" using fields(7) by (auto simp: ok(2) dtoOfRaw_def split: option.splits)
  show "isUuid4 d" if "po_delivery p = Some d" for d using fields(6) that
    by (auto simp: ok(2) dtoOfRaw_def split: option.splits)
next
  fix t assume "rp_time r = Some t" and "now + 300000 < t"
  then have "clampFutureTimestamp now r = clampFutureTimestamp now (r\<lparr>rp_time := Some now, rp_iso := True\<rparr>)"
    by (simp add: clampFutureTimestamp_def FUTURE_TOLERANCE_MS_def)
  then show "validateUpdate isUuid4 now r = validateUpdate isUuid4 now (r\<lparr>rp_time := Some now, rp_iso := True\<rparr>)"
    by (simp add: validateUpdate_def)
qed

definition fastClock :: raw_position where
  "fastClock = \<lparr>rp_lat = Fin 1, rp_lng = Fin 2, rp_speed = None, rp_heading = None, rp_altitude = None, rp_acc = Some (Fin 5),
     rp_time = Some 99000000, rp_iso = True, rp_delivery = None, rp_vehicle = Some vanId\<rparr>"

theorem validation_bounds_and_clamps_witness:
  "\<exists>p. validateUpdate (\<lambda>i. i = vanId) 0 fastClock = Inr p \<and> po_time p = 0 \<and> \<bar>po_lat p\<bar> \<le> 90"
proof -
  have "validateUpdate (\<lambda>i. i = vanId) 0 (fastClock\<lparr>rp_time := Some 0, rp_iso := True\<rparr>)
      = Inr (dtoOfRaw (fastClock\<lparr>rp_time := Some 0, rp_iso := True\<rparr>))"
    by (simp add: validateUpdate_def clampFutureTimestamp_def invalidFields_def fastClock_def numberIn_def optionalIn_def
        isPlausibleTimestamp_def FUTURE_TOLERANCE_MS_def PAST_TOLERANCE_MS_def)
  moreover have "validateUpdate (\<lambda>i. i = vanId) 0 fastClock
      = validateUpdate (\<lambda>i. i = vanId) 0 (fastClock\<lparr>rp_time := Some 0, rp_iso := True\<rparr>)"
    by (rule validation_bounds_and_clamps [THEN conjunct2, rule_format, of fastClock 99000000 0])
       (simp_all add: fastClock_def)
  ultimately have "validateUpdate (\<lambda>i. i = vanId) 0 fastClock = Inr (dtoOfRaw (fastClock\<lparr>rp_time := Some 0, rp_iso := True\<rparr>))"
    by (rule trans [rotated])
  then show ?thesis by (intro exI conjI) (assumption, simp_all add: dtoOfRaw_def fastClock_def)
qed

subsection \<open>The accounts of a batch\<close>

lemma sortOut_spec:
  "fst (sortOut i rs) = map projr (filter (\<lambda>r. \<not> isl r) rs)
   \<and> map fst (snd (sortOut i rs)) = map ((+) i) (filter (\<lambda>k. isl (rs ! k)) [0..<length rs])"
proof (induction i rs rule: sortOut.induct)
  have shift: "filter (\<lambda>k. isl ((x # xs) ! k)) [0..<Suc (length xs)]
      = (if isl x then [0] else []) @ map Suc (filter (\<lambda>k. isl (xs ! k)) [0..<length xs])" for x and xs :: "('c + 'd) list"
    by (simp add: upt_conv_Cons map_Suc_upt [symmetric] filter_map comp_def del: upt_Suc)
  {
    case (2 i bad rs)
    then show ?case by (simp add: split_beta shift comp_def del: upt_Suc)
  next
    case (3 i p rs)
    then show ?case by (simp add: split_beta shift comp_def del: upt_Suc)
  }
qed simp_all

lemma isBatchRateLimited_frames:
  "ts_positions (snd (isBatchRateLimited m d s)) = ts_positions s" "ts_now (snd (isBatchRateLimited m d s)) = ts_now s"
  by (simp_all add: isBatchRateLimited_def)

lemma saveBatch_length: "length (fst (saveBatch user driver ps company s)) \<le> length ps"
proof -
  obtain qs where qs: "subseq qs (sort_key po_time (validPositions (verifiedDelivery user driver s) (validBatchVehicle company s) ps))"
    "list_all2 (fromDto driver company) qs (bc_out (batchRows user driver company ps s))"
    using batchRows_out by blast
  have "length (validPositions V W ps) \<le> length ps" for V W by (simp add: validPositions_def)
  with list_emb_length [OF qs(1)] list_all2_lengthD [OF qs(2)]
    list_emb_length [OF saveBatch_positions(2) [of user driver ps company s]]
  show ?thesis by (simp add: order_trans)
qed

text \<open>C22. A batch that is processed accounts for every position of it: those that are invalid are
reported by their index, all the others are counted as validated, no more rows are stored than that, and
the table of positions grows by exactly the rows reported.\<close>

theorem batch_accounts_for_every_position:
  assumes "validateAndSaveBatch isUuid4 maxPerMin user company (Some rs) s = (BatchOk saved n driver rejected, s')"
  shows "n + length rejected = length rs
     \<and> (\<forall>k. k \<in> fst ` set rejected \<longleftrightarrow> k < length rs \<and> isl (validateUpdate isUuid4 (ts_now s) (rs ! k)))
     \<and> length saved \<le> n \<and> ts_positions s' = ts_positions s @ saved"
proof -
  let ?s1 = "snd (isBatchRateLimited maxPerMin user s)"
  let ?vs = "map (validateUpdate isUuid4 (ts_now s)) rs"
  have now: "ts_now ?s1 = ts_now s" "ts_positions ?s1 = ts_positions s" by (simp_all add: isBatchRateLimited_frames)
  have run: "n = length (fst (sortOut 0 ?vs)) \<and> rejected = snd (sortOut 0 ?vs) \<and> length saved \<le> n
      \<and> ts_positions s' = ts_positions s @ saved"
    using assms saveBatch_length [of user _ "fst (sortOut 0 ?vs)" company ?s1]
      saveBatch_positions(1) [of user _ "fst (sortOut 0 ?vs)" company ?s1]
    by (auto simp: validateAndSaveBatch_def split_beta now split: if_splits list.splits option.splits)
  have rej: "map fst (snd (sortOut 0 ?vs)) = filter (\<lambda>k. isl (?vs ! k)) [0..<length rs]"
    using sortOut_spec [of 0 ?vs] by (simp add: map_idI)
  have "length (snd (sortOut 0 ?vs)) = length (filter isl ?vs)"
  proof -
    have "length (filter (\<lambda>k. isl (?vs ! k)) [0..<length ?vs]) = length (filter isl ?vs)"
      by (metis (no_types, lifting) filter_map length_map map_nth comp_def filter_cong)
    then show ?thesis using arg_cong [OF rej, of length] by simp
  qed
  moreover have "length (fst (sortOut 0 ?vs)) = length (filter (\<lambda>r. \<not> isl r) ?vs)"
    using sortOut_spec [of 0 ?vs] by simp
  ultimately have "n + length rejected = length rs"
    using run sum_length_filter_compl [of isl ?vs] by simp
  moreover have "fst ` set rejected = {k. k < length rs \<and> isl (validateUpdate isUuid4 (ts_now s) (rs ! k))}"
    using arg_cong [OF rej, of set] run by auto
  ultimately show ?thesis using run by simp
qed

definition twoRaw :: "raw_position list" where
  "twoRaw = [fastClock\<lparr>rp_lat := NonFinite\<rparr>, fastClock]"

lemma batch_processed:
  assumes "\<not> fst (isBatchRateLimited m user s)" and "findDriverByUserId user (snd (isBatchRateLimited m user s)) = Some r"
    and "rs \<noteq> []"
  shows "\<exists>saved n driver rejected s'. validateAndSaveBatch U m user company (Some rs) s = (BatchOk saved n driver rejected, s')"
proof -
  obtain x xs where rs: "rs = x # xs" using assms(3) by (cases rs) simp_all
  let ?ok = "fst (sortOut 0 (map (validateUpdate U (ts_now (snd (isBatchRateLimited m user s)))) rs))"
  show ?thesis
    using assms by (cases "?ok = []") (simp_all add: validateAndSaveBatch_def split_beta rs Let_def)
qed

theorem batch_accounts_for_every_position_witness:
  "\<exists>saved n driver rejected s'.
     validateAndSaveBatch (\<lambda>i. i = vanId) 30 ''usr'' acmeId (Some twoRaw) fleet = (BatchOk saved n driver rejected, s')
     \<and> n + length rejected = 2 \<and> length saved \<le> n \<and> ts_positions s' = saved"
proof -
  have "\<not> fst (isBatchRateLimited 30 ''usr'' fleet)"
    by (simp add: isBatchRateLimited_def batchesSoFar_def cacheGet_def fleet_def)
  moreover obtain r where "findDriverByUserId ''usr'' (snd (isBatchRateLimited 30 ''usr'' fleet)) = Some r"
    by (simp add: findDriverByUserId_def isBatchRateLimited_def fleet_def)
  moreover have "twoRaw \<noteq> []" by (simp add: twoRaw_def)
  ultimately obtain saved n driver rejected s'
    where run: "validateAndSaveBatch (\<lambda>i. i = vanId) 30 ''usr'' acmeId (Some twoRaw) fleet = (BatchOk saved n driver rejected, s')"
    using batch_processed by blast
  from batch_accounts_for_every_position [OF run]
  have "n + length rejected = 2 \<and> length saved \<le> n \<and> ts_positions s' = saved"
    by (simp add: twoRaw_def fleet_def)
  with run show ?thesis by blast
qed

subsection \<open>The budget of batches\<close>

definition batchCall :: "int \<Rightarrow> ident \<Rightarrow> tstate \<Rightarrow> tstate" where
  "batchCall m d s = snd (isBatchRateLimited m d s)"

definition steady :: "ms \<Rightarrow> ms \<Rightarrow> nat \<Rightarrow> (ms \<times> ident) list" where
  "steady t0 gap n = map (\<lambda>k. (t0 + int k * gap, [])) [0..<n]"

lemma batchCall_counts:
  assumes "batchesSoFar d s = (if n = 0 then None else Some (int n))" and "int (Suc n) \<le> m"
  shows "ts_cache (batchCall m d s) (batchRateKey d) = Some (Num (int (Suc n)), ts_now s + 60000)"
  using assms by (simp add: batchCall_def isBatchRateLimited_def cacheSet_def split: if_splits)

text \<open>The budget is not per minute: the counter's lifetime starts anew with each batch let through, so
a driver who sends one batch at any steady interval below 60 seconds is refused once the budget is used
up, whatever time that took; at one batch every 59 seconds, thirty batches are half an hour.\<close>

theorem steady_batches_are_refused:
  assumes "0 < m" and "0 \<le> gap" and "gap < 60000" and "ts_cache s (batchRateKey d) = None"
  shows "fst (isBatchRateLimited m d ((runAt (\<lambda>a. batchCall m d) (steady t0 gap (nat m)) s)\<lparr>ts_now := t0 + m * gap\<rparr>))"
proof -
  let ?run = "\<lambda>n. runAt (\<lambda>a. batchCall m d) (steady t0 gap n) s"
  have "ts_cache (?run n) (batchRateKey d)
      = (if n = 0 then None else Some (Num (int n), t0 + (int n - 1) * gap + 60000))" if "int n \<le> m" for n
    using that
  proof (induction n)
    case 0
    then show ?case by (simp add: steady_def assms(4))
  next
    case (Suc n)
    let ?s = "(?run n)\<lparr>ts_now := t0 + int n * gap\<rparr>"
    have step: "?run (Suc n) = batchCall m d ?s" by (simp add: steady_def)
    have IH: "ts_cache ?s (batchRateKey d) = (if n = 0 then None else Some (Num (int n), t0 + (int n - 1) * gap + 60000))"
      using Suc by simp
    have "batchesSoFar d ?s = (if n = 0 then None else Some (int n))"
      using IH assms(3) by (simp add: batchesSoFar_def cacheGet_def algebra_simps)
    with batchCall_counts [of d ?s n m] Suc.prems show ?case by (simp add: step)
  qed
  from this [of "nat m"] have "ts_cache (?run (nat m)) (batchRateKey d) = Some (Num m, t0 + (m - 1) * gap + 60000)"
    using assms(1) by simp
  then have "batchesSoFar d ((?run (nat m))\<lparr>ts_now := t0 + m * gap\<rparr>) = Some m"
    using assms(3) by (simp add: batchesSoFar_def cacheGet_def algebra_simps)
  then show ?thesis using assms(1) by (simp add: isBatchRateLimited_def)
qed

theorem steady_batches_are_refused_witness:
  "fst (isBatchRateLimited 30 ''usr'' ((runAt (\<lambda>a. batchCall 30 ''usr'') (steady 0 59000 30) fleet)\<lparr>ts_now := 30 * 59000\<rparr>))"
  using steady_batches_are_refused [of 30 59000 fleet "''usr''" 0] by (simp add: fleet_def)

subsection \<open>Late fixes\<close>

text \<open>A late fix of a vehicle whose source changed is marked suspect wherever it lies: when the row
before it comes from the other source, less than five minutes earlier, the code compares it with the
newest row of its own source, which can be later than the fix.\<close>

theorem late_fix_after_source_change_is_suspect:
  assumes "getLastPosition v True s = Some l" and "t \<le> gp_time l"
    and "newest (\<lambda>g. gp_vehicle g = v \<and> \<not> gp_suspect g \<and> gp_time g < t) (ts_positions s) = Some b"
    and "gp_source b \<noteq> src" and "t - gp_time b \<le> 300000"
    and "newest (\<lambda>g. gp_vehicle g = v \<and> gp_source g = src \<and> \<not> gp_suspect g) (ts_positions s) = Some o'"
    and "t \<le> gp_time o'"
  shows "detectTeleportation lat lng t v acc src spd s"
proof -
  have "0 < secs_between (gp_time b) t" "secs_between (gp_time b) t \<le> 300"
    using newest_spec [OF assms(3)] assms(5) by (simp_all add: secs_between_def)
  moreover have "\<not> 0 < secs_between (gp_time o') t" using assms(7) by (simp add: secs_between_def)
  ultimately show ?thesis
    using assms by (simp add: detectTeleportation_def teleportReference_def evaluateTeleportation_def teleportRef_def Let_def)
qed

definition trackerAt :: "ms \<Rightarrow> gps_position" where
  "trackerAt t = (storedAt t 5)\<lparr>gp_source := PhysicalTracker\<rparr>"

theorem late_fix_after_source_change_is_suspect_witness:
  "detectTeleportation 0 0 60000 vanId (Some 5) PhysicalTracker (Some 5) (fleetWith [storedAt 0 5, trackerAt 90000])"
  by (rule late_fix_after_source_change_is_suspect [where l = "trackerAt 90000" and b = "storedAt 0 5" and o' = "trackerAt 90000"])
     (simp_all add: getLastPosition_def newest_def trackerAt_def)

end
