(* ===== verification/Tracking_Silence.thy ===== *)
theory Tracking_Silence
  imports Tracking_AlertLaws "HOL-Library.Multiset"
begin

text \<open>
  The silence monitor of \<open>tracking.service.ts\<close>: \<open>checkSilentVehicles\<close>, run every minute, and the
  view \<open>getTrackingSilences\<close>. A vehicle is watched when it is active, has an active driver and a
  delivery under way. The loop over the vehicles is a fold of \<open>silenceStep\<close>.
\<close>

definition NEVER_CONNECTED_GRACE_MS :: ms where "NEVER_CONNECTED_GRACE_MS = 30 * 60 * 1000"
definition SILENCE_JOURNAL_TTL_S :: int where "SILENCE_JOURNAL_TTL_S = 24 * 3600"

definition getSilenceThresholdMin :: "(position_source \<Rightarrow> jsnum) \<Rightarrow> position_source \<Rightarrow> real" where
  "getSilenceThresholdMin env src =
     (case env src of
        Fin v \<Rightarrow> if 0 < v then v else (if src = PhysicalTracker then 10 else 5)
      | NonFinite \<Rightarrow> (if src = PhysicalTracker then 10 else 5))"

definition silenceKey :: "ident \<Rightarrow> string" where "silenceKey v = ''silence_alert:'' @ v"
definition silenceJournalKey :: "ident \<Rightarrow> string" where "silenceJournalKey v = ''tracking_silence:'' @ v"

lemma silence_keys [simp]:
  "silenceKey v = silenceKey w \<longleftrightarrow> v = w" "silenceJournalKey v = silenceJournalKey w \<longleftrightarrow> v = w"
  "silenceKey v \<noteq> silenceJournalKey w" "silenceJournalKey w \<noteq> silenceKey v"
  by (simp_all add: silenceKey_def silenceJournalKey_def)

definition underWay :: "ident \<Rightarrow> tstate \<Rightarrow> ident option" where
  "underWay vehicle s =
     map_option fst (find (\<lambda>(i, d). vehicleId d = Some vehicle \<and> status d \<in> {InProgress, Assigned} \<and> deletedAt d = None)
       (ts_deliveries s))"

definition driverOf :: "ident \<Rightarrow> tstate \<Rightarrow> track_driver option" where
  "driverOf vehicle s =
     find (\<lambda>r. td_vehicle r = Some vehicle \<and> td_active r \<and> \<not> td_deleted r) (ts_drivers s)"

definition watched :: "tstate \<Rightarrow> track_vehicle list" where
  "watched s = filter (\<lambda>v. tv_active v \<and> \<not> tv_deleted v \<and> driverOf (tv_id v) s \<noteq> None \<and> underWay (tv_id v) s \<noteq> None)
     (ts_vehicles s)"

definition openJournal :: "ident \<Rightarrow> tstate \<Rightarrow> tstate" where
  "openJournal v s =
     (case cacheGet (ts_now s) (silenceJournalKey v) (ts_cache s) of
        Some _ \<Rightarrow> s
      | None \<Rightarrow> s\<lparr>ts_cache := cacheSet (ts_now s) (silenceJournalKey v) (Journal (ts_now s)) SILENCE_JOURNAL_TTL_S (ts_cache s)\<rparr>)"

definition silenceStep :: "(position_source \<Rightarrow> jsnum) \<Rightarrow> track_vehicle \<Rightarrow> tstate \<Rightarrow> tstate" where
  "silenceStep env v s =
     (let thr = getSilenceThresholdMin env (tv_source v);
          user = Option.bind (driverOf (tv_id v) s) td_user
      in case getLastPosition (tv_id v) False s of
           None \<Rightarrow>
             if real_of_int (ts_now s - tv_created v) / 60000 < real_of_int NEVER_CONNECTED_GRACE_MS / 60000 then s
             else whenCool (silenceKey (tv_id v)) \<lfloor>thr * 60\<rfloor>
                    [SilenceAlert (tv_company v) (tv_id v) None user] s
         | Some g \<Rightarrow>
             (let elapsedMin = real_of_int (ts_now s - gp_time g) / 60000 in
              if elapsedMin \<le> thr
              then s\<lparr>ts_cache := cacheInvalidate (silenceJournalKey (tv_id v)) (ts_cache s)\<rparr>
              else whenCool (silenceKey (tv_id v)) (max 300 \<lfloor>thr * 60\<rfloor>)
                     [SilenceAlert (tv_company v) (tv_id v) (Some (js_round elapsedMin)) user]
                     (openJournal (tv_id v) s)))"

definition checkSilentVehicles :: "(position_source \<Rightarrow> jsnum) \<Rightarrow> tstate \<Rightarrow> tstate" where
  "checkSilentVehicles env s = fold (silenceStep env) (watched s) s"

record silence_row =
  sr_vehicle :: ident
  sr_source :: position_source
  sr_driver :: "ident option"
  sr_delivery :: "ident option"
  sr_silenceMin :: "real option"
  sr_threshold :: real
  sr_inSilence :: bool
  sr_neverConnected :: bool
  sr_startedAt :: "ms option"

definition silenceRow :: "(position_source \<Rightarrow> jsnum) \<Rightarrow> tstate \<Rightarrow> track_vehicle \<Rightarrow> silence_row" where
  "silenceRow env s v =
     (let thr = getSilenceThresholdMin env (tv_source v);
          elapsed = map_option (\<lambda>g. real_of_int (ts_now s - gp_time g) / 60000) (getLastPosition (tv_id v) False s)
      in \<lparr>sr_vehicle = tv_id v, sr_source = tv_source v, sr_driver = map_option td_id (driverOf (tv_id v) s),
          sr_delivery = underWay (tv_id v) s,
          sr_silenceMin = map_option (\<lambda>e. real_of_int (js_round (e * 10)) / 10) elapsed,
          sr_threshold = thr,
          sr_inSilence = (case elapsed of None \<Rightarrow> False | Some e \<Rightarrow> thr < e),
          sr_neverConnected = (elapsed = None),
          sr_startedAt = (case cacheGet (ts_now s) (silenceJournalKey (tv_id v)) (ts_cache s) of
                            Some (Journal t) \<Rightarrow> Some t | _ \<Rightarrow> None)\<rparr>)"

definition getTrackingSilences :: "(position_source \<Rightarrow> jsnum) \<Rightarrow> ident \<Rightarrow> tstate \<Rightarrow> silence_row list" where
  "getTrackingSilences env company s =
     sort_key (\<lambda>r. - nullish (sr_silenceMin r) (- 1))
       (map (silenceRow env s)
          (filter (\<lambda>v. tv_company v = company \<and> tv_active v \<and> \<not> tv_deleted v \<and> driverOf (tv_id v) s \<noteq> None)
             (ts_vehicles s)))"

subsection \<open>The step of one vehicle\<close>

definition isSilenceAlert :: "ident \<Rightarrow> track_effect \<Rightarrow> bool" where
  "isSilenceAlert v e = (case e of SilenceAlert c w m u \<Rightarrow> w = v | _ \<Rightarrow> False)"

lemma startsWith_self [simp]: "startsWith k k"
  by (simp add: startsWith_def)

lemma silenceKey_not_journal [simp]: "\<not> startsWith (silenceKey w) (silenceJournalKey v)"
  by (simp add: startsWith_def silenceKey_def silenceJournalKey_def)

lemma openJournal_simps [simp]:
  "alertCount p (openJournal v s) = alertCount p s" "ts_now (openJournal v s) = ts_now s"
  "ts_cache (openJournal v s) (silenceKey w) = ts_cache s (silenceKey w)"
  by (simp_all add: openJournal_def cacheSet_def split: option.split)

lemma throttleStep_weaken:
  "throttleStep key ttl' p s s' \<Longrightarrow> ttl \<le> ttl' \<Longrightarrow> throttleStep key ttl p s s'"
  unfolding throttleStep_def by (smt (verit, best))

lemma silenceStep_throttle:
  assumes "v = tv_id w \<Longrightarrow> ttl \<le> \<lfloor>getSilenceThresholdMin env (tv_source w) * 60\<rfloor>"
  shows "throttleStep (silenceKey v) ttl (isSilenceAlert v) s (silenceStep env w s)"
proof -
  have cool: "throttleStep (silenceKey v) ttl (isSilenceAlert v) x (whenCool (silenceKey (tv_id w)) secs
      [SilenceAlert c (tv_id w) m u] x)" if "v = tv_id w \<Longrightarrow> ttl \<le> secs" for x c m u secs
  proof (cases "v = tv_id w")
    case True
    have "throttleStep (silenceKey v) secs (isSilenceAlert v) x (whenCool (silenceKey v) secs [SilenceAlert c v m u] x)"
      by (rule whenCool_throttle) (simp add: isSilenceAlert_def)
    with that [OF True] True show ?thesis by (auto intro: throttleStep_weaken)
  next
    case False
    then show ?thesis by (intro whenCool_other) (simp_all add: isSilenceAlert_def)
  qed
  have journal: "throttleStep (silenceKey v) ttl (isSilenceAlert v) s (f (openJournal (tv_id w) s))"
    if "throttleStep (silenceKey v) ttl (isSilenceAlert v) (openJournal (tv_id w) s) (f (openJournal (tv_id w) s))" for f
    using that by (simp add: throttleStep_def cacheGet_def)
  have quiet: "throttleStep (silenceKey v) ttl (isSilenceAlert v) s
      (s\<lparr>ts_cache := cacheInvalidate (silenceJournalKey (tv_id w)) (ts_cache s)\<rparr>)"
    by (simp add: throttleStep_def cacheInvalidate_def)
  show ?thesis
  proof (cases "getLastPosition (tv_id w) False s")
    case None
    have "throttleStep (silenceKey v) ttl (isSilenceAlert v) s s" by (simp add: throttleStep_def)
    then show ?thesis
      using cool [OF assms] by (simp add: silenceStep_def Let_def None)
  next
    case (Some g)
    have "ttl \<le> max 300 \<lfloor>getSilenceThresholdMin env (tv_source w) * 60\<rfloor>" if "v = tv_id w"
      using assms [OF that] by simp
    then show ?thesis
      using quiet by (auto simp: silenceStep_def Let_def Some intro!: journal cool)
  qed
qed

lemma silenceStep_now [simp]: "ts_now (silenceStep env w s) = ts_now s"
  by (simp add: silenceStep_def Let_def split: option.split)

lemma throttleStep_trans:
  assumes "throttleStep key ttl p s t" and "throttleStep key ttl p t u" and "ts_now t = ts_now s" and "0 < ttl"
  shows "throttleStep key ttl p s u"
proof -
  from assms(1) consider "alertCount p t = alertCount p s" "ts_cache t key = ts_cache s key"
    | e where "cacheGet (ts_now s) key (ts_cache s) = None" "alertCount p t = Suc (alertCount p s)"
      "ts_cache t key = Some (Flag, e)" "ts_now s + ttl * 1000 \<le> e"
    by (auto simp: throttleStep_def)
  then show ?thesis
  proof cases
    case 1
    with assms(2,3) show ?thesis by (simp add: throttleStep_def cacheGet_def)
  next
    case (2 e)
    then have "cacheGet (ts_now t) key (ts_cache t) \<noteq> None" using assms(3,4) by (simp add: cacheGet_def)
    with assms(2) 2 show ?thesis by (auto simp: throttleStep_def)
  qed
qed

definition wholeSeconds :: "(position_source \<Rightarrow> jsnum) \<Rightarrow> int" where
  "wholeSeconds env = min \<lfloor>getSilenceThresholdMin env Phone * 60\<rfloor> \<lfloor>getSilenceThresholdMin env PhysicalTracker * 60\<rfloor>"

lemma wholeSeconds_le: "wholeSeconds env \<le> \<lfloor>getSilenceThresholdMin env src * 60\<rfloor>"
  by (cases src) (simp_all add: wholeSeconds_def)

lemma monitor_throttles:
  assumes "0 < wholeSeconds env"
  shows "throttleStep (silenceKey v) (wholeSeconds env) (isSilenceAlert v) s (checkSilentVehicles env s)"
proof -
  have "throttleStep (silenceKey v) (wholeSeconds env) (isSilenceAlert v) s (fold (silenceStep env) ws s)
      \<and> ts_now (fold (silenceStep env) ws s) = ts_now s" for ws
    using throttleStep_trans [OF _ silenceStep_throttle _ assms] wholeSeconds_le
    by (induction ws rule: rev_induct) (auto intro: throttleStep_trans [OF _ silenceStep_throttle _ assms])
  then show ?thesis by (simp add: checkSilentVehicles_def)
qed

text \<open>The monitor with a threshold of at least a second; the argument of the locale's step is unused.\<close>

definition monitorFor :: "(position_source \<Rightarrow> jsnum) \<Rightarrow> unit \<Rightarrow> tstate \<Rightarrow> tstate" where
  "monitorFor env a s = (if 0 < wholeSeconds env then checkSilentVehicles env s else s)"

interpretation silence_throttle: throttled "monitorFor env" "silenceKey v" "wholeSeconds env" "isSilenceAlert v" for env v
  by unfold_locales (simp add: monitorFor_def monitor_throttles)

text \<open>However often the monitor runs, a vehicle raises at most one silence alert per threshold period
(the shorter of the two configured thresholds).\<close>

theorem silence_alerts_are_throttled:
  assumes "0 < wholeSeconds env" and "inWindow t0 (wholeSeconds env) evs"
  shows "alertCount (isSilenceAlert v) (runAt (\<lambda>a. checkSilentVehicles env) evs s) \<le> Suc (alertCount (isSilenceAlert v) s)"
proof -
  have "runAt (monitorFor env) (map (\<lambda>(t, a). (t, ())) evs) s = runAt (\<lambda>a. checkSilentVehicles env) evs s"
    using assms(1) by (induction evs arbitrary: s) (auto simp: runAt_def monitorFor_def)
  moreover have "\<forall>t\<in>fst ` set (map (\<lambda>(t, a). (t, ())) evs). t0 \<le> t \<and> t < t0 + wholeSeconds env * 1000"
    using assms(2) by (auto simp: inWindow_def)
  ultimately show ?thesis using silence_throttle.at_most_one_in_window by metis
qed

definition bareEnv :: "position_source \<Rightarrow> jsnum" where
  "bareEnv src = (case src of Phone \<Rightarrow> Fin 5 | PhysicalTracker \<Rightarrow> Fin 10)"

lemma bareEnv_thresholds [simp]:
  "getSilenceThresholdMin bareEnv Phone = 5" "getSilenceThresholdMin bareEnv PhysicalTracker = 10"
  "wholeSeconds bareEnv = 300"
  by (simp_all add: bareEnv_def getSilenceThresholdMin_def wholeSeconds_def)

theorem silence_alerts_are_throttled_witness:
  "alertCount (isSilenceAlert vanId)
     (runAt (\<lambda>a. checkSilentVehicles bareEnv) [(600000, ()), (660000, ()), (899000, ())] fleet)
     \<le> Suc (alertCount (isSilenceAlert vanId) fleet)"
  by (rule silence_alerts_are_throttled [where ?t0.0 = 600000]) (simp_all add: inWindow_def)

subsection \<open>The journal\<close>

definition isSilent :: "(position_source \<Rightarrow> jsnum) \<Rightarrow> track_vehicle \<Rightarrow> tstate \<Rightarrow> bool" where
  "isSilent env w s = (case getLastPosition (tv_id w) False s of
     None \<Rightarrow> False
   | Some g \<Rightarrow> getSilenceThresholdMin env (tv_source w) < real_of_int (ts_now s - gp_time g) / 60000)"

definition sameWorld :: "tstate \<Rightarrow> tstate \<Rightarrow> bool" where
  "sameWorld s s' \<longleftrightarrow> ts_vehicles s' = ts_vehicles s \<and> ts_drivers s' = ts_drivers s
     \<and> ts_deliveries s' = ts_deliveries s \<and> ts_positions s' = ts_positions s"

lemma whenCool_world [simp]:
  "ts_vehicles (whenCool k n es s) = ts_vehicles s" "ts_drivers (whenCool k n es s) = ts_drivers s"
  "ts_deliveries (whenCool k n es s) = ts_deliveries s" "ts_positions (whenCool k n es s) = ts_positions s"
  by (simp_all add: whenCool_def cooldown_def alertOut_def split: option.split)

lemma openJournal_world [simp]:
  "ts_vehicles (openJournal v s) = ts_vehicles s" "ts_drivers (openJournal v s) = ts_drivers s"
  "ts_deliveries (openJournal v s) = ts_deliveries s" "ts_positions (openJournal v s) = ts_positions s"
  by (simp_all add: openJournal_def split: option.split)

lemma silenceStep_world: "sameWorld s (silenceStep env w s)"
  by (simp add: silenceStep_def sameWorld_def Let_def split: option.split)

lemma sameWorld_reads:
  assumes "sameWorld s s'"
  shows "watched s' = watched s" "getLastPosition v b s' = getLastPosition v b s"
  using assms by (simp_all add: sameWorld_def watched_def driverOf_def underWay_def getLastPosition_def)

lemma startsWith_journal [simp]:
  "startsWith (silenceJournalKey v) (silenceJournalKey w) = startsWith v w"
  by (simp add: startsWith_def silenceJournalKey_def)

lemma journal_other:
  assumes "\<not> startsWith v (tv_id w)"
  shows "ts_cache (silenceStep env w s) (silenceJournalKey v) = ts_cache s (silenceJournalKey v)"
proof -
  have "tv_id w \<noteq> v" using assms by auto
  then have "ts_cache (openJournal (tv_id w) s) (silenceJournalKey v) = ts_cache s (silenceJournalKey v)"
    by (simp add: openJournal_def cacheSet_def split: option.split)
  with assms show ?thesis
    by (simp add: silenceStep_def Let_def cacheSet_def cacheInvalidate_def split: option.split)
qed

lemma journal_self:
  assumes "isSilent env w s"
  shows "ts_cache (silenceStep env w s) (silenceJournalKey (tv_id w))
       = ts_cache (openJournal (tv_id w) s) (silenceJournalKey (tv_id w))"
  using assms by (auto simp: isSilent_def silenceStep_def Let_def cacheSet_def split: option.splits)

text \<open>The row of a vehicle whose id no other row's id extends or repeats, as with ids of equal length.\<close>

definition ownKey :: "track_vehicle \<Rightarrow> tstate \<Rightarrow> bool" where
  "ownKey w s \<longleftrightarrow> (\<exists>as bs. watched s = as @ w # bs
     \<and> (\<forall>u\<in>set as \<union> set bs. \<not> startsWith (tv_id w) (tv_id u)))"

definition sameButCache :: "tstate \<Rightarrow> tstate \<Rightarrow> bool" where
  "sameButCache s s' \<longleftrightarrow> sameWorld s s' \<and> ts_now s' = ts_now s"

lemma fold_world: "sameButCache s (fold (silenceStep env) ws s)"
proof (induction ws arbitrary: s)
  case (Cons w ws)
  have "sameButCache s (silenceStep env w s)"
    using silenceStep_world by (simp add: sameButCache_def)
  with Cons.IH [of "silenceStep env w s"] show ?case by (simp add: sameButCache_def sameWorld_def)
qed (simp add: sameButCache_def sameWorld_def)

lemma fold_journal_other:
  assumes "\<forall>u\<in>set ws. \<not> startsWith v (tv_id u)"
  shows "ts_cache (fold (silenceStep env) ws s) (silenceJournalKey v) = ts_cache s (silenceJournalKey v)"
  using assms by (induction ws arbitrary: s) (simp_all add: journal_other)

lemma isSilent_world: "sameButCache s s' \<Longrightarrow> isSilent env w s' = isSilent env w s"
  by (simp add: sameButCache_def isSilent_def sameWorld_def getLastPosition_def split: option.split)

lemma openJournal_at:
  "ts_cache (openJournal v s) (silenceJournalKey v)
     = (case cacheGet (ts_now s) (silenceJournalKey v) (ts_cache s) of
          Some _ \<Rightarrow> ts_cache s (silenceJournalKey v)
        | None \<Rightarrow> Some (Journal (ts_now s), ts_now s + SILENCE_JOURNAL_TTL_S * 1000))"
  by (simp add: openJournal_def cacheSet_def split: option.split)

lemma monitor_journal:
  assumes own: "ownKey w s" and silent: "isSilent env w s"
  shows "ts_cache (checkSilentVehicles env s) (silenceJournalKey (tv_id w))
       = (case cacheGet (ts_now s) (silenceJournalKey (tv_id w)) (ts_cache s) of
          Some _ \<Rightarrow> ts_cache s (silenceJournalKey (tv_id w))
        | None \<Rightarrow> Some (Journal (ts_now s), ts_now s + SILENCE_JOURNAL_TTL_S * 1000))"
proof -
  obtain as bs where w: "watched s = as @ w # bs"
    and other: "\<forall>u\<in>set as. \<not> startsWith (tv_id w) (tv_id u)" "\<forall>u\<in>set bs. \<not> startsWith (tv_id w) (tv_id u)"
    using own unfolding ownKey_def by blast
  let ?j = "silenceJournalKey (tv_id w)"
  define t where "t = fold (silenceStep env) as s"
  have t: "sameButCache s t" "ts_cache t ?j = ts_cache s ?j"
    using fold_world fold_journal_other [OF other(1)] by (simp_all add: t_def)
  have "ts_cache (checkSilentVehicles env s) ?j = ts_cache (silenceStep env w t) ?j"
    by (simp add: checkSilentVehicles_def w fold_journal_other [OF other(2)] t_def)
  also have "\<dots> = ts_cache (openJournal (tv_id w) t) ?j"
    using journal_self isSilent_world [OF t(1)] silent by simp
  finally show ?thesis
    using t(2) t(1) [unfolded sameButCache_def, THEN conjunct2] by (simp add: openJournal_at cacheGet_def split: option.split)
qed

text \<open>While a watched vehicle stays silent, the journal keeps the time at which the monitor first
found it silent, through every later run of the next 24 hours; that is the start the view shows.\<close>

theorem silence_start_is_the_first_detection:
  assumes "ownKey w s" and "isSilent env w (s\<lparr>ts_now := t0\<rparr>)"
    and "cacheGet t0 (silenceJournalKey (tv_id w)) (ts_cache s) = None"
    and "\<forall>t\<in>fst ` set evs. t0 \<le> t \<and> t < t0 + SILENCE_JOURNAL_TTL_S * 1000"
    and "t0 \<le> now" and "now < t0 + SILENCE_JOURNAL_TTL_S * 1000"
  shows "sr_startedAt (silenceRow env ((runAt (\<lambda>a :: unit. checkSilentVehicles env) ((t0, ()) # evs) s)\<lparr>ts_now := now\<rparr>) w)
       = Some t0"
proof -
  let ?j = "silenceJournalKey (tv_id w)" and ?till = "t0 + SILENCE_JOURNAL_TTL_S * 1000"
  have "let r = runAt (\<lambda>a :: unit. checkSilentVehicles env) ((t0, ()) # evs) s
        in sameWorld s r \<and> ts_cache r ?j = Some (Journal t0, ?till)"
    using assms(4)
  proof (induction evs rule: rev_induct)
    case Nil
    have "ownKey w (s\<lparr>ts_now := t0\<rparr>)"
      using assms(1) by (simp add: ownKey_def watched_def driverOf_def underWay_def)
    from monitor_journal [OF this assms(2)] show ?case
      using assms(3) fold_world [of "s\<lparr>ts_now := t0\<rparr>" env]
      by (simp add: runAt_def sameButCache_def checkSilentVehicles_def sameWorld_def)
  next
    case (snoc x evs)
    define r where "r = runAt (\<lambda>a :: unit. checkSilentVehicles env) ((t0, ()) # evs) s"
    obtain t where x: "x = (t, ())" and t: "t0 \<le> t" "t < ?till" using snoc.prems by (cases x) auto
    have r: "sameWorld s r" "ts_cache r ?j = Some (Journal t0, ?till)"
      using snoc by (simp_all add: r_def Let_def)
    have w: "sameWorld s (r\<lparr>ts_now := t\<rparr>)" using r(1) by (simp add: sameWorld_def)
    have own: "ownKey w (r\<lparr>ts_now := t\<rparr>)" using assms(1) by (simp add: ownKey_def sameWorld_reads [OF w])
    have "isSilent env w (r\<lparr>ts_now := t\<rparr>)"
      using assms(2) t(1) w by (auto simp: isSilent_def sameWorld_def getLastPosition_def split: option.splits)
    from monitor_journal [OF own this] have "ts_cache (checkSilentVehicles env (r\<lparr>ts_now := t\<rparr>)) ?j = Some (Journal t0, ?till)"
      using r(2) t by (simp add: cacheGet_def)
    moreover have "sameWorld s (checkSilentVehicles env (r\<lparr>ts_now := t\<rparr>))"
      using w fold_world [of "r\<lparr>ts_now := t\<rparr>" env] by (simp add: sameButCache_def checkSilentVehicles_def sameWorld_def)
    moreover have "runAt (\<lambda>a :: unit. checkSilentVehicles env) ((t0, ()) # evs @ [x]) s
        = checkSilentVehicles env (r\<lparr>ts_now := t\<rparr>)"
      by (simp add: r_def x runAt_def)
    ultimately show ?case by simp
  qed
  then show ?thesis using assms(5,6) by (simp add: Let_def silenceRow_def cacheGet_def)
qed

definition silentFleet :: tstate where
  "silentFleet = fleet\<lparr>ts_positions := [storedAt 0 0]\<rparr>"

theorem silence_start_is_the_first_detection_witness:
  "sr_startedAt (silenceRow bareEnv
     ((runAt (\<lambda>a :: unit. checkSilentVehicles bareEnv) [(360000, ()), (420000, ()), (86400000, ())] silentFleet)
        \<lparr>ts_now := 86400001\<rparr>) van) = Some 360000"
proof (rule silence_start_is_the_first_detection)
  show "ownKey van silentFleet"
    unfolding ownKey_def
    by (rule exI [of _ "[]"], rule exI [of _ "[]"])
      (simp add: watched_def driverOf_def underWay_def silentFleet_def fleet_def van_def fleetJob_def)
  show "isSilent bareEnv van (silentFleet\<lparr>ts_now := 360000\<rparr>)"
    by (simp add: isSilent_def getLastPosition_def newest_def silentFleet_def fleet_def van_def storedAt_def)
qed (simp_all add: silentFleet_def fleet_def cacheGet_def SILENCE_JOURNAL_TTL_S_def)

subsection \<open>The view\<close>

text \<open>The silence view lists each active vehicle of the company with an active driver exactly once,
the longest silence first and the never connected last; a row is in silence exactly when the last
position, suspect or not, is older than the threshold, and a vehicle never heard is never in silence.\<close>

theorem silence_view_is_worst_first:
  "mset (map sr_vehicle (getTrackingSilences env company s))
     = mset (map tv_id (filter (\<lambda>v. tv_company v = company \<and> tv_active v \<and> \<not> tv_deleted v
         \<and> driverOf (tv_id v) s \<noteq> None) (ts_vehicles s)))
   \<and> sorted (map (\<lambda>r. - nullish (sr_silenceMin r) (- 1)) (getTrackingSilences env company s))
   \<and> (\<forall>w. sr_inSilence (silenceRow env s w) = isSilent env w s
        \<and> (sr_neverConnected (silenceRow env s w) \<longleftrightarrow> (\<forall>g\<in>set (ts_positions s). gp_vehicle g \<noteq> tv_id w)))"
proof (intro conjI allI)
  show "mset (map sr_vehicle (getTrackingSilences env company s))
     = mset (map tv_id (filter (\<lambda>v. tv_company v = company \<and> tv_active v \<and> \<not> tv_deleted v
         \<and> driverOf (tv_id v) s \<noteq> None) (ts_vehicles s)))"
    by (simp add: getTrackingSilences_def silenceRow_def Let_def image_mset.compositionality comp_def)
  show "sorted (map (\<lambda>r. - nullish (sr_silenceMin r) (- 1)) (getTrackingSilences env company s))"
    by (simp add: getTrackingSilences_def)
  fix w
  show "sr_inSilence (silenceRow env s w) = isSilent env w s"
    by (simp add: silenceRow_def isSilent_def Let_def split: option.split)
  show "sr_neverConnected (silenceRow env s w) \<longleftrightarrow> (\<forall>g\<in>set (ts_positions s). gp_vehicle g \<noteq> tv_id w)"
    by (simp add: silenceRow_def getLastPosition_def newest_None Let_def)
qed

end
