(* ===== verification/Tracking_Live.thy ===== *)
theory Tracking_Live
  imports Tracking_IngestLaws Anchor "HOL-Library.List_Lexorder" "HOL-Library.Char_ord"
begin

text \<open>
  Where the map puts a vehicle: the reads of \<open>tracking.service.ts\<close> behind the anchor of a stopped
  vehicle (\<open>getRecentFixesByVehicle\<close>, \<open>computeAnchorByVehicle\<close>), the position of a broadcast
  (\<open>getDisplayPosition\<close>) and the positions of a freshly loaded map (\<open>getLivePositions\<close>). The motion
  flag stored with a row is the parameter \<open>motion\<close>. Identifiers are ordered as text, which is the
  order of the database on their canonical form. The time a row was received is not part of it.
\<close>

definition PER_VEHICLE_ANCHOR_FIXES :: nat where "PER_VEHICLE_ANCHOR_FIXES = 40"

definition anchorFixOf :: "(gps_position \<Rightarrow> bool option) \<Rightarrow> gps_position \<Rightarrow> anchor_fix" where
  "anchorFixOf motion g = \<lparr>an_lat = Fin (gp_lat g), an_lng = Fin (gp_lng g), an_acc = gp_acc g,
     an_speed = gp_speed g, an_motion = motion g, an_time = gp_time g\<rparr>"

definition recentRow :: "ident \<Rightarrow> tstate \<Rightarrow> gps_position \<Rightarrow> bool" where
  "recentRow vehicle s g \<longleftrightarrow>
     gp_vehicle g = vehicle \<and> \<not> gp_suspect g \<and> ts_now s - 48 * 3600 * 1000 \<le> gp_time g"

definition getRecentFixesByVehicle ::
    "(gps_position \<Rightarrow> bool option) \<Rightarrow> ident list \<Rightarrow> tstate \<Rightarrow> ident \<Rightarrow> anchor_fix list" where
  "getRecentFixesByVehicle motion vids s v =
     (if v \<in> set vids
      then map (anchorFixOf motion)
             (lastN PER_VEHICLE_ANCHOR_FIXES (sort_key gp_time (filter (recentRow v s) (ts_positions s))))
      else [])"

definition computeAnchorByVehicle ::
    "(gps_position \<Rightarrow> bool option) \<Rightarrow> ident list \<Rightarrow> tstate \<Rightarrow> ident \<rightharpoonup> point" where
  "computeAnchorByVehicle motion vids s v =
     computeAnchoredPosition (getRecentFixesByVehicle motion vids s v)"

definition getDisplayPosition ::
    "(gps_position \<Rightarrow> bool option) \<Rightarrow> ident \<Rightarrow> real option \<Rightarrow> bool \<Rightarrow> tstate \<Rightarrow> point option" where
  "getDisplayPosition motion vehicle speed susp s =
     (if susp then None
      else if (case speed of Some v \<Rightarrow> 1 / 2 \<le> v | None \<Rightarrow> False) then None
      else computeAnchorByVehicle motion [vehicle] s vehicle)"

record live_position =
  lp_row :: gps_position
  lp_named :: bool
  lp_display :: point
  lp_minutesAgo :: real

definition liveRows :: "ident \<Rightarrow> tstate \<Rightarrow> gps_position list" where
  "liveRows company s =
     List.map_filter (\<lambda>v. getLastPosition (tv_id v) False s)
       (sort_key tv_id (filter (\<lambda>v. tv_company v = company \<and> \<not> tv_deleted v \<and> tv_active v) (ts_vehicles s)))"

definition stoppedRow :: "gps_position \<Rightarrow> bool" where
  "stoppedRow g \<longleftrightarrow> gp_suspect g \<or> (case gp_speed g of None \<Rightarrow> True | Some v \<Rightarrow> v < 1 / 2)"

definition pointOf :: "gps_position \<Rightarrow> point" where "pointOf g = (gp_lat g, gp_lng g)"

definition livePosition ::
    "(gps_position \<Rightarrow> bool option) \<Rightarrow> gps_position list \<Rightarrow> tstate \<Rightarrow> gps_position \<Rightarrow> live_position" where
  "livePosition motion rows s g =
     (let suspects = map gp_vehicle (filter gp_suspect rows);
          stopped = map gp_vehicle (filter stoppedRow rows);
          lastGood = (if gp_vehicle g \<in> set suspects then getLastPosition (gp_vehicle g) True s else None);
          anchor = computeAnchorByVehicle motion stopped s (gp_vehicle g)
      in \<lparr>lp_row = g,
          lp_named = (\<exists>d\<in>set (ts_drivers s). gp_driver g = Some (td_id d) \<and> \<not> td_deleted d \<and> td_active d),
          lp_display = nullish anchor (nullish (map_option pointOf lastGood) (pointOf g)),
          lp_minutesAgo = real_of_int (ts_now s - gp_time g) / 60000\<rparr>)"

definition getLivePositions :: "(gps_position \<Rightarrow> bool option) \<Rightarrow> ident \<Rightarrow> tstate \<Rightarrow> live_position list" where
  "getLivePositions motion company s =
     (let rows = liveRows company s in map (livePosition motion rows s) rows)"

subsection \<open>Lemmas\<close>

lemma set_liveRows:
  "set (liveRows company s) = {g. \<exists>v\<in>set (ts_vehicles s). tv_company v = company \<and> \<not> tv_deleted v
     \<and> tv_active v \<and> getLastPosition (tv_id v) False s = Some g}"
  by (force simp: liveRows_def List.map_filter_def image_iff)

lemma getLastPosition_vehicle: "getLastPosition v b s = Some g \<Longrightarrow> gp_vehicle g = v"
  unfolding getLastPosition_def by (drule newest_spec) simp

lemma liveRows_last: "g \<in> set (liveRows company s) \<Longrightarrow> getLastPosition (gp_vehicle g) False s = Some g"
  using getLastPosition_vehicle by (auto simp: set_liveRows)

text \<open>A vehicle has one row, so the lists of suspect and stopped vehicles say what its row says.\<close>

lemma liveRows_has:
  assumes "g \<in> set (liveRows company s)"
  shows "gp_vehicle g \<in> gp_vehicle ` set (filter P (liveRows company s)) \<longleftrightarrow> P g"
proof -
  have "h = g" if "h \<in> set (liveRows company s)" "gp_vehicle h = gp_vehicle g" for h
    using liveRows_last [OF assms] liveRows_last [OF that(1)] that(2) by simp
  then show ?thesis using assms by (auto simp: image_iff)
qed

lemma getRecentFixes_empty: "v \<notin> set vs \<Longrightarrow> computeAnchorByVehicle motion vs s v = None"
  by (simp add: computeAnchorByVehicle_def getRecentFixesByVehicle_def computeAnchoredPosition_def ANCHOR_MIN_FIXES_def)

lemma anchor_one:
  "v \<in> set vs \<Longrightarrow> computeAnchorByVehicle motion vs s v = computeAnchorByVehicle motion [v] s v"
  by (simp add: computeAnchorByVehicle_def getRecentFixesByVehicle_def)

lemma lp_display:
  assumes "g \<in> set (liveRows company s)"
  shows "lp_display (livePosition motion (liveRows company s) s g)
       = nullish (if stoppedRow g then computeAnchorByVehicle motion [gp_vehicle g] s (gp_vehicle g) else None)
           (nullish (if gp_suspect g then map_option pointOf (getLastPosition (gp_vehicle g) True s) else None)
             (pointOf g))"
proof -
  have "gp_vehicle g \<in> gp_vehicle ` set (filter gp_suspect (liveRows company s)) \<longleftrightarrow> gp_suspect g"
    and st: "gp_vehicle g \<in> gp_vehicle ` set (filter stoppedRow (liveRows company s)) \<longleftrightarrow> stoppedRow g"
    by (rule liveRows_has [OF assms])+
  moreover have "computeAnchorByVehicle motion (map gp_vehicle (filter stoppedRow (liveRows company s))) s (gp_vehicle g)
      = (if stoppedRow g then computeAnchorByVehicle motion [gp_vehicle g] s (gp_vehicle g) else None)"
    using st anchor_one [of "gp_vehicle g" "map gp_vehicle (filter stoppedRow (liveRows company s))"] getRecentFixes_empty by simp
  ultimately show ?thesis by (simp add: livePosition_def Let_def)
qed

subsection \<open>The map after a reload\<close>

lemma recentRow_reliable:
  assumes "filter (\<lambda>g. \<not> gp_suspect g) (ts_positions s) = filter (\<lambda>g. \<not> gp_suspect g) (ts_positions s')"
    and "ts_now s = ts_now s'"
  shows "computeAnchorByVehicle motion vs s v = computeAnchorByVehicle motion vs s' v"
    and "getLastPosition v True s = getLastPosition v True s'"
proof -
  have rel: "filter (\<lambda>g. \<not> gp_suspect g \<and> P g) (ts_positions s) = filter (\<lambda>g. \<not> gp_suspect g \<and> P g) (ts_positions s')" for P
    using arg_cong [where f = "filter P", OF assms(1)] by (simp add: conj_commute)
  have "recentRow v x = (\<lambda>g. \<not> gp_suspect g \<and> gp_vehicle g = v \<and> ts_now x - 48 * 3600 * 1000 \<le> gp_time g)" for x
    by (auto simp: fun_eq_iff recentRow_def)
  then have "filter (recentRow v s) (ts_positions s) = filter (recentRow v s') (ts_positions s')"
    using rel [of "\<lambda>g. gp_vehicle g = v \<and> ts_now s' - 48 * 3600 * 1000 \<le> gp_time g"] assms(2) by simp
  then show "computeAnchorByVehicle motion vs s v = computeAnchorByVehicle motion vs s' v"
    by (simp add: computeAnchorByVehicle_def getRecentFixesByVehicle_def)
  show "getLastPosition v True s = getLastPosition v True s'"
    using rel [of "\<lambda>g. gp_vehicle g = v"] by (simp add: getLastPosition_def newest_def conj_commute)
qed

text \<open>A suspect point never places the marker of a vehicle that has a reliable point: two tables with
the same reliable rows show the vehicle at the same place, wherever their last, suspect rows lie.\<close>

theorem suspect_point_never_places_the_marker:
  assumes "filter (\<lambda>h. \<not> gp_suspect h) (ts_positions s) = filter (\<lambda>h. \<not> gp_suspect h) (ts_positions s')"
    and "ts_now s = ts_now s'"
    and "g \<in> set (liveRows company s)" and "gp_suspect g"
    and "g' \<in> set (liveRows company' s')" and "gp_suspect g'" and "gp_vehicle g' = gp_vehicle g"
    and "\<exists>h\<in>set (ts_positions s). gp_vehicle h = gp_vehicle g \<and> \<not> gp_suspect h"
  shows "lp_display (livePosition motion (liveRows company s) s g)
       = lp_display (livePosition motion (liveRows company' s') s' g')"
proof -
  obtain h where "getLastPosition (gp_vehicle g) True s = Some h"
    using assms(8) by (cases "getLastPosition (gp_vehicle g) True s") (auto simp: getLastPosition_def newest_None)
  then show ?thesis
    using lp_display [OF assms(3)] lp_display [OF assms(5)] assms(4,6,7)
      recentRow_reliable [OF assms(1,2)]
    by (simp add: stoppedRow_def)
qed

definition falsePoint :: "real \<Rightarrow> gps_position" where
  "falsePoint lat = (storedAt 60000 20)\<lparr>gp_lat := lat, gp_suspect := True\<rparr>"

definition jumpedFleet :: "real \<Rightarrow> tstate" where
  "jumpedFleet lat = fleet\<lparr>ts_positions := [storedAt 0 10, falsePoint lat], ts_now := 70000\<rparr>"

lemma jumpedFleet_facts:
  "liveRows acmeId (jumpedFleet lat) = [falsePoint lat]"
  "filter (\<lambda>h. \<not> gp_suspect h) (ts_positions (jumpedFleet lat)) = [storedAt 0 10]"
  "storedAt 0 10 \<in> set (ts_positions (jumpedFleet lat))"
  "gp_vehicle (falsePoint lat) = vanId" "gp_suspect (falsePoint lat)" "ts_now (jumpedFleet lat) = 70000"
  by (simp_all add: liveRows_def List.map_filter_def getLastPosition_def newest_def jumpedFleet_def falsePoint_def
      fleet_def van_def storedAt_def)

theorem suspect_point_never_places_the_marker_witness:
  "lp_display (livePosition (\<lambda>g. None) (liveRows acmeId (jumpedFleet 1)) (jumpedFleet 1) (falsePoint 1))
     = lp_display (livePosition (\<lambda>g. None) (liveRows acmeId (jumpedFleet 2)) (jumpedFleet 2) (falsePoint 2))"
proof (rule suspect_point_never_places_the_marker)
  show "\<exists>h\<in>set (ts_positions (jumpedFleet 1)). gp_vehicle h = gp_vehicle (falsePoint 1) \<and> \<not> gp_suspect h"
    using jumpedFleet_facts(3,4) by (intro bexI [of _ "storedAt 0 10"]) (simp_all add: storedAt_def)
qed (simp_all add: jumpedFleet_facts)

text \<open>The live view shows every active vehicle of the company that ever sent a position exactly once,
in the order of their identifiers, each with the newest of its rows, suspect or not.\<close>

theorem live_view_is_complete:
  assumes "distinct (map tv_id (ts_vehicles s))"
  shows "distinct (map (gp_vehicle \<circ> lp_row) (getLivePositions motion company s))
       \<and> sorted (map (gp_vehicle \<circ> lp_row) (getLivePositions motion company s))
       \<and> (gp_vehicle ` lp_row ` set (getLivePositions motion company s)
           = {v. \<exists>w\<in>set (ts_vehicles s). tv_id w = v \<and> tv_company w = company \<and> \<not> tv_deleted w \<and> tv_active w
                \<and> (\<exists>h\<in>set (ts_positions s). gp_vehicle h = v)})
       \<and> (\<forall>p\<in>set (getLivePositions motion company s). \<forall>h\<in>set (ts_positions s).
            gp_vehicle h = gp_vehicle (lp_row p) \<longrightarrow> gp_time h \<le> gp_time (lp_row p))"
proof (intro conjI)
  let ?vs = "sort_key tv_id (filter (\<lambda>v. tv_company v = company \<and> \<not> tv_deleted v \<and> tv_active v) (ts_vehicles s))"
  let ?q = "\<lambda>v. getLastPosition (tv_id v) False s"
  have rows: "map lp_row (getLivePositions motion company s) = liveRows company s"
    by (simp add: getLivePositions_def Let_def livePosition_def comp_def)
  have ids: "map gp_vehicle (liveRows company s) = map tv_id (filter (\<lambda>v. ?q v \<noteq> None) ?vs)"
    by (auto simp: liveRows_def List.map_filter_def comp_def dest: getLastPosition_vehicle)
  have d: "distinct (map tv_id ?vs)"
    using assms by (simp add: distinct_map inj_on_def)
  have "map (gp_vehicle \<circ> lp_row) (getLivePositions motion company s) = map tv_id (filter (\<lambda>v. ?q v \<noteq> None) ?vs)"
    using ids rows by (metis map_map)
  then show "distinct (map (gp_vehicle \<circ> lp_row) (getLivePositions motion company s))"
    "sorted (map (gp_vehicle \<circ> lp_row) (getLivePositions motion company s))"
    using d sorted_sort_key [of tv_id] by (auto simp: distinct_map_filter intro: sorted_filter)
  have heard: "?q w \<noteq> None \<longleftrightarrow> (\<exists>h\<in>set (ts_positions s). gp_vehicle h = tv_id w)" for w
    by (auto simp: getLastPosition_def newest_None)
  have "lp_row ` set (getLivePositions motion company s) = set (liveRows company s)"
    using arg_cong [where f = set, OF rows] by simp
  moreover have "gp_vehicle ` set (liveRows company s) = tv_id ` set (filter (\<lambda>v. ?q v \<noteq> None) ?vs)"
    using arg_cong [where f = set, OF ids] unfolding set_map .
  ultimately have "gp_vehicle ` lp_row ` set (getLivePositions motion company s)
      = tv_id ` set (filter (\<lambda>v. ?q v \<noteq> None) ?vs)" by metis
  also have "\<dots> = {v. \<exists>w\<in>set (ts_vehicles s). tv_id w = v \<and> tv_company w = company \<and> \<not> tv_deleted w \<and> tv_active w
           \<and> (\<exists>h\<in>set (ts_positions s). gp_vehicle h = v)}"
    unfolding set_filter set_sort heard by blast
  finally show "gp_vehicle ` lp_row ` set (getLivePositions motion company s)
      = {v. \<exists>w\<in>set (ts_vehicles s). tv_id w = v \<and> tv_company w = company \<and> \<not> tv_deleted w \<and> tv_active w
           \<and> (\<exists>h\<in>set (ts_positions s). gp_vehicle h = v)}" .
  show "\<forall>p\<in>set (getLivePositions motion company s). \<forall>h\<in>set (ts_positions s).
      gp_vehicle h = gp_vehicle (lp_row p) \<longrightarrow> gp_time h \<le> gp_time (lp_row p)"
  proof (intro ballI impI)
    fix p h
    assume p: "p \<in> set (getLivePositions motion company s)" and h: "h \<in> set (ts_positions s)" "gp_vehicle h = gp_vehicle (lp_row p)"
    from p rows have "lp_row p \<in> set (liveRows company s)" by (metis imageI set_map)
    from liveRows_last [OF this] h show "gp_time h \<le> gp_time (lp_row p)"
      unfolding getLastPosition_def by (drule_tac newest_spec) simp
  qed
qed

theorem live_view_is_complete_witness:
  "gp_vehicle ` lp_row ` set (getLivePositions (\<lambda>g. None) acmeId (jumpedFleet 1)) = {vanId}"
proof -
  have "distinct (map tv_id (ts_vehicles (jumpedFleet 1)))" by (simp add: jumpedFleet_def fleet_def)
  from live_view_is_complete [OF this, of "\<lambda>g. None" acmeId] show ?thesis
    by (auto simp: jumpedFleet_def fleet_def van_def storedAt_def)
qed

end
