(* ===== verification/Tracking_Gateway.thy ===== *)
theory Tracking_Gateway
  imports Tracking_Live GpsQuality
begin

text \<open>
  The WebSocket gateway of the positions, \<open>tracking.gateway.ts\<close>, and the native upload route of
  \<open>tracking.controller.ts\<close>. A socket is a number; what the guard of the messages
  (\<open>WsAuthService.verify\<close>) makes of its token is an argument of each event, as the token may expire
  or be revoked between two messages. Emissions to a room record the sockets in it at that moment.
  A handler runs without interruption. The report of a critical battery is not modelled.
\<close>

datatype room = DriverRoom ident | CompanyRoom ident | DeliveryRoom ident

record ws_user =
  wu_id :: ident
  wu_role :: role
  wu_company :: ident

datatype reject_reason =
  InvalidPayload | RateLimited | NotAssigned | VehicleMismatch | RejectedRow | NoDriver

datatype gate_answer =
  PositionRejected reject_reason
| PositionSaved bool
| PositionsRejected reject_reason "string option"
| PositionsSaved nat "string option"
| PositionsInvalid "string option" "(nat \<times> position_field list) list"
| Subscribed room
| Unsubscribed room
| WsError

record live_update =
  lu_driver :: ident
  lu_vehicle :: ident
  lu_delivery :: "ident option"
  lu_point :: point
  lu_display :: point
  lu_speed :: "real option"
  lu_heading :: "real option"
  lu_altitude :: "real option"
  lu_acc :: "real option"
  lu_suspect :: bool
  lu_confidence :: int
  lu_time :: ms

datatype emission =
  PositionUpdate live_update
| BatchPositionUpdate "live_update list"
| DriverOffline ident
| DataUpdate string
| ProximityNotice

record gstate =
  gw_t :: tstate
  gw_windows :: "ident \<Rightarrow> ground_ref list"
  gw_user :: "nat \<rightharpoonup> ws_user"
  gw_rooms :: "(nat \<times> room) list"
  gw_gone :: "ident \<rightharpoonup> ms"
  gw_answers :: "(nat \<times> gate_answer) list"
  gw_sent :: "(room \<times> nat list \<times> emission) list"

record gate_env =
  ge_uuid :: "ident \<Rightarrow> bool"
  ge_rateMs :: int
  ge_batchMax :: int
  ge_motion :: "gps_position \<Rightarrow> bool option"

subsection \<open>Rooms\<close>

definition joinRoom :: "nat \<Rightarrow> room \<Rightarrow> gstate \<Rightarrow> gstate" where
  "joinRoom c r g = g\<lparr>gw_rooms := List.insert (c, r) (gw_rooms g)\<rparr>"

definition leaveRoom :: "nat \<Rightarrow> room \<Rightarrow> gstate \<Rightarrow> gstate" where
  "leaveRoom c r g = g\<lparr>gw_rooms := removeAll (c, r) (gw_rooms g)\<rparr>"

definition members :: "room \<Rightarrow> gstate \<Rightarrow> nat list" where
  "members r g = map fst (filter (\<lambda>x. snd x = r) (gw_rooms g))"

definition emitTo :: "room \<Rightarrow> emission \<Rightarrow> gstate \<Rightarrow> gstate" where
  "emitTo r e g = g\<lparr>gw_sent := gw_sent g @ [(r, members r g, e)]\<rparr>"

definition answer :: "nat \<Rightarrow> gate_answer \<Rightarrow> gstate \<Rightarrow> gstate" where
  "answer c a g = g\<lparr>gw_answers := gw_answers g @ [(c, a)]\<rparr>"

definition handleConnection :: "nat \<Rightarrow> ws_user option \<Rightarrow> gstate \<Rightarrow> gstate" where
  "handleConnection c verified g =
     (case verified of
        None \<Rightarrow> answer c WsError (g\<lparr>gw_rooms := filter (\<lambda>x. fst x \<noteq> c) (gw_rooms g)\<rparr>)
      | Some u \<Rightarrow>
          (let g1 = g\<lparr>gw_user := (gw_user g)(c \<mapsto> u)\<rparr> in
           if wu_role u = DriverRole
           then (joinRoom c (DriverRoom (wu_id u)) g1)\<lparr>gw_gone := (gw_gone g)(wu_id u := None)\<rparr>
           else if wu_company u \<noteq> [] then joinRoom c (CompanyRoom (wu_company u)) g1 else g1))"

text \<open>The framework takes a socket out of its rooms before the handler runs.\<close>

definition handleDisconnect :: "nat \<Rightarrow> gstate \<Rightarrow> gstate" where
  "handleDisconnect c g0 =
     (let g = g0\<lparr>gw_rooms := filter (\<lambda>x. fst x \<noteq> c) (gw_rooms g0)\<rparr> in
      case gw_user g c of
        None \<Rightarrow> g
      | Some u \<Rightarrow>
          if wu_role u = DriverRole \<and> wu_company u \<noteq> []
          then emitTo (CompanyRoom (wu_company u)) (DriverOffline (wu_id u))
                 (g\<lparr>gw_gone := (gw_gone g)(wu_id u \<mapsto> ts_now (gw_t g))\<rparr>)
          else g)"

text \<open>The timer that forgets drivers gone for a day, and the bridge from the bus of data updates.\<close>

definition driverCleanup :: "gstate \<Rightarrow> gstate" where
  "driverCleanup g =
     g\<lparr>gw_gone := (\<lambda>i. case gw_gone g i of
          Some t \<Rightarrow> if t < ts_now (gw_t g) - 86400000 then None else Some t | None \<Rightarrow> None)\<rparr>"

definition dataUpdateListener :: "ident option \<Rightarrow> ident option \<Rightarrow> string \<Rightarrow> gstate \<Rightarrow> gstate" where
  "dataUpdateListener target company entity g =
     (let g1 = (case given target of
                  Some u \<Rightarrow> if entity = ''proximityAlert'' then emitTo (DriverRoom u) ProximityNotice g else g
                | None \<Rightarrow> g)
      in case given company of Some co \<Rightarrow> emitTo (CompanyRoom co) (DataUpdate entity) g1 | None \<Rightarrow> g1)"

subsection \<open>A position\<close>

definition rowRef :: "gps_position \<Rightarrow> ground_ref" where
  "rowRef p = \<lparr>ref_lat = Fin (gp_lat p), ref_lng = Fin (gp_lng p), ref_time = gp_time p, ref_acc = gp_acc p\<rparr>"

definition isLate :: "position_dto \<Rightarrow> tstate \<Rightarrow> bool" where
  "isLate dto s =
     (case getLastPosition (po_vehicle dto) True s of None \<Rightarrow> False | Some l \<Rightarrow> po_time dto < gp_time l)"

definition liveSpeed :: "ground_ref list \<Rightarrow> position_dto \<Rightarrow> tstate \<Rightarrow> real" where
  "liveSpeed window dto s =
     speedMs (resolveGroundSpeed (map_option Fin (po_speed dto))
       (map_option rowRef (getLastPosition (po_vehicle dto) True s)) (fixRef dto) False
       (selectSpeedWindowRef window (po_time dto)))"

definition slideWindow :: "position_dto \<Rightarrow> ground_ref list \<Rightarrow> ground_ref list" where
  "slideWindow dto w = dropWhile (\<lambda>r. 130000 < po_time dto - ref_time r) (w @ [fixRef dto])"

definition liveConfidence :: "real option \<Rightarrow> bool \<Rightarrow> real option \<Rightarrow> int" where
  "liveConfidence acc susp speed =
     (case acc of
        Some a \<Rightarrow> if 0 < a then computeConfidence (Some a) susp speed else computeConfidence None susp speed
      | None \<Rightarrow> computeConfidence None susp speed)"

definition updateOf :: "ident \<Rightarrow> point option \<Rightarrow> gps_position \<Rightarrow> live_update" where
  "updateOf driver display p =
     \<lparr>lu_driver = driver, lu_vehicle = gp_vehicle p, lu_delivery = gp_delivery p,
      lu_point = pointOf p, lu_display = nullish display (pointOf p), lu_speed = gp_speed p,
      lu_heading = gp_heading p, lu_altitude = gp_altitude p, lu_acc = gp_acc p, lu_suspect = gp_suspect p,
      lu_confidence = liveConfidence (gp_acc p) (gp_suspect p) (gp_speed p), lu_time = gp_time p\<rparr>"

text \<open>From the reference on: speed, storage, window, broadcast and acknowledgement. The row stored has
the values of the position, so the broadcast is written from it.\<close>

definition storeLive :: "gate_env \<Rightarrow> nat \<Rightarrow> ws_user \<Rightarrow> track_driver \<Rightarrow> position_dto \<Rightarrow> gstate \<Rightarrow> gstate" where
  "storeLive ev c u dr dto g =
     (let v = po_vehicle dto;
          late = isLate dto (gw_t g);
          speed = liveSpeed (gw_windows g v) dto (gw_t g);
          (row, t) = savePosition (Some (td_id dr)) (dto\<lparr>po_speed := Some speed\<rparr>) (Some (wu_company u)) Phone (gw_t g);
          g1 = g\<lparr>gw_t := t\<rparr>
      in case row of
           None \<Rightarrow> answer c (PositionRejected RejectedRow) g1
         | Some p \<Rightarrow>
             (let g2 = (if \<not> late \<and> \<not> gp_suspect p
                        then g1\<lparr>gw_windows := (gw_windows g)(v := slideWindow dto (gw_windows g v))\<rparr> else g1)
              in if late then g2
                 else
                   (let msg = PositionUpdate
                          (updateOf (td_id dr) (getDisplayPosition (ge_motion ev) v (Some speed) (gp_suspect p) t) p);
                        g3 = (case given (po_delivery dto) of Some d \<Rightarrow> emitTo (DeliveryRoom d) msg g2 | None \<Rightarrow> g2)
                    in answer c (PositionSaved (gp_suspect p)) (emitTo (CompanyRoom (wu_company u)) msg g3))))"

definition handlePosition :: "gate_env \<Rightarrow> nat \<Rightarrow> ws_user \<Rightarrow> raw_position \<Rightarrow> gstate \<Rightarrow> gstate" where
  "handlePosition ev c u raw g =
     (if wu_role u \<noteq> DriverRole then g
      else
        (case validateUpdate (ge_uuid ev) (ts_now (gw_t g)) raw of
           Inl bad \<Rightarrow> answer c (PositionRejected InvalidPayload) g
         | Inr dto \<Rightarrow>
             (let (limited, t) = isRateLimited (ge_rateMs ev) (wu_id u) (gw_t g); g1 = g\<lparr>gw_t := t\<rparr> in
              if limited then answer c (PositionRejected RateLimited) g1
              else if (case given (po_delivery dto) of
                         Some d \<Rightarrow> \<not> verifyDriverAssignment d (wu_id u) t | None \<Rightarrow> False)
              then answer c (PositionRejected NotAssigned) g1
              else
                (case findDriverByUserId (wu_id u) t of
                   None \<Rightarrow> g1
                 | Some dr \<Rightarrow>
                     if \<not> assertVehicleOwnership (po_vehicle dto) (wu_company u) t
                     then answer c (PositionRejected VehicleMismatch) g1
                     else storeLive ev c u dr dto g1))))"

subsection \<open>A batch\<close>

definition newestSaved :: "gps_position list \<Rightarrow> ident \<Rightarrow> gps_position option" where
  "newestSaved saved v = newest (\<lambda>p. gp_vehicle p = v) saved"

definition batchUpdates ::
    "(gps_position \<Rightarrow> bool option) \<Rightarrow> ident \<Rightarrow> gps_position list \<Rightarrow> tstate \<Rightarrow> live_update list" where
  "batchUpdates motion driver saved s =
     map (\<lambda>p. updateOf driver
            (if newestSaved saved (gp_vehicle p) = Some p
             then getDisplayPosition motion (gp_vehicle p) (gp_speed p) (gp_suspect p) s else None) p) saved"

definition firstOnes :: "'a list \<Rightarrow> 'a list" where
  "firstOnes xs = rev (remdups (rev xs))"

definition batchRooms :: "ident \<Rightarrow> gps_position list \<Rightarrow> room list" where
  "batchRooms company saved =
     firstOnes (map DeliveryRoom (List.map_filter (\<lambda>p. given (gp_delivery p)) saved) @ [CompanyRoom company])"

definition handleBatchPosition ::
    "gate_env \<Rightarrow> nat \<Rightarrow> ws_user \<Rightarrow> string option \<Rightarrow> raw_position list option \<Rightarrow> gstate \<Rightarrow> gstate" where
  "handleBatchPosition ev c u batch raws g =
     (if wu_role u \<noteq> DriverRole then g
      else
        (let (res, t) = validateAndSaveBatch (ge_uuid ev) (ge_batchMax ev) (wu_id u) (wu_company u) raws (gw_t g);
             g1 = g\<lparr>gw_t := t\<rparr>
         in case res of
              BatchRateLimited \<Rightarrow> answer c (PositionsRejected RateLimited batch) g1
            | BatchNoDriver \<Rightarrow> answer c (PositionsRejected NoDriver batch) g1
            | BatchEmpty \<Rightarrow> answer c (PositionsSaved 0 batch) g1
            | BatchOk saved validated driver rejected \<Rightarrow>
                (let g2 = (if rejected = [] then g1 else answer c (PositionsInvalid batch rejected) g1) in
                 if validated = 0 then answer c (PositionsSaved 0 batch) g2
                 else answer c (PositionsSaved (length saved) batch)
                        (fold (\<lambda>r. emitTo r (BatchPositionUpdate (batchUpdates (ge_motion ev) driver saved t)))
                          (batchRooms (wu_company u) saved) g2))))"

datatype native_answer = TooManyRequests | Unprocessable | NativeOk nat nat "(nat \<times> position_field list) list"

definition saveNativeBatch ::
    "gate_env \<Rightarrow> ident \<Rightarrow> ident \<Rightarrow> raw_position list option \<Rightarrow> tstate \<Rightarrow> native_answer \<times> tstate" where
  "saveNativeBatch ev user company raws s =
     (let (res, t) = validateAndSaveBatch (ge_uuid ev) (ge_batchMax ev) user company raws s in
      (case res of
         BatchRateLimited \<Rightarrow> TooManyRequests
       | BatchEmpty \<Rightarrow> NativeOk 0 0 []
       | BatchNoDriver \<Rightarrow> Unprocessable
       | BatchOk saved validated driver rejected \<Rightarrow> NativeOk (length saved) (validated - length saved) rejected, t))"

subsection \<open>Snooze and subscriptions\<close>

definition handleSnooze :: "ws_user \<Rightarrow> ident option \<Rightarrow> real option \<Rightarrow> gstate \<Rightarrow> gstate" where
  "handleSnooze u delivery level g =
     (if wu_role u \<noteq> DriverRole then g
      else case given delivery of
        None \<Rightarrow> g
      | Some d \<Rightarrow>
          if \<not> verifyDriverAssignment d (wu_id u) (gw_t g) then g
          else (case Option.bind (findDriverByUserId (wu_id u) (gw_t g)) (\<lambda>r. given (td_vehicle r)) of
                  None \<Rightarrow> g
                | Some v \<Rightarrow>
                    g\<lparr>gw_t := snoozeProximity d v
                        (case level of Some x \<Rightarrow> if 0 \<le> x then nat \<lfloor>x\<rfloor> else 0 | None \<Rightarrow> 0) (gw_t g)\<rparr>))"

definition getDeliveryInfo :: "ident \<Rightarrow> ident \<Rightarrow> tstate \<Rightarrow> delivery option" where
  "getDeliveryInfo delivery company s =
     map_option snd (find (\<lambda>(i, d). i = delivery \<and> companyId d = company) (ts_deliveries s))"

definition handleSubscribeToDelivery :: "nat \<Rightarrow> ws_user \<Rightarrow> ident \<Rightarrow> gstate \<Rightarrow> gstate" where
  "handleSubscribeToDelivery c u delivery g =
     (if wu_role u = DriverRole then g
      else if delivery = [] then answer c WsError g
      else if getDeliveryInfo delivery (wu_company u) (gw_t g) = None then answer c WsError g
      else answer c (Subscribed (DeliveryRoom delivery)) (joinRoom c (DeliveryRoom delivery) g))"

definition handleUnsubscribeFromDelivery :: "nat \<Rightarrow> ws_user \<Rightarrow> ident \<Rightarrow> gstate \<Rightarrow> gstate" where
  "handleUnsubscribeFromDelivery c u delivery g =
     (if wu_role u = DriverRole then g
      else answer c (Unsubscribed (DeliveryRoom delivery)) (leaveRoom c (DeliveryRoom delivery) g))"

definition handleSubscribeToCompany :: "nat \<Rightarrow> ws_user \<Rightarrow> gstate \<Rightarrow> gstate" where
  "handleSubscribeToCompany c u g =
     (if wu_role u = DriverRole then g
      else answer c (Subscribed (CompanyRoom (wu_company u))) (joinRoom c (CompanyRoom (wu_company u)) g))"

definition handleUnsubscribeFromCompany :: "nat \<Rightarrow> ws_user \<Rightarrow> gstate \<Rightarrow> gstate" where
  "handleUnsubscribeFromCompany c u g =
     (if wu_role u = DriverRole then g
      else answer c (Unsubscribed (CompanyRoom (wu_company u))) (leaveRoom c (CompanyRoom (wu_company u)) g))"

subsection \<open>The gateway as a whole\<close>

datatype ws_message =
  UpdatePosition raw_position
| BatchPosition "string option" "raw_position list option"
| SnoozeProximityAlert "ident option" "real option"
| SubscribeToDelivery ident
| UnsubscribeFromDelivery ident
| SubscribeToCompany
| UnsubscribeFromCompany

datatype gate_event =
  Connected nat "ws_user option"
| Disconnected nat
| Message nat "ws_user option" ws_message
| CleanupTick
| BusEvent "ident option" "ident option" string

fun dispatchMessage :: "gate_env \<Rightarrow> nat \<Rightarrow> ws_user \<Rightarrow> ws_message \<Rightarrow> gstate \<Rightarrow> gstate" where
  "dispatchMessage ev c u (UpdatePosition raw) = handlePosition ev c u raw"
| "dispatchMessage ev c u (BatchPosition batch raws) = handleBatchPosition ev c u batch raws"
| "dispatchMessage ev c u (SnoozeProximityAlert d l) = handleSnooze u d l"
| "dispatchMessage ev c u (SubscribeToDelivery d) = handleSubscribeToDelivery c u d"
| "dispatchMessage ev c u (UnsubscribeFromDelivery d) = handleUnsubscribeFromDelivery c u d"
| "dispatchMessage ev c u SubscribeToCompany = handleSubscribeToCompany c u"
| "dispatchMessage ev c u UnsubscribeFromCompany = handleUnsubscribeFromCompany c u"

text \<open>The guard runs before each handler; its refusal is answered by the exception filter.\<close>

fun gateStep :: "gate_env \<Rightarrow> gate_event \<Rightarrow> gstate \<Rightarrow> gstate" where
  "gateStep ev (Connected c verified) g = handleConnection c verified g"
| "gateStep ev (Disconnected c) g = handleDisconnect c g"
| "gateStep ev (Message c None m) g = answer c WsError g"
| "gateStep ev (Message c (Some u) m) g = dispatchMessage ev c u m (g\<lparr>gw_user := (gw_user g)(c \<mapsto> u)\<rparr>)"
| "gateStep ev CleanupTick g = driverCleanup g"
| "gateStep ev (BusEvent target company entity) g = dataUpdateListener target company entity g"

definition gateRun :: "gate_env \<Rightarrow> (ms \<times> gate_event) list \<Rightarrow> gstate \<Rightarrow> gstate" where
  "gateRun ev es g = fold (\<lambda>(t, e) g. gateStep ev e (g\<lparr>gw_t := (gw_t g)\<lparr>ts_now := t\<rparr>\<rparr>)) es g"

end
