(* ===== verification/Tracking_GatewayLaws.thy ===== *)
theory Tracking_GatewayLaws
  imports Tracking_Gateway Tracking_Admission
begin

text \<open>
  What the gateway promises to the phone (every answer tells the truth about the table) and to the
  map (a reload shows what was broadcast, a company sees its own vehicles only), and where it does
  not keep a promise of its comments.
\<close>

subsection \<open>The outcomes of a live position\<close>

definition sameRefs :: "tstate \<Rightarrow> tstate \<Rightarrow> bool" where
  "sameRefs s s' \<longleftrightarrow> ts_vehicles s' = ts_vehicles s \<and> ts_drivers s' = ts_drivers s
     \<and> ts_deliveries s' = ts_deliveries s"

lemma sameRefs_refl [simp]: "sameRefs s s"
  by (simp add: sameRefs_def)

lemma sameRefs_trans: "sameRefs s t \<Longrightarrow> sameRefs t u \<Longrightarrow> sameRefs s u"
  by (simp add: sameRefs_def)

lemma sameTables_refs: "sameTables s s' \<Longrightarrow> sameRefs s s'"
  by (simp add: sameTables_def sameRefs_def)

definition savedAs :: "tstate \<Rightarrow> gps_position option \<Rightarrow> tstate \<Rightarrow> bool" where
  "savedAs s row s' \<longleftrightarrow> sameRefs s s' \<and> ts_positions s' = ts_positions s @ (case row of None \<Rightarrow> [] | Some p \<Rightarrow> [p])
     \<and> (\<forall>p. row = Some p \<longrightarrow> gpKey p \<notin> gpKey ` set (ts_positions s))"

lemma savedAs_none: "sameTables s s' \<Longrightarrow> savedAs s None s'"
  by (simp add: savedAs_def sameTables_def sameRefs_def)

lemma savePosition_cases:
  assumes "savePosition driver dto company src s0 = (row, s')"
  shows "savedAs s0 row s'"
    and "row = Some p \<Longrightarrow> (\<exists>v susp. find (\<lambda>v. tv_id v = po_vehicle dto \<and> \<not> tv_deleted v \<and> tv_active v) (ts_vehicles s0) = Some v
      \<and> (given company = None \<or> company = Some (tv_company v))
      \<and> p = rowOf driver dto (nullish (given company) (tv_company v)) src susp)"
proof -
  let ?s = "updMetrics (\<lambda>m. m\<lparr>m_received := Suc (m_received m)\<rparr>) s0"
  let ?veh = "find (\<lambda>v. tv_id v = po_vehicle dto \<and> \<not> tv_deleted v \<and> tv_active v) (ts_vehicles s0)"
  have same: "sameTables s0 (updMetrics f (updMetrics h s0))" "sameTables s0 (updMetrics h s0)"
    "sameTables s0 (updMetrics k (updMetrics f (updMetrics h s0)))" for f h k
    using sameTables_trans [OF sameTables_updates(5) sameTables_updates(5)]
      sameTables_trans [OF sameTables_trans [OF sameTables_updates(5) sameTables_updates(5)] sameTables_updates(5)] by simp_all
  have "savedAs s0 row s' \<and> (row = None \<or> (\<exists>v susp. ?veh = Some v \<and> (given company = None \<or> company = Some (tv_company v))
      \<and> row = Some (rowOf driver dto (nullish (given company) (tv_company v)) src susp)))"
  proof (cases "?veh")
    case None
    with assms same(2) show ?thesis by (auto simp: savePosition_def Let_def intro!: savedAs_none split: if_splits)
  next
    case (Some v)
    define susp where "susp = detectTeleportation (po_lat dto) (po_lng dto) (po_time dto) (po_vehicle dto) (po_acc dto) src (po_speed dto) ?s"
    define s1 where "s1 = (if susp then updMetrics (\<lambda>m. m\<lparr>m_teleported := Suc (m_teleported m)\<rparr>) ?s else ?s)"
    define g where "g = rowOf driver dto (nullish (given company) (tv_company v)) src susp"
    have s1: "sameTables s0 s1" using same by (simp add: s1_def)
    show ?thesis
    proof (cases "shortId (po_vehicle dto) \<or> (\<exists>d. po_delivery dto = Some d \<and> shortId d)
        \<or> given company \<noteq> None \<and> company \<noteq> Some (tv_company v) \<or> src = Phone \<and> tv_source v = PhysicalTracker
        \<or> isDuplicateByTimestamp (po_vehicle dto) (po_delivery dto) (po_time dto) ?s \<or> insertPosition g s1 = None")
      case True
      with assms Some same(1,2) sameTables_trans [OF s1 sameTables_updates(5)] show ?thesis
        by (auto simp: savePosition_def Let_def susp_def s1_def g_def intro!: savedAs_none split: if_splits)
    next
      case False
      then obtain s2 where s2: "insertPosition g s1 = Some s2" by blast
      define s3 where "s3 = updMetrics (\<lambda>m. m\<lparr>m_saved := Suc (m_saved m)\<rparr>) s2"
      define s4 where "s4 = (if m_received (ts_metrics s3) mod 100 = 0 then updMetrics logMetrics s3 else s3)"
      have res: "savePosition driver dto company src s0
          = (Some g, afterSave driver dto company susp (getLastPosition (po_vehicle dto) False s1) s4)"
        using False Some unfolding savePosition_def Let_def updMetrics_tables Some option.case susp_def [symmetric]
        unfolding s1_def [symmetric] g_def [symmetric]
        unfolding s2 option.case s3_def [symmetric] s4_def [symmetric] by (cases "tv_source v") auto
      have "sameTables s2 s4" unfolding s4_def s3_def
        using sameTables_trans [OF sameTables_updates(5) sameTables_updates(5)] by simp
      then have "sameTables s2 s'" using res assms by (auto intro: sameTables_trans)
      moreover have "ts_positions s2 = ts_positions s0 @ [g]" "gpKey g \<notin> gpKey ` set (ts_positions s0)" "sameRefs s0 s2"
        using s2 s1 by (auto simp: insertPosition_Some sameTables_def sameRefs_def)
      moreover have "given company = None \<or> company = Some (tv_company v)" using False by blast
      ultimately show ?thesis
        using res assms Some by (auto simp: savedAs_def sameTables_def sameRefs_def g_def)
    qed
  qed
  then show "savedAs s0 row s'"
    and "row = Some p \<Longrightarrow> (\<exists>v susp. ?veh = Some v
      \<and> (given company = None \<or> company = Some (tv_company v))
      \<and> p = rowOf driver dto (nullish (given company) (tv_company v)) src susp)"
    by auto
qed

subsection \<open>The steps of the gateway\<close>

lemma emitTo_simps [simp, frame_simps]:
  "gw_t (emitTo r e g) = gw_t g" "gw_answers (emitTo r e g) = gw_answers g" "gw_rooms (emitTo r e g) = gw_rooms g"
  "gw_sent (emitTo r e g) = gw_sent g @ [(r, members r g, e)]" "members q (emitTo r e g) = members q g"
  by (simp_all add: emitTo_def members_def)

lemma answer_simps [simp, frame_simps]:
  "gw_t (answer c a g) = gw_t g" "gw_answers (answer c a g) = gw_answers g @ [(c, a)]"
  "gw_rooms (answer c a g) = gw_rooms g" "gw_sent (answer c a g) = gw_sent g" "members q (answer c a g) = members q g"
  by (simp_all add: answer_def members_def)

lemma gw_update_members [simp]:
  "members q (g\<lparr>gw_t := t\<rparr>) = members q g" "members q (g\<lparr>gw_windows := w\<rparr>) = members q g"
  "members q (g\<lparr>gw_user := uu\<rparr>) = members q g" "members q (g\<lparr>gw_gone := gg\<rparr>) = members q g"
  by (simp_all add: members_def)

lemma isRateLimited_tables: "isRateLimited ttl d s = (l, s') \<Longrightarrow> sameTables s s'"
  by (auto simp: isRateLimited_def sameTables_def split: if_splits option.splits)

text \<open>What a handler adds, seen from outside: rows, answers to the socket and emissions.\<close>

definition liveOutcome :: "nat \<Rightarrow> gstate \<Rightarrow> gps_position list \<Rightarrow> gate_answer list \<Rightarrow> (room \<times> nat list \<times> emission) list \<Rightarrow> gstate \<Rightarrow> bool" where
  "liveOutcome c g new as out g' \<longleftrightarrow>
     ts_positions (gw_t g') = ts_positions (gw_t g) @ new \<and> gw_answers g' = gw_answers g @ map (Pair c) as
     \<and> gw_sent g' = gw_sent g @ out \<and> gw_rooms g' = gw_rooms g \<and> sameRefs (gw_t g) (gw_t g')"

lemma liveOutcome_same: "sameTables (gw_t g) t \<Longrightarrow> liveOutcome c g [] [a] [] (answer c a (g\<lparr>gw_t := t\<rparr>))"
  by (simp add: liveOutcome_def sameTables_def sameRefs_def)

definition liveRooms :: "ws_user \<Rightarrow> position_dto \<Rightarrow> room list" where
  "liveRooms u dto = (case given (po_delivery dto) of Some d \<Rightarrow> [DeliveryRoom d] | None \<Rightarrow> []) @ [CompanyRoom (wu_company u)]"

definition liveMessage :: "gate_env \<Rightarrow> track_driver \<Rightarrow> gps_position \<Rightarrow> tstate \<Rightarrow> emission" where
  "liveMessage ev dr p t =
     PositionUpdate (updateOf (td_id dr) (getDisplayPosition (ge_motion ev) (gp_vehicle p) (gp_speed p) (gp_suspect p) t) p)"

lemma storeLive_outcome:
  fixes g c u dr dto ev
  defines "speed \<equiv> liveSpeed (gw_windows g (po_vehicle dto)) dto (gw_t g)"
  shows "liveOutcome c g [] [PositionRejected RejectedRow] [] (storeLive ev c u dr dto g)
    \<or> (\<exists>p t. savePosition (Some (td_id dr)) (dto\<lparr>po_speed := Some speed\<rparr>) (Some (wu_company u)) Phone (gw_t g) = (Some p, t)
         \<and> gw_t (storeLive ev c u dr dto g) = t
         \<and> (isLate dto (gw_t g) \<longrightarrow> liveOutcome c g [p] [] [] (storeLive ev c u dr dto g))
         \<and> (\<not> isLate dto (gw_t g) \<longrightarrow> liveOutcome c g [p] [PositionSaved (gp_suspect p)]
              (map (\<lambda>r. (r, members r g, liveMessage ev dr p t)) (liveRooms u dto)) (storeLive ev c u dr dto g)))"
proof -
  obtain row t where sv: "savePosition (Some (td_id dr)) (dto\<lparr>po_speed := Some speed\<rparr>) (Some (wu_company u)) Phone (gw_t g) = (row, t)"
    by fastforce
  note saved = savePosition_cases(1) [OF sv]
  show ?thesis
  proof (cases row)
    case None
    with sv saved have "liveOutcome c g [] [PositionRejected RejectedRow] [] (storeLive ev c u dr dto g)"
      by (simp add: storeLive_def Let_def speed_def liveOutcome_def savedAs_def)
    then show ?thesis by blast
  next
    case (Some p)
    from savePosition_cases(2) [OF sv Some] have "gp_vehicle p = po_vehicle dto" "gp_speed p = Some speed"
      by (auto simp: rowOf_def)
    with Some sv saved show ?thesis
      unfolding speed_def
      by (intro disjI2 exI [of _ p] exI [of _ t])
        (simp add: storeLive_def Let_def liveOutcome_def savedAs_def liveMessage_def liveRooms_def split: option.split)
  qed
qed

lemma liveOutcome_from:
  assumes "sameTables (gw_t g) t" and "liveOutcome c (g\<lparr>gw_t := t\<rparr>) new as out g'"
  shows "liveOutcome c g new as out g'"
  using assms by (simp add: liveOutcome_def sameTables_def sameRefs_def)

lemma isLate_tables: "sameTables s t \<Longrightarrow> isLate dto t = isLate dto s"
  by (simp add: isLate_def getLastPosition_def sameTables_def)

lemma handlePosition_outcome:
  assumes "wu_role u = DriverRole"
  shows "(\<exists>r. liveOutcome c g [] [PositionRejected r] [] (handlePosition ev c u raw g)
        \<and> (r = InvalidPayload \<longrightarrow> (\<exists>bad. validateUpdate (ge_uuid ev) (ts_now (gw_t g)) raw = Inl bad)))
    \<or> findDriverByUserId (wu_id u) (gw_t g) = None \<and> liveOutcome c g [] [] [] (handlePosition ev c u raw g)
    \<or> (\<exists>dto t1 dr. validateUpdate (ge_uuid ev) (ts_now (gw_t g)) raw = Inr dto \<and> sameTables (gw_t g) t1
         \<and> (\<forall>d. given (po_delivery dto) = Some d \<longrightarrow> verifyDriverAssignment d (wu_id u) t1)
         \<and> findDriverByUserId (wu_id u) t1 = Some dr \<and> assertVehicleOwnership (po_vehicle dto) (wu_company u) t1
         \<and> handlePosition ev c u raw g = storeLive ev c u dr dto (g\<lparr>gw_t := t1\<rparr>))"
proof (cases "validateUpdate (ge_uuid ev) (ts_now (gw_t g)) raw")
  case (Inl bad)
  then have "handlePosition ev c u raw g = answer c (PositionRejected InvalidPayload) g"
    using assms by (simp add: handlePosition_def)
  then show ?thesis using Inl by (simp add: liveOutcome_def)
next
  case (Inr dto)
  obtain l t1 where rate: "isRateLimited (ge_rateMs ev) (wu_id u) (gw_t g) = (l, t1)" by fastforce
  note t1 = isRateLimited_tables [OF rate]
  let ?g = "g\<lparr>gw_t := t1\<rparr>"
  have rej: "\<exists>r. liveOutcome c g [] [PositionRejected r] [] (handlePosition ev c u raw g)
        \<and> (r = InvalidPayload \<longrightarrow> (\<exists>bad. validateUpdate (ge_uuid ev) (ts_now (gw_t g)) raw = Inl bad))"
    if "\<exists>r. r \<noteq> InvalidPayload \<and> handlePosition ev c u raw g = answer c (PositionRejected r) ?g"
    using liveOutcome_same [OF t1] that by fastforce
  show ?thesis
  proof (cases "l \<or> (case given (po_delivery dto) of Some d \<Rightarrow> \<not> verifyDriverAssignment d (wu_id u) t1 | None \<Rightarrow> False)")
    case True
    with Inr rate assms show ?thesis by (intro disjI1 rej) (auto simp: handlePosition_def Let_def split: if_splits)
  next
    case ok: False
    show ?thesis
    proof (cases "findDriverByUserId (wu_id u) t1")
      case None
      then have "handlePosition ev c u raw g = ?g" using ok Inr rate assms by (auto simp: handlePosition_def Let_def)
      moreover have "findDriverByUserId (wu_id u) (gw_t g) = None"
        using None t1 by (simp add: findDriverByUserId_def sameTables_def)
      ultimately show ?thesis using t1 by (simp add: liveOutcome_def sameTables_def sameRefs_def)
    next
      case (Some dr)
      show ?thesis
      proof (cases "assertVehicleOwnership (po_vehicle dto) (wu_company u) t1")
        case False
        with ok Some Inr rate assms show ?thesis by (intro disjI1 rej) (auto simp: handlePosition_def Let_def)
      next
        case True
        with ok Some Inr rate assms have "handlePosition ev c u raw g = storeLive ev c u dr dto ?g"
          by (auto simp: handlePosition_def Let_def)
        with True ok Some Inr t1 show ?thesis by (intro disjI2 exI [of _ dto] exI [of _ t1] exI [of _ dr]) auto
      qed
    qed
  qed
qed

text \<open>C16. What the phone is told about a live position is the truth: positionSaved means that exactly one
row was added, positionRejected that none was; the two never come together. No answer at all comes
only when the account has no driver profile, or when the position was stored but is older than the
last reliable one: that fix is kept and the phone is left to its timeout.\<close>

theorem live_answer_is_truthful:
  assumes "wu_role u = DriverRole"
  shows "\<exists>new as. ts_positions (gw_t (handlePosition ev c u raw g)) = ts_positions (gw_t g) @ new
       \<and> gw_answers (handlePosition ev c u raw g) = gw_answers g @ map (Pair c) as
       \<and> ((\<exists>p. as = [PositionSaved (gp_suspect p)] \<and> new = [p])
        \<or> (\<exists>r. as = [PositionRejected r] \<and> new = [])
        \<or> as = [] \<and> new = [] \<and> findDriverByUserId (wu_id u) (gw_t g) = None
        \<or> (\<exists>dto p. as = [] \<and> new = [p] \<and> validateUpdate (ge_uuid ev) (ts_now (gw_t g)) raw = Inr dto
             \<and> isLate dto (gw_t g)))"
  using handlePosition_outcome [OF assms, of c g ev raw]
proof (elim disjE exE conjE)
  fix dto t1 dr
  let ?g = "g\<lparr>gw_t := t1\<rparr>" and ?s = "storeLive ev c u dr dto (g\<lparr>gw_t := t1\<rparr>)"
  assume t1: "sameTables (gw_t g) t1" and eq: "handlePosition ev c u raw g = ?s"
    and valid: "validateUpdate (ge_uuid ev) (ts_now (gw_t g)) raw = Inr dto"
  have late: "isLate dto t1 = isLate dto (gw_t g)" using isLate_tables [OF t1] .
  consider "liveOutcome c ?g [] [PositionRejected RejectedRow] [] ?s"
    | p where "isLate dto (gw_t g)" "liveOutcome c ?g [p] [] [] ?s"
    | p out where "liveOutcome c ?g [p] [PositionSaved (gp_suspect p)] out ?s"
    using storeLive_outcome [of c ?g ev u dr dto] late by fastforce
  then show ?thesis
  proof cases
    case 1
    from liveOutcome_from [OF t1 1] show ?thesis
      by (intro exI [of _ "[]"] exI [of _ "[PositionRejected RejectedRow]"]) (simp add: liveOutcome_def eq)
  next
    case (2 p)
    from liveOutcome_from [OF t1 2(2)] 2(1) valid show ?thesis
      by (intro exI [of _ "[p]"] exI [of _ "[]"]) (simp add: liveOutcome_def eq)
  next
    case (3 p out)
    from liveOutcome_from [OF t1 3] show ?thesis
      by (intro exI [of _ "[p]"] exI [of _ "[PositionSaved (gp_suspect p)]"]) (simp add: liveOutcome_def eq)
  qed
next
  fix r
  assume "liveOutcome c g [] [PositionRejected r] [] (handlePosition ev c u raw g)"
  then show ?thesis
    by (intro exI [of _ "[]"] exI [of _ "[PositionRejected r]"]) (simp add: liveOutcome_def)
next
  assume "findDriverByUserId (wu_id u) (gw_t g) = None" "liveOutcome c g [] [] [] (handlePosition ev c u raw g)"
  then show ?thesis
    by (intro exI [of _ "[]"] exI [of _ "[]"]) (simp add: liveOutcome_def)
qed

definition gateOf :: "tstate \<Rightarrow> gstate" where
  "gateOf t = \<lparr>gw_t = t, gw_windows = (\<lambda>v. []), gw_user = Map.empty, gw_rooms = [], gw_gone = Map.empty,
     gw_answers = [], gw_sent = []\<rparr>"

definition openGate :: gate_env where
  "openGate = \<lparr>ge_uuid = (\<lambda>i. True), ge_rateMs = 0, ge_batchMax = 0, ge_motion = (\<lambda>g. None)\<rparr>"

definition wheel :: ws_user where "wheel = \<lparr>wu_id = ''usr'', wu_role = DriverRole, wu_company = acmeId\<rparr>"

definition rawAt :: "ms \<Rightarrow> raw_position" where
  "rawAt t = \<lparr>rp_lat = Fin 0, rp_lng = Fin 0, rp_speed = Some (Fin 5), rp_heading = None, rp_altitude = None,
     rp_acc = Some (Fin 10), rp_time = Some t, rp_iso = True, rp_delivery = Some jobId, rp_vehicle = Some vanId\<rparr>"

lemma wheel_simps [simp]: "wu_id wheel = ''usr''" "wu_role wheel = DriverRole" "wu_company wheel = acmeId"
  by (simp_all add: wheel_def)

lemma rawAt_valid: "\<bar>t\<bar> \<le> 100000 \<Longrightarrow> validateUpdate (ge_uuid openGate) 0 (rawAt t) = Inr (fixAt t 5)"
  by (simp add: validateUpdate_def invalidFields_def clampFutureTimestamp_def rawAt_def openGate_def dtoOfRaw_def numberIn_def
      optionalIn_def isPlausibleTimestamp_def FUTURE_TOLERANCE_MS_def PAST_TOLERANCE_MS_def fixAt_def)

lemma gateOf_simps [simp]:
  "gw_t (gateOf t) = t" "gw_answers (gateOf t) = []" "gw_sent (gateOf t) = []" "gw_rooms (gateOf t) = []"
  "(gateOf t)\<lparr>gw_t := x\<rparr> = gateOf x"
  by (simp_all add: gateOf_def)

definition vanDriver :: track_driver where
  "vanDriver = \<lparr>td_id = ''drv'', td_user = Some ''usr'', td_active = True, td_deleted = False, td_vehicle = Some vanId\<rparr>"

lemma fleet_driver: "findDriverByUserId ''usr'' (fleetWith gs) = Some vanDriver"
  by (simp add: findDriverByUserId_def fleet_def vanDriver_def)

lemma rawAt_handled:
  assumes "\<bar>t\<bar> \<le> 100000" and "gw_t g = fleetWith gs"
  shows "handlePosition openGate c wheel (rawAt t) g = storeLive openGate c wheel vanDriver (fixAt t 5) g"
proof -
  have g: "g\<lparr>gw_t := fleetWith gs\<rparr> = g" using assms(2) by simp
  have "handlePosition openGate c wheel (rawAt t) g = storeLive openGate c wheel vanDriver (fixAt t 5) (g\<lparr>gw_t := fleetWith gs\<rparr>)"
    using rawAt_valid [OF assms(1)] assms(2)
    by (simp add: handlePosition_def wheel_def isRateLimited_def openGate_def verifyDriverAssignment_def fleet_driver
        fleetJob_def assertVehicleOwnership_def given_def jobId_def)
  then show ?thesis unfolding g .
qed

lemma late_fix_run:
  "\<exists>p. gw_answers (handlePosition openGate c wheel (rawAt 30000) (gateOf (fleetWith [storedAt 60000 5]))) = []
     \<and> ts_positions (gw_t (handlePosition openGate c wheel (rawAt 30000) (gateOf (fleetWith [storedAt 60000 5]))))
         = [storedAt 60000 5, p] \<and> gp_time p = 30000"
proof -
  let ?s = "fleetWith [storedAt 60000 5]" and ?dto = "fixAt 30000 5"
  have dr: "handlePosition openGate c wheel (rawAt 30000) (gateOf ?s) = storeLive openGate c wheel vanDriver ?dto (gateOf ?s)"
    by (rule rawAt_handled) simp_all
  have late: "isLate ?dto ?s"
    by (simp add: isLate_def getLastPosition_def newest_def storedAt_def)
  define dto where "dto = ?dto\<lparr>po_speed := Some (liveSpeed [] ?dto ?s)\<rparr>"
  have "fst (savePosition (Some (td_id vanDriver)) dto (Some acmeId) Phone ?s) \<noteq> None"
    by (subst savePosition_saved(1) [where v = van])
      (simp_all add: dto_def isDuplicateByTimestamp_def newest_def DEDUP_CLOCK_SKEW_S_def Let_def gpKey_def)
  then obtain p t where sv: "savePosition (Some (td_id vanDriver)) dto (Some acmeId) Phone ?s = (Some p, t)"
    by (cases "savePosition (Some (td_id vanDriver)) dto (Some acmeId) Phone ?s") auto
  have "storeLive openGate c wheel vanDriver ?dto (gateOf ?s) = gateOf t"
    using sv late by (simp add: storeLive_def Let_def wheel_def dto_def gateOf_def)
  moreover have "ts_positions t = [storedAt 60000 5, p]" using savePosition_cases(1) [OF sv] by (simp add: savedAs_def)
  moreover have "gp_time p = 30000" using savePosition_cases(2) [OF sv refl] by (auto simp: rowOf_def dto_def)
  ultimately show ?thesis using dr by simp
qed

theorem live_answer_is_truthful_witness:
  "\<exists>new. ts_positions (gw_t (handlePosition openGate 7 wheel (rawAt 30000) (gateOf (fleetWith [storedAt 60000 5]))))
       = [storedAt 60000 5] @ new \<and> length new = 1
     \<and> gw_answers (handlePosition openGate 7 wheel (rawAt 30000) (gateOf (fleetWith [storedAt 60000 5]))) = []"
proof -
  have "wu_role wheel = DriverRole" by (simp add: wheel_def)
  from live_answer_is_truthful [OF this, of openGate 7 "rawAt 30000" "gateOf (fleetWith [storedAt 60000 5])"]
  show ?thesis using late_fix_run [of 7] fleet_driver [of "[storedAt 60000 5]"]
    by (auto simp: wheel_def)
qed

text \<open>The phone is never told about a late fix: a driver sends a position, and then one taken before
it; the second is stored, and the gateway answers nothing, neither positionSaved nor positionRejected.\<close>

theorem late_fix_is_stored_without_answer:
  "\<exists>p. gw_answers (handlePosition openGate c wheel (rawAt 30000) (gateOf (fleetWith [storedAt 60000 5]))) = []
     \<and> ts_positions (gw_t (handlePosition openGate c wheel (rawAt 30000) (gateOf (fleetWith [storedAt 60000 5]))))
         = [storedAt 60000 5, p] \<and> gp_time p = 30000"
  by (rule late_fix_run)

end
