(* ===== verification/Tracking_Feed.thy ===== *)
theory Tracking_Feed
  imports Tracking_GatewayLaws
begin

text \<open>
  The feed of the map: what a reload shows against what was broadcast, and who is in the rooms.
\<close>

subsection \<open>A reload shows what was broadcast\<close>

lemma sorted_last_max:
  assumes "sorted (map f xs)" and "x \<in> set xs"
  shows "f x \<le> f (last xs)"
  using assms by (induction xs) (auto simp: last_in_set)

lemma lastN_last: "0 < n \<Longrightarrow> xs \<noteq> [] \<Longrightarrow> lastN n xs \<noteq> [] \<and> last (lastN n xs) = last xs"
  by (cases xs) (simp_all add: lastN_def last_drop)

lemma lastN_sorted: "sorted (map f xs) \<Longrightarrow> sorted (map f (lastN n xs))"
  by (simp add: lastN_def drop_map [symmetric] sorted_wrt_drop)

lemma key_unique:
  "distinct (map gpKey ps) \<Longrightarrow> p \<in> set ps \<Longrightarrow> q \<in> set ps \<Longrightarrow> gp_vehicle p = gp_vehicle q
     \<Longrightarrow> gp_time p = gp_time q \<Longrightarrow> p = q"
  using inj_onD [of gpKey "set ps" p q] by (simp add: distinct_map gpKey_def)

lemma moving_has_no_anchor:
  assumes "distinct (map gpKey (ts_positions s))" and "getLastPosition v True s = Some p"
    and "gp_speed p = Some x" and "1 / 2 \<le> x"
  shows "computeAnchorByVehicle motion [v] s v = None"
proof -
  let ?rows = "sort_key gp_time (filter (recentRow v s) (ts_positions s))"
  let ?fs = "map (anchorFixOf motion) (lastN PER_VEHICLE_ANCHOR_FIXES ?rows)"
  have p: "p \<in> set (ts_positions s)" "gp_vehicle p = v" "\<not> gp_suspect p"
    "\<And>h. h \<in> set (ts_positions s) \<Longrightarrow> gp_vehicle h = v \<Longrightarrow> \<not> gp_suspect h \<Longrightarrow> gp_time h \<le> gp_time p"
    using assms(2) unfolding getLastPosition_def by (auto dest: newest_spec)
  show ?thesis
  proof (cases "?rows = []")
    case True
    then show ?thesis by (simp add: computeAnchorByVehicle_def getRecentFixesByVehicle_def lastN_def
        computeAnchoredPosition_def ANCHOR_MIN_FIXES_def)
  next
    case False
    then have h: "last ?rows \<in> set (filter (recentRow v s) (ts_positions s))" by (metis last_in_set set_sort)
    then have "recentRow v s p" using p(1-3) p(4) [of "last ?rows"] by (auto simp: recentRow_def)
    then have "p \<in> set ?rows" using p(1) by simp
    from sorted_last_max [OF _ this, of gp_time] have "gp_time p \<le> gp_time (last ?rows)" by simp
    moreover have "gp_time (last ?rows) \<le> gp_time p" using h p(4) by (auto simp: recentRow_def)
    ultimately have "last ?rows = p"
      using h p(1,2) by (intro key_unique [OF assms(1)]) (auto simp: recentRow_def)
    with lastN_last [OF _ False, of PER_VEHICLE_ANCHOR_FIXES]
    have l: "?fs \<noteq> []" "last ?fs = anchorFixOf motion p" by (auto simp: PER_VEHICLE_ANCHOR_FIXES_def last_map)
    have "filter (\<lambda>f. isFiniteNum (an_lat f) \<and> isFiniteNum (an_lng f)) ?fs = ?fs"
      by (simp add: filter_True anchorFixOf_def)
    moreover have "sorted (map an_time ?fs)"
      using lastN_sorted [of gp_time ?rows] by (simp add: comp_def anchorFixOf_def)
    ultimately have "finiteSorted ?fs = ?fs" by (simp add: finiteSorted_def sort_key_id_if_sorted)
    moreover have "\<not> isStoppedFix (last ?fs)" unfolding l(2)
      using assms(3,4) by (simp add: isStoppedFix_def anchorFixOf_def STATIONARY_SPEED_MS_def)
    ultimately show ?thesis
      by (simp add: computeAnchorByVehicle_def getRecentFixesByVehicle_def computeAnchoredPosition_def Let_def)
  qed
qed

lemma display_agrees:
  assumes "distinct (map gpKey (ts_positions s))" and "getLastPosition v True s = Some p"
    and "g \<in> set (liveRows company s)" and "gp_vehicle g = v"
  shows "nullish (getDisplayPosition motion v (gp_speed p) False s) (pointOf p)
       = lp_display (livePosition motion (liveRows company s) s g)"
proof -
  have g: "getLastPosition v False s = Some g" using liveRows_last [OF assms(3)] assms(4) by simp
  show ?thesis
  proof (cases "gp_suspect g")
    case False
    have "g = p"
    proof (rule key_unique [OF assms(1)])
      have pg: "p \<in> set (ts_positions s)" "g \<in> set (ts_positions s)" "gp_vehicle p = v"
        using assms(2) g unfolding getLastPosition_def by (auto dest: newest_spec)
      then show "g \<in> set (ts_positions s)" "p \<in> set (ts_positions s)" "gp_vehicle g = gp_vehicle p" using assms(4) by simp_all
      have "gp_time p \<le> gp_time g" using g pg unfolding getLastPosition_def by (auto dest!: newest_spec)
      moreover have "gp_time g \<le> gp_time p" using assms(2,4) pg False unfolding getLastPosition_def by (auto dest!: newest_spec)
      ultimately show "gp_time g = gp_time p" by simp
    qed
    with False assms(4) show ?thesis
      using lp_display [OF assms(3), of motion]
      by (auto simp: getDisplayPosition_def stoppedRow_def split: option.split)
  next
    case True
    then have "lp_display (livePosition motion (liveRows company s) s g)
        = nullish (computeAnchorByVehicle motion [v] s v) (pointOf p)"
      using assms(2,4) by (simp add: lp_display [OF assms(3)] stoppedRow_def)
    moreover have "getDisplayPosition motion v (gp_speed p) False s = computeAnchorByVehicle motion [v] s v"
      using moving_has_no_anchor [OF assms(1,2)] by (auto simp: getDisplayPosition_def split: option.split)
    ultimately show ?thesis by simp
  qed
qed

lemma newest_append:
  assumes "p g" and "\<And>h. h \<in> set rows \<Longrightarrow> p h \<Longrightarrow> gp_time h < gp_time g"
  shows "newest p (rows @ [g]) = Some g"
proof (cases "newest p (rows @ [g])")
  case None
  then show ?thesis using assms(1) by (simp add: newest_None)
next
  case (Some h)
  from newest_spec [OF this] assms show ?thesis using Some by (metis Un_iff empty_iff empty_set insert_iff less_le_not_le list.set(2) set_append)
qed

lemma storeLive_display:
  assumes "distinct (map gpKey (ts_positions (gw_t g)))"
    and "gw_sent (storeLive ev c u dr dto g) = gw_sent g @ out" and "(r, cs, PositionUpdate up) \<in> set out"
    and "\<not> lu_suspect up" and "wu_company u \<noteq> []"
  shows "\<exists>q\<in>set (getLivePositions (ge_motion ev) (wu_company u) (gw_t (storeLive ev c u dr dto g))).
           gp_vehicle (lp_row q) = lu_vehicle up \<and> lp_display q = lu_display up"
proof -
  let ?v = "po_vehicle dto"
  define speed where "speed = liveSpeed (gw_windows g ?v) dto (gw_t g)"
  obtain p t where sv: "savePosition (Some (td_id dr)) (dto\<lparr>po_speed := Some speed\<rparr>) (Some (wu_company u)) Phone (gw_t g) = (Some p, t)"
    and t: "gw_t (storeLive ev c u dr dto g) = t" and ontime: "\<not> isLate dto (gw_t g)"
    and out: "out = map (\<lambda>r. (r, members r g, liveMessage ev dr p t)) (liveRooms u dto)"
    using storeLive_outcome [of c g ev u dr dto] assms(2,3) unfolding speed_def by (auto simp: liveOutcome_def)
  have up: "up = updateOf (td_id dr) (getDisplayPosition (ge_motion ev) (gp_vehicle p) (gp_speed p) (gp_suspect p) t) p"
    using assms(3) by (auto simp: out liveMessage_def)
  then have reliable: "\<not> gp_suspect p" using assms(4) by (simp add: updateOf_def)
  obtain v susp where v: "find (\<lambda>v. tv_id v = ?v \<and> \<not> tv_deleted v \<and> tv_active v) (ts_vehicles (gw_t g)) = Some v"
    "given (Some (wu_company u)) = None \<or> wu_company u = tv_company v"
    "p = rowOf (Some (td_id dr)) (dto\<lparr>po_speed := Some speed\<rparr>) (nullish (given (Some (wu_company u))) (tv_company v)) Phone susp"
    using savePosition_cases(2) [OF sv refl] by auto
  have row: "gp_vehicle p = ?v" "gp_time p = po_time dto" by (simp_all add: v(3) rowOf_def)
  have saved: "savedAs (gw_t g) (Some p) t" using savePosition_cases(1) [OF sv] .
  then have ps: "ts_positions t = ts_positions (gw_t g) @ [p]" "gpKey p \<notin> gpKey ` set (ts_positions (gw_t g))"
    "ts_vehicles t = ts_vehicles (gw_t g)" by (simp_all add: savedAs_def sameRefs_def)
  then have keys: "distinct (map gpKey (ts_positions t))" using assms(1) by simp
  have last: "getLastPosition ?v True t = Some p"
    unfolding getLastPosition_def ps(1)
  proof (rule newest_append)
    show "gp_vehicle p = ?v \<and> (True \<longrightarrow> \<not> gp_suspect p)" using row reliable by simp
    fix h assume h: "h \<in> set (ts_positions (gw_t g))" "gp_vehicle h = ?v \<and> (True \<longrightarrow> \<not> gp_suspect h)"
    then have "gp_time h \<le> po_time dto"
      using ontime newest_spec by (fastforce simp: isLate_def getLastPosition_def newest_None split: option.splits)
    moreover have "gpKey h \<noteq> gpKey p" using h(1) ps(2) by (metis imageI)
    ultimately show "gp_time h < gp_time p" using h(2) row by (auto simp: gpKey_def)
  qed
  have company: "tv_company v = wu_company u" using v(2) assms(5) by (auto simp: given_def split: list.splits)
  have vm: "v \<in> set (ts_vehicles t)" "tv_id v = ?v" "\<not> tv_deleted v" "tv_active v"
    using v(1) ps(3) by (auto simp: find_Some_iff)
  obtain q where q: "getLastPosition ?v False t = Some q"
    using ps(1) row by (cases "getLastPosition ?v False t") (auto simp: getLastPosition_def newest_None)
  then have "q \<in> set (liveRows (wu_company u) t)" using vm company by (auto simp: set_liveRows)
  moreover have "gp_vehicle q = ?v" using getLastPosition_vehicle [OF q] .
  ultimately have "nullish (getDisplayPosition (ge_motion ev) ?v (gp_speed p) False t) (pointOf p)
      = lp_display (livePosition (ge_motion ev) (liveRows (wu_company u) t) t q)" and q: "q \<in> set (liveRows (wu_company u) t)"
    and "gp_vehicle q = ?v"
    using display_agrees [OF keys last] by auto
  moreover have "lu_display up = nullish (getDisplayPosition (ge_motion ev) ?v (gp_speed p) False t) (pointOf p)"
    using reliable row(1) by (simp add: up updateOf_def)
  ultimately show ?thesis
    unfolding t getLivePositions_def Let_def set_map
    by (intro bexI [of _ "livePosition (ge_motion ev) (liveRows (wu_company u) t) t q"] imageI)
      (simp_all add: livePosition_def Let_def up updateOf_def row)
qed

text \<open>A map loaded right after a live position shows the vehicle where the broadcast put it: when the
gateway broadcast a position that is not suspect, the display position of the broadcast is the one of
\<open>getLivePositions\<close> for that vehicle, even when a later suspect row is already stored.\<close>

theorem reload_shows_what_was_broadcast:
  assumes "distinct (map gpKey (ts_positions (gw_t g)))"
    and "gw_sent (handlePosition ev c u raw g) = gw_sent g @ out" and "(r, cs, PositionUpdate up) \<in> set out"
    and "\<not> lu_suspect up" and "wu_company u \<noteq> []"
  shows "\<exists>q\<in>set (getLivePositions (ge_motion ev) (wu_company u) (gw_t (handlePosition ev c u raw g))).
           gp_vehicle (lp_row q) = lu_vehicle up \<and> lp_display q = lu_display up"
proof (cases "wu_role u = DriverRole")
  case True
  from handlePosition_outcome [OF this, of c g ev raw] assms(2,3)
  obtain dto t dr where t: "sameTables (gw_t g) t"
    and eq: "handlePosition ev c u raw g = storeLive ev c u dr dto (g\<lparr>gw_t := t\<rparr>)"
    by (fastforce simp: liveOutcome_def)
  show ?thesis unfolding eq
    by (rule storeLive_display [OF _ _ assms(3-5)]) (use assms(1,2) t eq in \<open>simp_all add: sameTables_def\<close>)
next
  case False
  with assms(2,3) show ?thesis by (simp add: handlePosition_def)
qed

lemma first_fix:
  assumes "gw_t g = fleetWith []"
  shows "\<exists>up. gw_sent (handlePosition openGate c wheel (rawAt 30000) g)
      = gw_sent g @ [(DeliveryRoom jobId, members (DeliveryRoom jobId) g, PositionUpdate up),
                     (CompanyRoom acmeId, members (CompanyRoom acmeId) g, PositionUpdate up)]
    \<and> \<not> lu_suspect up \<and> lu_vehicle up = vanId"
proof -
  let ?s = "fleetWith []" and ?dto = "fixAt 30000 5"
  define dto where "dto = ?dto\<lparr>po_speed := Some (liveSpeed (gw_windows g vanId) ?dto ?s)\<rparr>"
  have sv: "fst (savePosition (Some (td_id vanDriver)) dto (Some acmeId) Phone ?s)
      = Some (rowOf (Some (td_id vanDriver)) dto acmeId Phone False)"
    by (subst savePosition_saved(1) [where v = van])
      (simp_all add: dto_def isDuplicateByTimestamp_def newest_def detectTeleportation_def teleportReference_def
        getLastPosition_def)
  have late: "\<not> isLate ?dto ?s" by (simp add: isLate_def getLastPosition_def newest_def)
  define p where "p = rowOf (Some (td_id vanDriver)) dto acmeId Phone False"
  obtain t where sv': "savePosition (Some (td_id vanDriver)) dto (Some acmeId) Phone ?s = (Some p, t)"
    using sv by (cases "savePosition (Some (td_id vanDriver)) dto (Some acmeId) Phone ?s") (auto simp: p_def)
  have p: "\<not> gp_suspect p" "gp_vehicle p = vanId" by (simp_all add: p_def rowOf_def dto_def)
  have late': "\<not> isLate ?dto (gw_t g)" using late assms by simp
  have job: "given (Some jobId) = Some jobId" by (simp add: given_def jobId_def)
  have "gw_sent (storeLive openGate c wheel vanDriver ?dto g)
      = gw_sent g @ map (\<lambda>r. (r, members r g, liveMessage openGate vanDriver p t)) [DeliveryRoom jobId, CompanyRoom acmeId]"
    using sv' [unfolded dto_def] late p
    by (simp add: storeLive_def assms job liveMessage_def p_def rowOf_def dto_def Let_def)
  then show ?thesis
    using p rawAt_handled [OF _ assms, of 30000 c] by (auto simp: liveMessage_def updateOf_def)
qed

theorem reload_shows_what_was_broadcast_witness:
  "\<exists>up q. (CompanyRoom acmeId, [], PositionUpdate up) \<in> set (gw_sent (handlePosition openGate 7 wheel (rawAt 30000) (gateOf (fleetWith []))))
     \<and> q \<in> set (getLivePositions (ge_motion openGate) acmeId (gw_t (handlePosition openGate 7 wheel (rawAt 30000) (gateOf (fleetWith [])))))
     \<and> lp_display q = lu_display up"
proof -
  let ?g = "gateOf (fleetWith [])"
  obtain up where sent: "gw_sent (handlePosition openGate 7 wheel (rawAt 30000) ?g)
      = gw_sent ?g @ [(DeliveryRoom jobId, [], PositionUpdate up), (CompanyRoom acmeId, [], PositionUpdate up)]"
    and ok: "\<not> lu_suspect up"
    using first_fix [of ?g 7] by (auto simp: members_def)
  have "(CompanyRoom acmeId, [], PositionUpdate up)
      \<in> set [(DeliveryRoom jobId, [], PositionUpdate up), (CompanyRoom acmeId, [], PositionUpdate up)]" by simp
  from reload_shows_what_was_broadcast [OF _ sent this ok] sent show ?thesis by auto
qed

subsection \<open>Who is in the rooms\<close>

text \<open>Each socket belongs to one user; a user's driver is assigned only deliveries of the user's company.\<close>

definition verdictOk :: "(nat \<Rightarrow> ws_user) \<Rightarrow> gate_event \<Rightarrow> bool" where
  "verdictOk who e = (case e of Connected c (Some u) \<Rightarrow> u = who c | Message c (Some u) m \<Rightarrow> u = who c | _ \<Rightarrow> True)"

definition assignedTo :: "ws_user \<Rightarrow> tstate \<Rightarrow> delivery \<Rightarrow> bool" where
  "assignedTo u s d \<longleftrightarrow> assignedDriverId d = Some (wu_id u)
     \<or> (\<exists>r. findDriverByUserId (wu_id u) s = Some r \<and> driverId d = Some (td_id r))"

definition dbOk :: "(nat \<Rightarrow> ws_user) \<Rightarrow> tstate \<Rightarrow> bool" where
  "dbOk who s \<longleftrightarrow> distinct (map fst (ts_deliveries s))
     \<and> (\<forall>c. wu_company (who c) \<noteq> [] \<and> (\<forall>x\<in>set (ts_deliveries s). assignedTo (who c) s (snd x) \<longrightarrow> companyId (snd x) = wu_company (who c)))"

definition inRoom :: "ws_user \<Rightarrow> tstate \<Rightarrow> room \<Rightarrow> bool" where
  "inRoom u s r = (case r of
     DriverRoom i \<Rightarrow> wu_role u = DriverRole \<and> wu_id u = i
   | CompanyRoom co \<Rightarrow> wu_role u \<noteq> DriverRole \<and> wu_company u = co
   | DeliveryRoom d \<Rightarrow> wu_role u \<noteq> DriverRole \<and> (\<exists>x. (d, x) \<in> set (ts_deliveries s) \<and> companyId x = wu_company u))"

fun vehiclesOf :: "emission \<Rightarrow> ident list" where
  "vehiclesOf (PositionUpdate up) = [lu_vehicle up]"
| "vehiclesOf (BatchPositionUpdate ups) = map lu_vehicle ups"
| "vehiclesOf _ = []"

definition mayView :: "ws_user \<Rightarrow> tstate \<Rightarrow> ident \<Rightarrow> bool" where
  "mayView u s v \<longleftrightarrow> wu_role u \<noteq> DriverRole \<and> (\<exists>w\<in>set (ts_vehicles s). tv_id w = v \<and> tv_company w = wu_company u)"

definition sentOk :: "(nat \<Rightarrow> ws_user) \<Rightarrow> tstate \<Rightarrow> (room \<times> nat list \<times> emission) list \<Rightarrow> bool" where
  "sentOk who s out \<longleftrightarrow> (\<forall>(r, cs, e)\<in>set out. \<forall>c\<in>set cs. \<forall>v\<in>set (vehiclesOf e). mayView (who c) s v)"

definition gateOk :: "(nat \<Rightarrow> ws_user) \<Rightarrow> tstate \<Rightarrow> gstate \<Rightarrow> bool" where
  "gateOk who s g \<longleftrightarrow> sameRefs s (gw_t g) \<and> (\<forall>(c, r)\<in>set (gw_rooms g). inRoom (who c) s r) \<and> sentOk who s (gw_sent g)"

lemma sentOk_append [simp]: "sentOk who s (xs @ ys) \<longleftrightarrow> sentOk who s xs \<and> sentOk who s ys"
  by (simp add: sentOk_def ball_Un)

lemma members_inRoom: "gateOk who s g \<Longrightarrow> c \<in> set (members r g) \<Longrightarrow> inRoom (who c) s r"
  by (auto simp: gateOk_def members_def)

text \<open>A message about vehicles of a company, sent to rooms that only that company may enter.\<close>

definition roomOf :: "ident \<Rightarrow> tstate \<Rightarrow> room \<Rightarrow> bool" where
  "roomOf company s r = (case r of DriverRoom i \<Rightarrow> False | CompanyRoom co \<Rightarrow> co = company
     | DeliveryRoom d \<Rightarrow> (\<exists>x. (d, x) \<in> set (ts_deliveries s) \<and> companyId x = company))"

lemma roomOf_view:
  assumes "dbOk who s" and "roomOf company s r" and "inRoom u s r"
    and "\<exists>w\<in>set (ts_vehicles s). tv_id w = v \<and> tv_company w = company"
  shows "mayView u s v"
proof -
  have one: "\<forall>d x y. (d, x) \<in> set (ts_deliveries s) \<longrightarrow> (d, y) \<in> set (ts_deliveries s) \<longrightarrow> x = y"
    using assms(1) by (auto simp: dbOk_def dest: eq_key_imp_eq_value)
  have "wu_role u \<noteq> DriverRole \<and> wu_company u = company"
    using assms(2,3) one by (cases r) (simp_all add: roomOf_def inRoom_def, metis)
  with assms(4) show ?thesis by (simp add: mayView_def)
qed

lemma emissions_ok:
  assumes "dbOk who s" and "gateOk who s g" and "\<forall>r\<in>set rs. roomOf company s r"
    and "\<forall>v\<in>set (vehiclesOf e). \<exists>w\<in>set (ts_vehicles s). tv_id w = v \<and> tv_company w = company"
  shows "sentOk who s (map (\<lambda>r. (r, members r g, e)) rs)"
  using roomOf_view [OF assms(1)] members_inRoom [OF assms(2)] assms(3,4) by (fastforce simp: sentOk_def)

subsection \<open>The handlers keep the rooms\<close>

lemma handlePosition_ok:
  assumes "dbOk who s" and "gateOk who s g" and "u = who c"
  shows "gateOk who s (handlePosition ev c u raw g)"
proof (cases "wu_role u = DriverRole")
  case False
  with assms(2) show ?thesis by (simp add: handlePosition_def)
next
  case True
  have refs: "sameRefs s (gw_t g)" using assms(2) by (simp add: gateOk_def)
  have plain: "gateOk who s g'" if "liveOutcome c g new as out g'" "sentOk who s out" for g' new as out
    using that assms(2) sameRefs_trans [OF refs] by (simp add: liveOutcome_def gateOk_def)
  have none: "sentOk who s []" by (simp add: sentOk_def)
  from handlePosition_outcome [OF True, of c g ev raw] show ?thesis
  proof (elim disjE exE conjE)
    fix dto t1 dr
    assume t1: "sameTables (gw_t g) t1"
      and asg: "\<forall>d. given (po_delivery dto) = Some d \<longrightarrow> verifyDriverAssignment d (wu_id u) t1"
      and own: "assertVehicleOwnership (po_vehicle dto) (wu_company u) t1"
      and eq: "handlePosition ev c u raw g = storeLive ev c u dr dto (g\<lparr>gw_t := t1\<rparr>)"
    let ?g = "g\<lparr>gw_t := t1\<rparr>"
    have s: "sameRefs s t1" by (rule sameRefs_trans [OF refs sameTables_refs [OF t1]])
    have veh: "\<exists>w\<in>set (ts_vehicles s). tv_id w = po_vehicle dto \<and> tv_company w = wu_company u"
      using own s by (auto simp: assertVehicleOwnership_def find_Some_iff sameRefs_def)
    have rooms: "\<forall>r\<in>set (liveRooms u dto). roomOf (wu_company u) s r"
    proof
      fix r assume r: "r \<in> set (liveRooms u dto)"
      show "roomOf (wu_company u) s r"
      proof (cases "r = CompanyRoom (wu_company u)")
        case False
        with r obtain d where d: "given (po_delivery dto) = Some d" "r = DeliveryRoom d"
          by (cases "given (po_delivery dto)") (auto simp: liveRooms_def)
        with asg have "verifyDriverAssignment d (wu_id u) t1" by blast
        then obtain x where x: "map_of (ts_deliveries s) d = Some x" "assignedTo u s x"
          using s by (auto simp: verifyDriverAssignment_def assignedTo_def sameRefs_def findDriverByUserId_def split: option.splits)
        then have "(d, x) \<in> set (ts_deliveries s)" by (simp add: map_of_SomeD)
        moreover have "companyId x = wu_company u" using assms(1,3) x(2) calculation by (force simp: dbOk_def)
        ultimately show ?thesis using d(2) by (auto simp: roomOf_def)
      qed (simp add: roomOf_def)
    qed
    have g1: "gateOk who s ?g" using assms(2) s by (simp add: gateOk_def)
    have vs: "set (vehiclesOf (liveMessage ev dr p t)) = {gp_vehicle p}" for p t by (simp add: liveMessage_def updateOf_def)
    have pv: "gp_vehicle p = po_vehicle dto" if "savePosition d (dto\<lparr>po_speed := x\<rparr>) co src y = (Some p, t)" for d x co src y p t
      using savePosition_cases(2) [OF that refl] by (auto simp: rowOf_def)
    consider "liveOutcome c ?g [] [PositionRejected RejectedRow] [] (storeLive ev c u dr dto ?g)"
      | p where "liveOutcome c ?g [p] [] [] (storeLive ev c u dr dto ?g)"
      | p t where "gp_vehicle p = po_vehicle dto" "liveOutcome c ?g [p] [PositionSaved (gp_suspect p)]
            (map (\<lambda>r. (r, members r ?g, liveMessage ev dr p t)) (liveRooms u dto)) (storeLive ev c u dr dto ?g)"
      using storeLive_outcome [of c ?g ev u dr dto] pv by blast
    then have "\<exists>new as out. liveOutcome c ?g new as out (storeLive ev c u dr dto ?g) \<and> sentOk who s out"
    proof cases
      case (3 p t)
      have "sentOk who s (map (\<lambda>r. (r, members r ?g, liveMessage ev dr p t)) (liveRooms u dto))"
        by (rule emissions_ok [OF assms(1) g1 rooms]) (use veh vs 3(1) in simp)
      with 3(2) show ?thesis by blast
    qed (use none in blast)+
    then show ?thesis
      using liveOutcome_from [OF t1] plain unfolding eq by blast
  qed (use plain none in blast)+
qed

subsection \<open>Batches\<close>

lemma isBatchRateLimited_tables: "isBatchRateLimited m d s = (l, s') \<Longrightarrow> sameTables s s'"
  by (auto simp: isBatchRateLimited_def sameTables_def split: if_splits)

lemma saveBatch_refs: "sameRefs s (snd (saveBatch user driver ps company s))"
proof -
  obtain m s3 where "insertMany (bc_out (batchRows user driver company ps s)) (s\<lparr>ts_metrics := m\<rparr>)
      = (fst (saveBatch user driver ps company s), s3)" "sameTables s3 (snd (saveBatch user driver ps company s))"
    using saveBatch_result by blast
  with insertMany_spec show ?thesis by (fastforce simp: sameRefs_def sameTables_def)
qed

lemma validPositions_delivery:
  "p \<in> set (validPositions verified okVehicle ps) \<Longrightarrow> given (po_delivery p) = Some d \<Longrightarrow> verified d"
  by (auto simp: validPositions_def effectiveDelivery_def given_def split: option.splits if_splits list.splits)

lemma saved_rows:
  assumes "p \<in> set (fst (saveBatch user driver ps company s))"
  shows "validBatchVehicle company s (gp_vehicle p)"
    and "given (gp_delivery p) = Some d \<Longrightarrow> verifiedDelivery user driver s d"
proof -
  let ?vs = "validPositions (verifiedDelivery user driver s) (validBatchVehicle company s) ps"
  obtain qs where qs: "subseq qs (sort_key po_time ?vs)" "list_all2 (fromDto driver company) qs (bc_out (batchRows user driver company ps s))"
    using batchRows_out by blast
  have "p \<in> set (bc_out (batchRows user driver company ps s))"
    using assms saveBatch_positions(2) set_subseq by blast
  then obtain k where "k < length (bc_out (batchRows user driver company ps s))"
    "p = bc_out (batchRows user driver company ps s) ! k" by (auto simp: in_set_conv_nth)
  then have "fromDto driver company (qs ! k) p" "qs ! k \<in> set qs"
    using qs(2) by (simp_all add: list_all2_conv_all_nth)
  then obtain q where q: "q \<in> set qs" "fromDto driver company q p" by blast
  with qs(1) have "q \<in> set ?vs" using set_subseq by fastforce
  with fromDto_fields [OF q(2)] show "validBatchVehicle company s (gp_vehicle p)"
    and "given (gp_delivery p) = Some d \<Longrightarrow> verifiedDelivery user driver s d"
    using validPositions_vehicle validPositions_delivery by auto
qed

text \<open>A batch adds the rows it reports, and no row when it reports none.\<close>

fun savedOf :: "batch_result \<Rightarrow> gps_position list" where
  "savedOf (BatchOk saved n driver rejected) = saved"
| "savedOf _ = []"

definition batchSpec :: "ident \<Rightarrow> ident \<Rightarrow> tstate \<Rightarrow> batch_result \<Rightarrow> tstate \<Rightarrow> bool" where
  "batchSpec user company s res t \<longleftrightarrow>
     sameRefs s t \<and> ts_positions t = ts_positions s @ savedOf res
     \<and> (\<forall>p\<in>set (savedOf res). validBatchVehicle company s (gp_vehicle p)
          \<and> (\<forall>d. given (gp_delivery p) = Some d \<longrightarrow>
               (\<exists>r. findDriverByUserId user s = Some r \<and> verifiedDelivery user (td_id r) s d)))
     \<and> (\<forall>saved driver rejected. res = BatchOk saved 0 driver rejected \<longrightarrow> saved = [])"

lemma batchSpec_nothing: "sameTables s t \<Longrightarrow> savedOf res = [] \<Longrightarrow> batchSpec user company s res t"
  by (cases res) (simp_all add: batchSpec_def sameTables_def sameRefs_def)

lemma batch_call:
  assumes "validateAndSaveBatch U m user company raws s = (res, t)"
  shows "batchSpec user company s res t"
proof -
  obtain l s1 where rate: "isBatchRateLimited m user s = (l, s1)" by fastforce
  note s1 = isBatchRateLimited_tables [OF rate]
  have eq: "validBatchVehicle company s1 = validBatchVehicle company s"
    "verifiedDelivery user r s1 = verifiedDelivery user r s" "findDriverByUserId user s1 = findDriverByUserId user s" for r
    using s1 by (simp_all add: fun_eq_iff validBatchVehicle_def verifiedDelivery_def findDriverByUserId_def sameTables_def)
  show ?thesis
  proof (cases "l \<or> raws = None \<or> raws = Some []")
    case True
    then have "t = s1" "savedOf res = []"
      using assms rate by (auto simp: validateAndSaveBatch_def split: if_splits)
    with s1 show ?thesis by (simp add: batchSpec_nothing)
  next
    case False
    then obtain x xs where raws: "raws = Some (x # xs)" by (cases raws rule: option.exhaust) (auto simp: neq_Nil_conv)
    obtain ok rejected where out: "sortOut 0 (map (validateUpdate U (ts_now s1)) (x # xs)) = (ok, rejected)" by fastforce
    note run = assms [unfolded validateAndSaveBatch_def rate raws]
    show ?thesis
    proof (cases "findDriverByUserId user s1")
      case None
      then have "t = s1" "savedOf res = []" using run False out by auto
      with s1 show ?thesis by (simp add: batchSpec_nothing)
    next
      case (Some r)
      show ?thesis
      proof (cases "ok = []")
        case True
        then have "t = s1" "savedOf res = []" using run False out Some by auto
        with s1 show ?thesis by (simp add: batchSpec_nothing)
      next
        case nonempty: False
        then have res: "res = BatchOk (fst (saveBatch user (td_id r) ok company s1)) (length ok) (td_id r) rejected"
          and t: "t = snd (saveBatch user (td_id r) ok company s1)"
          using run False out Some by (auto simp: split_beta)
        have "sameRefs s t" unfolding t by (rule sameRefs_trans [OF sameTables_refs [OF s1] saveBatch_refs])
        moreover have "ts_positions t = ts_positions s @ savedOf res"
          using saveBatch_positions(1) s1 by (simp add: t res sameTables_def)
        ultimately show ?thesis
          using saved_rows [of _ user "td_id r" ok company s1] Some nonempty eq
          by (auto simp: batchSpec_def res)
      qed
    qed
  qed
qed

fun batchAnswers :: "string option \<Rightarrow> batch_result \<Rightarrow> gate_answer list" where
  "batchAnswers b BatchRateLimited = [PositionsRejected RateLimited b]"
| "batchAnswers b BatchNoDriver = [PositionsRejected NoDriver b]"
| "batchAnswers b BatchEmpty = [PositionsSaved 0 b]"
| "batchAnswers b (BatchOk saved n driver rejected) =
     (if rejected = [] then [] else [PositionsInvalid b rejected]) @ [PositionsSaved (length saved) b]"

fun batchFeed :: "(gps_position \<Rightarrow> bool option) \<Rightarrow> ident \<Rightarrow> tstate \<Rightarrow> batch_result \<Rightarrow> (room list \<times> emission) option" where
  "batchFeed motion company t (BatchOk saved n driver rejected) =
     (if n = 0 then None
      else Some (batchRooms company saved, BatchPositionUpdate (batchUpdates motion driver saved t)))"
| "batchFeed motion company t _ = None"

lemma emit_fold:
  "gw_t (fold (\<lambda>r. emitTo r e) rs g) = gw_t g" "gw_answers (fold (\<lambda>r. emitTo r e) rs g) = gw_answers g"
  "gw_rooms (fold (\<lambda>r. emitTo r e) rs g) = gw_rooms g"
  "gw_sent (fold (\<lambda>r. emitTo r e) rs g) = gw_sent g @ map (\<lambda>r. (r, members r g, e)) rs"
  by (induction rs arbitrary: g) simp_all

lemma handleBatch_outcome:
  assumes "wu_role u = DriverRole"
    and "validateAndSaveBatch (ge_uuid ev) (ge_batchMax ev) (wu_id u) (wu_company u) raws (gw_t g) = (res, t)"
  shows "gw_t (handleBatchPosition ev c u b raws g) = t"
    and "liveOutcome c g (savedOf res) (batchAnswers b res)
      (case batchFeed (ge_motion ev) (wu_company u) t res of None \<Rightarrow> []
       | Some (rs, e) \<Rightarrow> map (\<lambda>r. (r, members r g, e)) rs)
      (handleBatchPosition ev c u b raws g)"
proof -
  note spec = batch_call [OF assms(2)]
  show "gw_t (handleBatchPosition ev c u b raws g) = t"
    using assms by (simp add: handleBatchPosition_def Let_def emit_fold split: batch_result.split)
  have "sameRefs (gw_t g) t" "ts_positions t = ts_positions (gw_t g) @ savedOf res"
    "\<And>saved driver rejected. res = BatchOk saved 0 driver rejected \<Longrightarrow> saved = []"
    using spec by (simp_all add: batchSpec_def)
  then show "liveOutcome c g (savedOf res) (batchAnswers b res)
      (case batchFeed (ge_motion ev) (wu_company u) t res of None \<Rightarrow> []
       | Some (rs, e) \<Rightarrow> map (\<lambda>r. (r, members r g, e)) rs)
      (handleBatchPosition ev c u b raws g)"
    using assms by (cases res) (auto simp: handleBatchPosition_def Let_def liveOutcome_def emit_fold)
qed



subsection \<open>A company sees its own vehicles\<close>

lemma handleBatch_ok:
  assumes "dbOk who s" and "gateOk who s g" and "u = who c"
  shows "gateOk who s (handleBatchPosition ev c u b raws g)"
proof (cases "wu_role u = DriverRole")
  case False
  with assms(2) show ?thesis by (simp add: handleBatchPosition_def)
next
  case True
  obtain res t where run: "validateAndSaveBatch (ge_uuid ev) (ge_batchMax ev) (wu_id u) (wu_company u) raws (gw_t g) = (res, t)"
    by fastforce
  have refs: "sameRefs s (gw_t g)" using assms(2) by (simp add: gateOk_def)
  note spec = batch_call [OF run]
  have co: "wu_company u \<noteq> []" using assms(1,3) by (simp add: dbOk_def)
  have veh: "\<exists>w\<in>set (ts_vehicles s). tv_id w = gp_vehicle p \<and> tv_company w = wu_company u" if "p \<in> set (savedOf res)" for p
    using spec that co refs by (auto simp: batchSpec_def validBatchVehicle_def sameRefs_def)
  have del: "roomOf (wu_company u) s (DeliveryRoom d)" if p: "p \<in> set (savedOf res)" "given (gp_delivery p) = Some d" for p d
  proof -
    obtain r where r: "findDriverByUserId (wu_id u) (gw_t g) = Some r" "verifiedDelivery (wu_id u) (td_id r) (gw_t g) d"
      using spec p unfolding batchSpec_def by blast
    then obtain x where x: "map_of (ts_deliveries s) d = Some x" "assignedTo u s x"
      using refs by (auto simp: verifiedDelivery_def assignedTo_def sameRefs_def findDriverByUserId_def split: option.splits)
    then have "(d, x) \<in> set (ts_deliveries s)" by (simp add: map_of_SomeD)
    moreover have "companyId x = wu_company u" using assms(1,3) x(2) calculation by (force simp: dbOk_def)
    ultimately show ?thesis by (auto simp: roomOf_def)
  qed
  have "sentOk who s (case batchFeed (ge_motion ev) (wu_company u) t res of None \<Rightarrow> []
       | Some (rs, e) \<Rightarrow> map (\<lambda>r. (r, members r g, e)) rs)"
  proof (cases "batchFeed (ge_motion ev) (wu_company u) t res")
    case (Some x)
    then obtain saved n driver rejected where res: "res = BatchOk saved n driver rejected"
      and x: "x = (batchRooms (wu_company u) saved, BatchPositionUpdate (batchUpdates (ge_motion ev) driver saved t))"
      by (cases res) (auto split: if_splits)
    have "sentOk who s (map (\<lambda>r. (r, members r g, BatchPositionUpdate (batchUpdates (ge_motion ev) driver saved t)))
        (batchRooms (wu_company u) saved))"
    proof (rule emissions_ok [OF assms(1,2)])
      show "\<forall>r\<in>set (batchRooms (wu_company u) saved). roomOf (wu_company u) s r"
        using del by (auto simp: batchRooms_def firstOnes_def res List.map_filter_def roomOf_def split: option.splits)
      show "\<forall>v\<in>set (vehiclesOf (BatchPositionUpdate (batchUpdates (ge_motion ev) driver saved t))).
          \<exists>w\<in>set (ts_vehicles s). tv_id w = v \<and> tv_company w = wu_company u"
        using veh by (auto simp: batchUpdates_def updateOf_def res)
    qed
    then show ?thesis by (simp add: Some x)
  qed (simp add: sentOk_def)
  with handleBatch_outcome(2) [OF True run, of c b] assms(2) sameRefs_trans [OF refs]
  show ?thesis by (simp add: liveOutcome_def gateOk_def)
qed

lemma rooms_ok:
  assumes "gateOk who s g" and "u = who c" and "inRoom u s r"
  shows "gateOk who s (joinRoom c r g)" "gateOk who s (leaveRoom c q g)" "gateOk who s (answer c a g)"
  using assms by (auto simp: gateOk_def joinRoom_def leaveRoom_def)

lemma snooze_ok: "gateOk who s g \<Longrightarrow> gateOk who s (handleSnooze u d l g)"
  by (auto simp: handleSnooze_def gateOk_def snoozeProximity_def sameRefs_def split: option.split)

lemma subscribe_ok:
  assumes "gateOk who s g" and "u = who c"
  shows "gateOk who s (handleSubscribeToDelivery c u d g)" "gateOk who s (handleSubscribeToCompany c u g)"
    "gateOk who s (handleUnsubscribeFromDelivery c u d g)" "gateOk who s (handleUnsubscribeFromCompany c u g)"
proof -
  have "inRoom u s (DeliveryRoom d)" if "wu_role u \<noteq> DriverRole" "getDeliveryInfo d (wu_company u) (gw_t g) \<noteq> None"
  proof -
    from that(2) assms(1) have "find (\<lambda>(i, x). i = d \<and> companyId x = wu_company u) (ts_deliveries s) \<noteq> None"
      by (auto simp: getDeliveryInfo_def gateOk_def sameRefs_def)
    with that(1) show ?thesis by (auto simp: find_None_iff inRoom_def)
  qed
  then show "gateOk who s (handleSubscribeToDelivery c u d g)" "gateOk who s (handleSubscribeToCompany c u g)"
    "gateOk who s (handleUnsubscribeFromDelivery c u d g)" "gateOk who s (handleUnsubscribeFromCompany c u g)"
    using assms
    by (auto simp: handleSubscribeToDelivery_def handleSubscribeToCompany_def handleUnsubscribeFromDelivery_def
        handleUnsubscribeFromCompany_def inRoom_def gateOk_def joinRoom_def leaveRoom_def)
qed

lemma gateStep_ok:
  assumes "dbOk who s" and "gateOk who s g" and "verdictOk who e"
  shows "gateOk who s (gateStep ev e g)"
proof (cases e)
  case (Connected c v)
  then show ?thesis using assms
    by (auto simp: verdictOk_def gateOk_def handleConnection_def joinRoom_def inRoom_def Let_def split: option.splits)
next
  case (Disconnected c)
  then show ?thesis using assms(2)
    by (auto simp: handleDisconnect_def gateOk_def Let_def emitTo_def sentOk_def split: option.split)
next
  case CleanupTick
  then show ?thesis using assms(2) by (simp add: driverCleanup_def gateOk_def)
next
  case (BusEvent target company entity)
  then show ?thesis using assms(2)
    by (auto simp: dataUpdateListener_def gateOk_def Let_def emitTo_def sentOk_def split: option.split)
next
  case (Message c v m)
  show ?thesis
  proof (cases v)
    case None
    then show ?thesis using assms(2) Message by (simp add: gateOk_def)
  next
    case (Some u)
    have u: "u = who c" using assms(3) Message Some by (simp add: verdictOk_def)
    have g: "gateOk who s (g\<lparr>gw_user := (gw_user g)(c \<mapsto> u)\<rparr>)" using assms(2) by (simp add: gateOk_def)
    show ?thesis
      using handlePosition_ok [OF assms(1) g u] handleBatch_ok [OF assms(1) g u] snooze_ok [OF g] subscribe_ok [OF g u]
      by (cases m) (simp_all add: Message Some)
  qed
qed

text \<open>C5. Whatever messages arrive and whoever subscribes, a position is delivered only to sockets of the
vehicle's own company, and never to a driver's socket, provided each socket speaks for one user and
drivers are assigned deliveries of their own company.\<close>

theorem positions_stay_in_their_company:
  assumes "dbOk who (gw_t g)" and "gw_rooms g = []" and "gw_sent g = []"
    and "\<forall>e\<in>snd ` set es. verdictOk who e"
    and "(r, cs, e) \<in> set (gw_sent (gateRun ev es g))" and "c \<in> set cs" and "v \<in> set (vehiclesOf e)"
  shows "wu_role (who c) \<noteq> DriverRole
       \<and> (\<exists>w\<in>set (ts_vehicles (gw_t g)). tv_id w = v \<and> tv_company w = wu_company (who c))"
proof -
  have "gateOk who (gw_t g) (gateRun ev es g)" using assms(4)
  proof (induction es rule: rev_induct)
    case Nil
    then show ?case using assms(2,3) by (simp add: gateRun_def gateOk_def sentOk_def)
  next
    case (snoc x es)
    obtain t e where x: "x = (t, e)" by fastforce
    let ?g = "gateRun ev es g"
    have "gateOk who (gw_t g) (?g\<lparr>gw_t := (gw_t ?g)\<lparr>ts_now := t\<rparr>\<rparr>)"
      using snoc by (simp add: gateOk_def sameRefs_def)
    from gateStep_ok [OF assms(1) this] snoc.prems show ?case by (simp add: gateRun_def x)
  qed
  with assms(5-7) show ?thesis by (auto simp: gateOk_def sentOk_def mayView_def)
qed

definition boss :: ws_user where "boss = \<lparr>wu_id = ''boss'', wu_role = Dispatcher, wu_company = acmeId\<rparr>"
definition guest :: ws_user where "guest = \<lparr>wu_id = ''guest'', wu_role = ClientRole, wu_company = acmeId\<rparr>"

definition morningShift :: "ws_user \<Rightarrow> (ms \<times> gate_event) list" where
  "morningShift u = [(0, Connected 1 (Some u)), (0, Message 1 None SubscribeToCompany),
     (0, Message 7 (Some wheel) (UpdatePosition (rawAt 30000)))]"

lemma gateRun_simps [simp]:
  "gateRun ev [] g = g"
  "gateRun ev ((t, e) # es) g = gateRun ev es (gateStep ev e (g\<lparr>gw_t := (gw_t g)\<lparr>ts_now := t\<rparr>\<rparr>))"
  by (simp_all add: gateRun_def)

lemma morningShift_feed:
  assumes "wu_role u \<noteq> DriverRole" and "wu_company u = acmeId"
  shows "\<exists>up. (CompanyRoom acmeId, [1], PositionUpdate up)
      \<in> set (gw_sent (gateRun openGate (morningShift u) (gateOf (fleetWith [])))) \<and> lu_vehicle up = vanId"
proof -
  have still: "(fleetWith [])\<lparr>ts_now := 0\<rparr> = fleetWith []" by (simp add: fleetWith_def fleet_def)
  define g where "g = gateRun openGate [(0, Connected 1 (Some u)), (0, Message 1 None SubscribeToCompany)] (gateOf (fleetWith []))"
  have g: "gw_t g = fleetWith []" "gw_rooms g = [(1, CompanyRoom acmeId)]"
    using assms by (simp_all add: g_def handleConnection_def joinRoom_def still gateOf_def)
  let ?g = "g\<lparr>gw_user := (gw_user g)(7 \<mapsto> wheel)\<rparr>"
  have "gw_t ?g = fleetWith []" using g by simp
  from first_fix [OF this, of 7] obtain up where up: "lu_vehicle up = vanId"
    "(CompanyRoom acmeId, members (CompanyRoom acmeId) ?g, PositionUpdate up)
       \<in> set (gw_sent (handlePosition openGate 7 wheel (rawAt 30000) ?g))"
    by auto
  have "gateRun openGate (morningShift u) (gateOf (fleetWith []))
      = gateStep openGate (Message 7 (Some wheel) (UpdatePosition (rawAt 30000))) (g\<lparr>gw_t := (gw_t g)\<lparr>ts_now := 0\<rparr>\<rparr>)"
    by (simp add: morningShift_def g_def)
  also have "(gw_t g)\<lparr>ts_now := 0\<rparr> = gw_t g" using g(1) still by simp
  finally have "gateRun openGate (morningShift u) (gateOf (fleetWith [])) = handlePosition openGate 7 wheel (rawAt 30000) ?g"
    by simp
  moreover have "members (CompanyRoom acmeId) ?g = [1]" using g(2) by (simp add: members_def)
  ultimately show ?thesis using up by auto
qed

theorem positions_stay_in_their_company_witness:
  "\<exists>up. (CompanyRoom acmeId, [1], PositionUpdate up)
      \<in> set (gw_sent (gateRun openGate (morningShift boss) (gateOf (fleetWith []))))
     \<and> (\<exists>w\<in>{van}. tv_id w = lu_vehicle up \<and> tv_company w = wu_company boss)"
proof -
  let ?who = "\<lambda>c :: nat. if c = 7 then wheel else boss"
  obtain up where up: "(CompanyRoom acmeId, [1], PositionUpdate up)
      \<in> set (gw_sent (gateRun openGate (morningShift boss) (gateOf (fleetWith []))))"
    using morningShift_feed [of boss] by (auto simp: boss_def)
  have "dbOk ?who (gw_t (gateOf (fleetWith [])))" by (simp add: dbOk_def boss_def fleetJob_def)
  moreover have "\<forall>e\<in>snd ` set (morningShift boss). verdictOk ?who e" by (simp add: morningShift_def verdictOk_def)
  ultimately have "wu_role (?who 1) \<noteq> DriverRole
      \<and> (\<exists>w\<in>set (ts_vehicles (gw_t (gateOf (fleetWith [])))). tv_id w = lu_vehicle up \<and> tv_company w = wu_company (?who 1))"
    using positions_stay_in_their_company [OF _ _ _ _ up, of ?who 1 "lu_vehicle up"] by simp
  with up show ?thesis by auto
qed

subsection \<open>What ends the feed\<close>

lemma gw_rooms_position: "gw_rooms (handlePosition ev c u raw g) = gw_rooms g"
proof (cases "wu_role u = DriverRole")
  case True
  from handlePosition_outcome [OF this, of c g ev raw] show ?thesis
  proof (elim disjE exE conjE)
    fix dto t1 dr
    assume "handlePosition ev c u raw g = storeLive ev c u dr dto (g\<lparr>gw_t := t1\<rparr>)"
    with storeLive_outcome [of c "g\<lparr>gw_t := t1\<rparr>" ev u dr dto] show ?thesis
      by (cases "isLate dto t1") (auto simp: liveOutcome_def)
  qed (simp_all add: liveOutcome_def)
qed (simp add: handlePosition_def)

lemma gw_rooms_batch: "gw_rooms (handleBatchPosition ev c u b raws g) = gw_rooms g"
  by (simp add: handleBatchPosition_def Let_def emit_fold split: prod.split batch_result.split)

lemma gw_rooms_snooze: "gw_rooms (handleSnooze u d l g) = gw_rooms g"
  by (simp add: handleSnooze_def split: option.split)

text \<open>The events after which a socket may no longer be in the room of its company.\<close>

definition endsFeed :: "nat \<Rightarrow> gate_event \<Rightarrow> bool" where
  "endsFeed c e \<longleftrightarrow> (case e of
     Disconnected k \<Rightarrow> k = c | Connected k v \<Rightarrow> k = c
   | Message k v m \<Rightarrow> k = c \<and> v \<noteq> None \<and> m = UnsubscribeFromCompany | _ \<Rightarrow> False)"

lemma gateStep_keeps:
  assumes "(c, CompanyRoom co) \<in> set (gw_rooms g)" and "\<not> endsFeed c e"
  shows "(c, CompanyRoom co) \<in> set (gw_rooms (gateStep ev e g))"
proof (cases e)
  case (Connected k v)
  then show ?thesis using assms by (auto simp: endsFeed_def handleConnection_def joinRoom_def Let_def split: option.split)
next
  case (Disconnected k)
  then show ?thesis using assms by (auto simp: endsFeed_def handleDisconnect_def Let_def split: option.split)
next
  case CleanupTick
  then show ?thesis using assms by (simp add: driverCleanup_def)
next
  case (BusEvent t k i)
  then show ?thesis using assms by (simp add: dataUpdateListener_def Let_def split: option.split)
next
  case (Message k v m)
  then show ?thesis using assms
    by (cases v; cases m) (auto simp: endsFeed_def gw_rooms_position gw_rooms_batch gw_rooms_snooze
        handleSubscribeToDelivery_def handleUnsubscribeFromDelivery_def handleSubscribeToCompany_def
        handleUnsubscribeFromCompany_def joinRoom_def leaveRoom_def)
qed

text \<open>C38. A socket of any user but a driver, a client included, is in the room of its company from its
connection on, and stays there until it disconnects, reconnects or unsubscribes: that the guard
refuses its later messages, its token having expired or been revoked, does not end the feed.\<close>

theorem refused_socket_keeps_the_feed:
  assumes "wu_role u \<noteq> DriverRole" and "wu_company u \<noteq> []" and "\<forall>e\<in>snd ` set es. \<not> endsFeed c e"
  shows "c \<in> set (members (CompanyRoom (wu_company u)) (gateRun ev ((t, Connected c (Some u)) # es) g))"
proof -
  define g0 where "g0 = gateStep ev (Connected c (Some u)) (g\<lparr>gw_t := (gw_t g)\<lparr>ts_now := t\<rparr>\<rparr>)"
  have "(c, CompanyRoom (wu_company u)) \<in> set (gw_rooms g0)"
    using assms(1,2) by (simp add: g0_def handleConnection_def joinRoom_def Let_def)
  then have "(c, CompanyRoom (wu_company u)) \<in> set (gw_rooms (gateRun ev es g0))"
    using assms(3)
  proof (induction es arbitrary: g0)
    case (Cons x es)
    obtain t e where x: "x = (t, e)" by fastforce
    have "(c, CompanyRoom (wu_company u)) \<in> set (gw_rooms (gateStep ev e (g0\<lparr>gw_t := (gw_t g0)\<lparr>ts_now := t\<rparr>\<rparr>)))"
      by (rule gateStep_keeps) (use Cons.prems x in simp_all)
    with Cons show ?case by (simp add: x)
  qed simp
  then show ?thesis by (force simp: members_def g0_def)
qed

theorem refused_socket_keeps_the_feed_witness:
  "1 \<in> set (members (CompanyRoom acmeId) (gateRun openGate (morningShift guest) (gateOf (fleetWith []))))"
proof -
  have "1 \<in> set (members (CompanyRoom (wu_company guest)) (gateRun openGate
      ((0, Connected 1 (Some guest)) # [(0, Message 1 None SubscribeToCompany),
        (0, Message 7 (Some wheel) (UpdatePosition (rawAt 30000)))]) (gateOf (fleetWith []))))"
    by (rule refused_socket_keeps_the_feed) (simp_all add: guest_def endsFeed_def)
  then show ?thesis unfolding morningShift_def by (simp add: guest_def)
qed

end
