(* ===== verification/Phone_Queue.thy ===== *)
theory Phone_Queue
  imports Tracking_Feed
begin

text \<open>
  The phone's side of the positions: the persistent queue of \<open>frontend/src/services/offlineQueue.ts\<close>
  and the sending of \<open>frontend/src/hooks/useDriverTracking.ts\<close> (\<open>sendPosition\<close>, \<open>queuePosition\<close>,
  \<open>drainQueue\<close>). A payload is the \<open>raw_position\<close> the gateway validates. The store assigns increasing
  identifiers, so a list in that order is the store. One position waits for its answer at most.
\<close>

definition QUEUE_MAX_SIZE :: nat where "QUEUE_MAX_SIZE = 10000"
definition QUEUE_WARN_SIZE :: nat where "QUEUE_WARN_SIZE = 8000"
definition COMPACT_HORIZON_MS :: ms where "COMPACT_HORIZON_MS = 5 * 60 * 1000"
definition COMPACT_BUCKET_MS :: ms where "COMPACT_BUCKET_MS = 45 * 1000"
definition BATCH_CHUNK_SIZE :: nat where "BATCH_CHUNK_SIZE = 250"
definition LOCATION_FASTEST_INTERVAL_MS :: ms where "LOCATION_FASTEST_INTERVAL_MS = 2000"
definition ACCURACY_REJECT :: real where "ACCURACY_REJECT = 80"

record queued =
  qe_id :: nat
  qe_item :: raw_position
  qe_at :: ms
  qe_compressed :: bool

record pqueue =
  pq_next :: nat
  pq_items :: "queued list"

subsection \<open>The queue\<close>

definition queueSize :: "pqueue \<Rightarrow> nat" where "queueSize q = length (pq_items q)"

definition dequeueOldest :: "pqueue \<Rightarrow> queued option \<times> pqueue" where
  "dequeueOldest q = (case pq_items q of [] \<Rightarrow> (None, q) | x # xs \<Rightarrow> (Some x, q\<lparr>pq_items := xs\<rparr>))"

text \<open>The slice of an old entry; the payload carries its own time.\<close>

definition slotOf :: "ms \<Rightarrow> queued \<Rightarrow> int option" where
  "slotOf cutoff x =
     (case rp_time (qe_item x) of
        None \<Rightarrow> None
      | Some t \<Rightarrow> if 0 < t \<and> t < cutoff then Some (t div COMPACT_BUCKET_MS) else None)"

fun compactScan :: "ms \<Rightarrow> int set \<Rightarrow> queued list \<Rightarrow> queued list" where
  "compactScan cutoff kept [] = []"
| "compactScan cutoff kept (x # xs) =
     (case slotOf cutoff x of
        None \<Rightarrow> x # compactScan cutoff kept xs
      | Some b \<Rightarrow> if b \<in> kept then compactScan cutoff kept xs
                  else x\<lparr>qe_compressed := True\<rparr> # compactScan cutoff (insert b kept) xs)"

definition compactOldestPositions :: "ms \<Rightarrow> pqueue \<Rightarrow> pqueue" where
  "compactOldestPositions now q = q\<lparr>pq_items := compactScan (now - COMPACT_HORIZON_MS) {} (pq_items q)\<rparr>"

record enqueue_result =
  er_droppedOldest :: bool
  er_nearCapacity :: bool

definition addEntry :: "ms \<Rightarrow> raw_position \<Rightarrow> pqueue \<Rightarrow> pqueue" where
  "addEntry now r q = q\<lparr>pq_next := Suc (pq_next q),
     pq_items := pq_items q @ [\<lparr>qe_id = pq_next q, qe_item = r, qe_at = now, qe_compressed = False\<rparr>]\<rparr>"

definition enqueuePosition :: "ms \<Rightarrow> raw_position \<Rightarrow> pqueue \<Rightarrow> enqueue_result \<times> pqueue" where
  "enqueuePosition now r q =
     (let q1 = (if QUEUE_MAX_SIZE \<le> queueSize q then compactOldestPositions now q else q);
          full = QUEUE_MAX_SIZE \<le> queueSize q1;
          q2 = (if full then snd (dequeueOldest q1) else q1)
      in (\<lparr>er_droppedOldest = full, er_nearCapacity = QUEUE_WARN_SIZE \<le> queueSize q1 + 1\<rparr>, addEntry now r q2))"

definition dequeuePositions :: "nat \<Rightarrow> pqueue \<Rightarrow> queued list" where
  "dequeuePositions limit q = take limit (pq_items q)"

definition deletePositions :: "nat list \<Rightarrow> pqueue \<Rightarrow> pqueue" where
  "deletePositions ids q = q\<lparr>pq_items := filter (\<lambda>x. qe_id x \<notin> set ids) (pq_items q)\<rparr>"

text \<open>One turn of the loop of \<open>flushQueue\<close>, and the loop; \<open>send\<close> answers whether its promise resolved.\<close>

definition flushTurn :: "nat \<Rightarrow> ('w \<Rightarrow> queued list \<Rightarrow> bool \<times> 'w) \<Rightarrow> 'w \<times> pqueue \<Rightarrow> bool \<times> 'w \<times> pqueue" where
  "flushTurn chunk send wq =
     (let xs = dequeuePositions chunk (snd wq) in
      if xs = [] then (False, wq)
      else (let (ok, w) = send (fst wq) xs
            in if ok then (True, w, deletePositions (map qe_id xs) (snd wq)) else (False, w, snd wq)))"

lemma flushTurn_shrinks:
  assumes "flushTurn chunk send wq = (True, wq')"
  shows "length (pq_items (snd wq')) < length (pq_items (snd wq))"
proof -
  let ?xs = "dequeuePositions chunk (snd wq)"
  from assms have ne: "?xs \<noteq> []" and q: "snd wq' = deletePositions (map qe_id ?xs) (snd wq)"
    by (auto simp: flushTurn_def Let_def split: if_splits prod.splits)
  then obtain x where "x \<in> set ?xs" by (cases ?xs) auto
  then have "x \<in> set (pq_items (snd wq))" "qe_id x \<in> set (map qe_id ?xs)"
    by (auto simp: dequeuePositions_def dest: in_set_takeD)
  then show ?thesis unfolding q deletePositions_def by (auto intro: length_filter_less)
qed

function flushQueue :: "nat \<Rightarrow> ('w \<Rightarrow> queued list \<Rightarrow> bool \<times> 'w) \<Rightarrow> 'w \<times> pqueue \<Rightarrow> 'w \<times> pqueue" where
  "flushQueue chunk send wq =
     (case flushTurn chunk send wq of (True, wq') \<Rightarrow> flushQueue chunk send wq' | (False, wq') \<Rightarrow> wq')"
  by pat_completeness auto

termination
  by (relation "measure (\<lambda>(chunk, send, wq). length (pq_items (snd wq)))") (auto dest: flushTurn_shrinks [OF sym])

declare flushQueue.simps [simp del]

subsection \<open>Sending\<close>

record phone =
  ph_queue :: pqueue
  ph_pending :: "raw_position option"
  ph_lastSend :: ms

datatype live_reply = ReplySaved | ReplyRejected reject_reason | ReplyTimeout

definition queuePosition :: "ms \<Rightarrow> raw_position \<Rightarrow> phone \<Rightarrow> phone" where
  "queuePosition now r ph = ph\<lparr>ph_queue := snd (enqueuePosition now r (ph_queue ph))\<rparr>"

text \<open>The flag \<open>isSendingRef\<close> is up exactly while a position waits for its answer.\<close>

definition sendPosition :: "ms \<Rightarrow> bool \<Rightarrow> raw_position \<Rightarrow> phone \<Rightarrow> phone" where
  "sendPosition now online r ph =
     (if ph_pending ph \<noteq> None then queuePosition now r ph
      else if ACCURACY_REJECT \<le> nullish (Option.bind (rp_acc r) num_of) 50 then queuePosition now r ph
      else if now - ph_lastSend ph < LOCATION_FASTEST_INTERVAL_MS then queuePosition now r ph
      else if online then ph\<lparr>ph_lastSend := now, ph_pending := Some r\<rparr>
      else queuePosition now r (ph\<lparr>ph_lastSend := now\<rparr>))"

definition onReply :: "ms \<Rightarrow> live_reply \<Rightarrow> phone \<Rightarrow> phone" where
  "onReply now reply ph =
     (case ph_pending ph of
        None \<Rightarrow> ph
      | Some r \<Rightarrow>
          (let idle = ph\<lparr>ph_pending := None\<rparr> in
           case reply of
             ReplySaved \<Rightarrow> idle
           | ReplyTimeout \<Rightarrow> queuePosition now r idle
           | ReplyRejected why \<Rightarrow> if why = InvalidPayload then idle else queuePosition now r idle))"

text \<open>What becomes of a message: lost on the way, handled but its answer lost, or answered.\<close>

datatype fate = Lost | AckLost | Answered

definition answersOf :: "nat \<Rightarrow> gstate \<Rightarrow> gstate \<Rightarrow> gate_answer list" where
  "answersOf c g g' = map snd (filter (\<lambda>x. fst x = c) (drop (length (gw_answers g)) (gw_answers g')))"

fun replyOf :: "gate_answer list \<Rightarrow> live_reply" where
  "replyOf [] = ReplyTimeout"
| "replyOf (PositionSaved susp # as) = ReplySaved"
| "replyOf (PositionRejected why # as) = ReplyRejected why"
| "replyOf (_ # as) = replyOf as"

text \<open>The promise of \<open>drainQueue\<close>: the first answer that is an acknowledgement or a rejection of this batch.\<close>

fun batchResolved :: "string \<Rightarrow> gate_answer list \<Rightarrow> bool" where
  "batchResolved b [] = False"
| "batchResolved b (PositionsSaved n i # as) = (if i = None \<or> i = Some b then True else batchResolved b as)"
| "batchResolved b (PositionsRejected why i # as) = (if i = None \<or> i = Some b then False else batchResolved b as)"
| "batchResolved b (_ # as) = batchResolved b as"

definition sendBatch ::
    "gate_env \<Rightarrow> nat \<Rightarrow> ws_user \<Rightarrow> gstate \<times> (fate \<times> string) list \<Rightarrow> queued list
       \<Rightarrow> bool \<times> gstate \<times> (fate \<times> string) list" where
  "sendBatch ev c u w xs =
     (case w of (g, []) \<Rightarrow> (False, g, [])
      | (g, (f, b) # fs) \<Rightarrow>
          (let g' = handleBatchPosition ev c u (Some b) (Some (map qe_item xs)) g in
           case f of
             Lost \<Rightarrow> (False, g, fs)
           | AckLost \<Rightarrow> (False, g', fs)
           | Answered \<Rightarrow> (batchResolved b (answersOf c g g'), g', fs)))"

record system =
  sy_phone :: phone
  sy_gate :: gstate

datatype phone_event =
  Acquire ms bool raw_position
| LiveOutcome ms fate
| Drain "(fate \<times> string) list"
| ServerTick ms
| Elsewhere gate_event

text \<open>The phone of driver \<open>u\<close> on socket \<open>c\<close>, and the gateway. \<open>drainQueue\<close> returns at once without a
connection, which an empty list of fates stands for. \<open>Elsewhere\<close> is any event of another socket.\<close>

fun phoneStep :: "gate_env \<Rightarrow> nat \<Rightarrow> ws_user \<Rightarrow> phone_event \<Rightarrow> system \<Rightarrow> system" where
  "phoneStep ev c u (Acquire now online r) y = y\<lparr>sy_phone := sendPosition now online r (sy_phone y)\<rparr>"
| "phoneStep ev c u (LiveOutcome now f) y =
     (case ph_pending (sy_phone y) of
        None \<Rightarrow> y
      | Some r \<Rightarrow>
          (let g' = handlePosition ev c u r (sy_gate y) in
           case f of
             Lost \<Rightarrow> y\<lparr>sy_phone := onReply now ReplyTimeout (sy_phone y)\<rparr>
           | AckLost \<Rightarrow> y\<lparr>sy_phone := onReply now ReplyTimeout (sy_phone y), sy_gate := g'\<rparr>
           | Answered \<Rightarrow> y\<lparr>sy_phone := onReply now (replyOf (answersOf c (sy_gate y) g')) (sy_phone y), sy_gate := g'\<rparr>))"
| "phoneStep ev c u (Drain fates) y =
     (let ((g, left), q) = flushQueue BATCH_CHUNK_SIZE (sendBatch ev c u) ((sy_gate y, fates), ph_queue (sy_phone y))
      in y\<lparr>sy_phone := (sy_phone y)\<lparr>ph_queue := q\<rparr>, sy_gate := g\<rparr>)"
| "phoneStep ev c u (ServerTick now) y = y\<lparr>sy_gate := (sy_gate y)\<lparr>gw_t := (gw_t (sy_gate y))\<lparr>ts_now := now\<rparr>\<rparr>\<rparr>"
| "phoneStep ev c u (Elsewhere e) y = y\<lparr>sy_gate := gateStep ev e (sy_gate y)\<rparr>"

subsection \<open>Compaction keeps the trace\<close>

lemma compactScan_slots:
  "set (List.map_filter (slotOf cutoff) (compactScan cutoff kept xs)) \<union> kept
     = set (List.map_filter (slotOf cutoff) xs) \<union> kept"
proof (induction cutoff kept xs rule: compactScan.induct)
  case (2 cutoff kept x xs)
  have same: "slotOf cutoff (x\<lparr>qe_compressed := True\<rparr>) = slotOf cutoff x" by (simp add: slotOf_def)
  show ?case
  proof (cases "slotOf cutoff x")
    case None
    with "2.IH"(1) show ?thesis by (simp add: List.map_filter_def)
  next
    case (Some b)
    with "2.IH"(2,3) [OF Some] same show ?thesis by (cases "b \<in> kept") (auto simp: List.map_filter_def)
  qed
qed simp

lemma compactScan_recent:
  "filter (\<lambda>x. slotOf cutoff x = None) (compactScan cutoff kept xs) = filter (\<lambda>x. slotOf cutoff x = None) xs"
proof (induction cutoff kept xs rule: compactScan.induct)
  case (2 cutoff kept x xs)
  have "slotOf cutoff (x\<lparr>qe_compressed := True\<rparr>) = slotOf cutoff x" by (simp add: slotOf_def)
  with 2 show ?case by (auto split: option.split)
qed simp

lemma compactScan_items:
  "subseq (map qe_item (compactScan cutoff kept xs)) (map qe_item xs)"
  "subseq (map qe_id (compactScan cutoff kept xs)) (map qe_id xs)"
  by (induction cutoff kept xs rule: compactScan.induct) (auto split: option.split)

lemma compactScan_distinct:
  "distinct (List.map_filter (slotOf cutoff) (compactScan cutoff kept xs))
   \<and> set (List.map_filter (slotOf cutoff) (compactScan cutoff kept xs)) \<inter> kept = {}"
proof (induction cutoff kept xs rule: compactScan.induct)
  case (2 cutoff kept x xs)
  have "slotOf cutoff (x\<lparr>qe_compressed := True\<rparr>) = slotOf cutoff x" by (simp add: slotOf_def)
  with 2 show ?case by (cases "slotOf cutoff x") (auto simp: List.map_filter_def)
qed simp

text \<open>Compaction keeps the trace: the positions of the last five minutes (and those without a usable
time) stay as they are and in their order, every 45 second slice of the older ones that had a position
still has one, exactly one, and nothing is invented or reordered.\<close>

theorem compaction_keeps_every_slice:
  "let cutoff = now - COMPACT_HORIZON_MS; q' = compactOldestPositions now q
   in filter (\<lambda>x. slotOf cutoff x = None) (pq_items q') = filter (\<lambda>x. slotOf cutoff x = None) (pq_items q)
    \<and> set (List.map_filter (slotOf cutoff) (pq_items q')) = set (List.map_filter (slotOf cutoff) (pq_items q))
    \<and> distinct (List.map_filter (slotOf cutoff) (pq_items q'))
    \<and> subseq (map qe_item (pq_items q')) (map qe_item (pq_items q))"
  using compactScan_slots [of "now - COMPACT_HORIZON_MS" "{}" "pq_items q"] compactScan_recent compactScan_items(1)
    compactScan_distinct [of "now - COMPACT_HORIZON_MS" "{}" "pq_items q"]
  by (simp add: compactOldestPositions_def Let_def)

end
