(* ===== verification/Phone_Delivery.thy ===== *)
theory Phone_Delivery
  imports Phone_Queue
begin

text \<open>
  From the phone to the table: what the gateway acknowledges is covered by the table, so nothing the
  phone removes from its queue is lost, and a drain with answers empties the queue.
\<close>

subsection \<open>A batch covers its positions\<close>

definition rowNear :: "tstate \<Rightarrow> ident \<Rightarrow> ms \<Rightarrow> bool" where
  "rowNear s v t \<longleftrightarrow> (\<exists>g\<in>set (ts_positions s). gp_vehicle g = v \<and> \<bar>gp_time g - t\<bar> \<le> 1000)"

definition hasRow :: "gps_position set \<Rightarrow> ident \<Rightarrow> ms \<Rightarrow> bool" where
  "hasRow rows v t \<longleftrightarrow> (\<exists>g\<in>rows. gp_vehicle g = v \<and> gp_time g = t)"

lemma nearTime_row:
  assumes "nearTime t r" and "\<And>u. r = Some u \<Longrightarrow> hasRow rows v u"
  shows "\<exists>g\<in>rows. gp_vehicle g = v \<and> \<bar>gp_time g - t\<bar> \<le> 1000"
  using assms by (cases r) (auto simp: nearTime_def hasRow_def DEDUP_CLOCK_SKEW_S_def abs_minus_commute)

lemma batchFold_covers:
  assumes "\<And>v l. bc_last c v = Some l \<Longrightarrow> hasRow (set (bc_out c) \<union> rows) v (bl_time l)"
    and "\<And>v u. db v = Some u \<Longrightarrow> hasRow rows v u" and "p \<in> set ps"
  shows "\<exists>g\<in>set (bc_out (fold (batchStep driver company db) ps c)) \<union> rows.
    gp_vehicle g = po_vehicle p \<and> \<bar>gp_time g - po_time p\<bar> \<le> 1000"
  using assms(1,3)
proof (induction ps arbitrary: c)
  case (Cons q ps)
  let ?c = "batchStep driver company db q c"
  have grow: "set (bc_out c) \<subseteq> set (bc_out ?c)" "set (bc_out ?c) \<subseteq> set (bc_out (fold (batchStep driver company db) ps ?c))"
    using batchStep_out [of driver company db q c] batchFold_out [of ps driver company db ?c] by fastforce+
  have mono: "hasRow A v t \<Longrightarrow> A \<subseteq> B \<Longrightarrow> hasRow B v t" for A B v t by (auto simp: hasRow_def)
  let ?near = "nearTime (po_time q) (map_option bl_time (bc_last c (po_vehicle q))) \<or> nearTime (po_time q) (db (po_vehicle q))"
  have inv: "hasRow (set (bc_out ?c) \<union> rows) v (bl_time l)" if l: "bc_last ?c v = Some l" for v l
  proof (cases "?near \<or> v \<noteq> po_vehicle q")
    case True
    then have "bc_last c v = Some l" using l by (auto simp: batchStep_def Let_def split: if_splits)
    from mono [OF Cons.prems(1) [OF this]] grow(1) show ?thesis by blast
  next
    case False
    then show ?thesis using l by (auto simp: batchStep_def Let_def hasRow_def rowOf_def)
  qed
  show ?case
  proof (cases "p = q")
    case False
    with Cons.prems(2) have "p \<in> set ps" by simp
    from Cons.IH [OF inv this] show ?thesis by simp
  next
    case True
    have "\<exists>g\<in>set (bc_out ?c) \<union> rows. gp_vehicle g = po_vehicle q \<and> \<bar>gp_time g - po_time q\<bar> \<le> 1000"
    proof (cases ?near)
      case True
      then consider "nearTime (po_time q) (map_option bl_time (bc_last c (po_vehicle q)))" | "nearTime (po_time q) (db (po_vehicle q))"
        by blast
      then have "\<exists>g\<in>set (bc_out c) \<union> rows. gp_vehicle g = po_vehicle q \<and> \<bar>gp_time g - po_time q\<bar> \<le> 1000"
      proof cases
        case 1
        then show ?thesis by (rule nearTime_row) (use Cons.prems(1) in auto)
      next
        case 2
        have "\<exists>g\<in>rows. gp_vehicle g = po_vehicle q \<and> \<bar>gp_time g - po_time q\<bar> \<le> 1000"
          by (rule nearTime_row [OF 2]) (rule assms(2))
        then show ?thesis by blast
      qed
      with grow(1) show ?thesis by blast
    next
      case False
      then show ?thesis by (auto simp: batchStep_def Let_def rowOf_def)
    qed
    with grow(2) True show ?thesis by auto
  qed
qed simp

lemma saveBatch_covers:
  assumes "p \<in> set (validPositions (verifiedDelivery user driver s) (validBatchVehicle company s) ps)"
  shows "rowNear (snd (saveBatch user driver ps company s)) (po_vehicle p) (po_time p)"
proof -
  let ?rows = "set (ts_positions s)" and ?out = "bc_out (batchRows user driver company ps s)"
  have last: "hasRow ?rows v (gp_time g)" if "getLastPosition v False s = Some g" for v g
    using that unfolding getLastPosition_def hasRow_def by (auto dest: newest_spec)
  have start: "hasRow (set (bc_out (batchStart s)) \<union> ?rows) v (bl_time l)" if l: "bc_last (batchStart s) v = Some l" for v l
    using l last by (auto simp: batchStart_def lastOf_def)
  have db: "hasRow ?rows v u" if "map_option gp_time (getLastPosition v False s) = Some u" for v u
    using that last by auto
  have "\<exists>g\<in>set ?out \<union> ?rows. gp_vehicle g = po_vehicle p \<and> \<bar>gp_time g - po_time p\<bar> \<le> 1000"
    unfolding batchRows_def
    by (rule batchFold_covers [where db = "\<lambda>v. map_option gp_time (getLastPosition v False s)"])
      (use start db assms in simp_all)
  then obtain g where g: "g \<in> set ?out \<union> ?rows" "gp_vehicle g = po_vehicle p" "\<bar>gp_time g - po_time p\<bar> \<le> 1000"
    by blast
  let ?s' = "snd (saveBatch user driver ps company s)"
  have "gpKey g \<in> gpKey ` set (ts_positions ?s')"
    using g(1) saveBatch_positions(1,4) [of user driver ps company s] by auto
  then obtain h where "h \<in> set (ts_positions ?s')" "gpKey h = gpKey g" by auto
  with g(2,3) show ?thesis by (auto simp: rowNear_def gpKey_def)
qed

lemma sortOut_ok: "set (fst (sortOut i xs)) = {p. Inr p \<in> set xs}"
  by (induction i xs rule: sortOut.induct) (auto simp: split_beta)

subsection \<open>What became of a position\<close>

text \<open>A position is settled when the server refuses it for what it is, does not follow its vehicle by
phone, or has a row of the vehicle within a second.\<close>

definition settled :: "(ident \<Rightarrow> bool) \<Rightarrow> ident \<Rightarrow> tstate \<Rightarrow> raw_position \<Rightarrow> bool" where
  "settled U company s r \<longleftrightarrow> (\<exists>now. case validateUpdate U now r of
     Inl bad \<Rightarrow> True
   | Inr p \<Rightarrow> shortId (po_vehicle p) \<or> \<not> validBatchVehicle company s (po_vehicle p)
       \<or> rowNear s (po_vehicle p) (po_time p))"

lemma settled_mono:
  assumes "settled U company s r" and "sameRefs s s'" and "set (ts_positions s) \<subseteq> set (ts_positions s')"
  shows "settled U company s' r"
proof -
  have "validBatchVehicle company s' = validBatchVehicle company s"
    using assms(2) by (simp add: fun_eq_iff validBatchVehicle_def sameRefs_def)
  moreover have "rowNear s v t \<Longrightarrow> rowNear s' v t" for v t using assms(3) by (auto simp: rowNear_def)
  ultimately show ?thesis using assms(1) unfolding settled_def by (auto split: sum.splits)
qed

lemma batch_settles:
  assumes "validateAndSaveBatch U m user company (Some rs) s = (BatchOk saved n driver rejected, t)" and "r \<in> set rs"
  shows "settled U company t r"
proof -
  obtain l s1 where rate: "isBatchRateLimited m user s = (l, s1)" by fastforce
  obtain x xs where rs: "rs = x # xs" using assms(2) by (cases rs) auto
  obtain ok bad where out: "sortOut 0 (map (validateUpdate U (ts_now s1)) rs) = (ok, bad)" by fastforce
  note run = assms(1) [unfolded validateAndSaveBatch_def rate rs]
  have refs: "sameRefs s1 t" if "t = snd (saveBatch user d ok company s1)" for d using that saveBatch_refs by simp
  show ?thesis
  proof (cases "validateUpdate U (ts_now s1) r")
    case (Inl b)
    then show ?thesis by (auto simp: settled_def intro!: exI [of _ "ts_now s1"])
  next
    case (Inr p)
    then have "p \<in> set ok" using sortOut_ok [of 0 "map (validateUpdate U (ts_now s1)) rs"] assms(2) out
      by (force simp: image_iff)
    with run out rs obtain d where t: "t = snd (saveBatch user d ok company s1)"
      by (auto simp: split_beta split: if_splits option.splits)
    let ?V = "validBatchVehicle company s1"
    have V: "validBatchVehicle company t = ?V"
      using refs [OF t] by (simp add: fun_eq_iff validBatchVehicle_def sameRefs_def)
    have "rowNear t (po_vehicle p) (po_time p)" if "\<not> shortId (po_vehicle p)" "?V (po_vehicle p)"
    proof -
      have "p\<lparr>po_delivery := effectiveDelivery (verifiedDelivery user d s1) (po_delivery p)\<rparr>
          \<in> set (validPositions (verifiedDelivery user d s1) ?V ok)"
        using that \<open>p \<in> set ok\<close> by (auto simp: validPositions_def)
      from saveBatch_covers [OF this] show ?thesis by (simp add: t)
    qed
    then have "shortId (po_vehicle p) \<or> \<not> ?V (po_vehicle p) \<or> rowNear t (po_vehicle p) (po_time p)" by blast
    with Inr V show ?thesis by (simp add: settled_def exI [of _ "ts_now s1"])
  qed
qed

subsection \<open>The queue is emptied of settled positions only\<close>

definition grows :: "gstate \<Rightarrow> gstate \<Rightarrow> bool" where
  "grows g g' \<longleftrightarrow> sameRefs (gw_t g) (gw_t g') \<and> set (ts_positions (gw_t g)) \<subseteq> set (ts_positions (gw_t g'))"

lemma grows_refl [simp]: "grows g g"
  by (simp add: grows_def)

lemma grows_trans: "grows g h \<Longrightarrow> grows h k \<Longrightarrow> grows g k"
  unfolding grows_def by (meson sameRefs_trans subset_trans)

lemma settled_grows: "settled U company (gw_t g) r \<Longrightarrow> grows g g' \<Longrightarrow> settled U company (gw_t g') r"
  by (auto simp: grows_def intro: settled_mono)

lemma outcome_grows: "liveOutcome c g new as out g' \<Longrightarrow> grows g g'"
  by (auto simp: liveOutcome_def grows_def)

lemma outcome_answers: "liveOutcome c g new as out g' \<Longrightarrow> answersOf c g g' = as"
  by (simp add: liveOutcome_def answersOf_def comp_def)

lemma batch_resolved:
  "batchResolved b (batchAnswers (Some b) res) \<Longrightarrow> res = BatchEmpty \<or> (\<exists>saved n driver rejected. res = BatchOk saved n driver rejected)"
  by (cases res) auto

lemma sendBatch_settles:
  assumes "wu_role u = DriverRole" and "xs \<noteq> []" and "sendBatch ev c u w xs = (ok, w')"
  shows "grows (fst w) (fst w')"
    and "ok \<Longrightarrow> \<forall>x\<in>set xs. settled (ge_uuid ev) (wu_company u) (gw_t (fst w')) (qe_item x)"
proof -
  obtain g fs where w: "w = (g, fs)" by fastforce
  have "grows g (fst w') \<and> (ok \<longrightarrow> (\<forall>x\<in>set xs. settled (ge_uuid ev) (wu_company u) (gw_t (fst w')) (qe_item x)))"
  proof (cases fs)
    case Nil
    with assms(3) w show ?thesis by (auto simp: sendBatch_def)
  next
    case (Cons y fs')
    obtain f b where y: "y = (f, b)" by fastforce
    let ?g = "handleBatchPosition ev c u (Some b) (Some (map qe_item xs)) g"
    obtain res t where run: "validateAndSaveBatch (ge_uuid ev) (ge_batchMax ev) (wu_id u) (wu_company u) (Some (map qe_item xs)) (gw_t g) = (res, t)"
      by fastforce
    note out = handleBatch_outcome [OF assms(1) run, of c "Some b"]
    have ans: "answersOf c g ?g = batchAnswers (Some b) res" by (rule outcome_answers [OF out(2)])
    have ne: "res \<noteq> BatchEmpty"
      using run assms(2) by (cases xs) (auto simp: validateAndSaveBatch_def split_beta Let_def split: if_splits option.splits)
    have "settled (ge_uuid ev) (wu_company u) (gw_t ?g) (qe_item x)"
      if "batchResolved b (batchAnswers (Some b) res)" "x \<in> set xs" for x
    proof -
      from batch_resolved [OF that(1)] ne obtain saved n driver rejected
        where "res = BatchOk saved n driver rejected" by blast
      with run batch_settles [of "ge_uuid ev" "ge_batchMax ev" "wu_id u" "wu_company u" "map qe_item xs"] that(2) out(1)
      show ?thesis by auto
    qed
    with assms(3) w Cons y ans outcome_grows [OF out(2)] show ?thesis
      by (cases f) (auto simp: sendBatch_def Let_def)
  qed
  then show "grows (fst w) (fst w')"
    and "ok \<Longrightarrow> \<forall>x\<in>set xs. settled (ge_uuid ev) (wu_company u) (gw_t (fst w')) (qe_item x)"
    by (simp_all add: w)
qed

definition queueOk :: "pqueue \<Rightarrow> bool" where
  "queueOk q \<longleftrightarrow> distinct (map qe_id (pq_items q)) \<and> (\<forall>x\<in>set (pq_items q). qe_id x < pq_next q)"

definition keptOrSettled :: "gate_env \<Rightarrow> ws_user \<Rightarrow> raw_position set \<Rightarrow> pqueue \<Rightarrow> gstate \<Rightarrow> bool" where
  "keptOrSettled ev u R q g \<longleftrightarrow>
     (\<forall>r\<in>R. r \<in> qe_item ` set (pq_items q) \<or> settled (ge_uuid ev) (wu_company u) (gw_t g) r)"

lemma flushTurn_keeps:
  assumes "wu_role u = DriverRole" and "flushTurn chunk (sendBatch ev c u) (w, q) = (b, w', q')"
    and "queueOk q" and "keptOrSettled ev u R q (fst w)"
  shows "queueOk q' \<and> keptOrSettled ev u R q' (fst w') \<and> grows (fst w) (fst w')
       \<and> length (pq_items q') \<le> length (pq_items q)"
proof -
  let ?xs = "dequeuePositions chunk q"
  show ?thesis
  proof (cases "?xs = []")
    case True
    then have "w' = w \<and> q' = q" using assms(2) by (simp add: flushTurn_def)
    with assms(3,4) show ?thesis by simp
  next
    case False
    obtain ok v where send: "sendBatch ev c u w ?xs = (ok, v)" by (cases "sendBatch ev c u w ?xs") blast
    note ss = sendBatch_settles [OF assms(1) False send]
    have later: "keptOrSettled ev u R q (fst v)"
      using assms(4) settled_grows [OF _ ss(1)] by (auto simp: keptOrSettled_def)
    show ?thesis
    proof (cases ok)
      case nope: False
      then have "w' = v \<and> q' = q" using assms(2) False send by (simp add: flushTurn_def)
      with assms(3) later ss(1) show ?thesis by simp
    next
      case True
      then have new: "w' = v" "q' = deletePositions (map qe_id ?xs) q"
        using assms(2) False send by (simp_all add: flushTurn_def)
      have sub: "set ?xs \<subseteq> set (pq_items q)" by (auto simp: dequeuePositions_def dest: in_set_takeD)
      have "x \<in> set ?xs" if "x \<in> set (pq_items q)" "qe_id x \<in> set (map qe_id ?xs)" for x
      proof -
        from that(2) obtain y where y: "y \<in> set ?xs" "qe_id y = qe_id x" by auto
        with sub that(1) assms(3) have "y = x" by (auto simp: queueOk_def distinct_map dest: inj_onD)
        with y show ?thesis by simp
      qed
      then have left: "set (pq_items q) - set ?xs \<subseteq> set (pq_items q')"
        unfolding new by (auto simp: deletePositions_def)
      have "keptOrSettled ev u R q' (fst w')"
        unfolding keptOrSettled_def
      proof
        fix r assume "r \<in> R"
        with later consider "settled (ge_uuid ev) (wu_company u) (gw_t (fst v)) r"
          | x where "x \<in> set (pq_items q)" "r = qe_item x" by (auto simp: keptOrSettled_def)
        then show "r \<in> qe_item ` set (pq_items q') \<or> settled (ge_uuid ev) (wu_company u) (gw_t (fst w')) r"
        proof cases
          case (2 x)
          then show ?thesis using ss(2) [OF True] left new(1) by (cases "x \<in> set ?xs") auto
        qed (simp add: new)
      qed
      moreover have "queueOk q'"
        using assms(3) by (auto simp: queueOk_def new deletePositions_def distinct_map inj_on_def)
      ultimately show ?thesis using ss(1) by (simp add: new deletePositions_def)
    qed
  qed
qed

lemma flushQueue_keeps:
  assumes "wu_role u = DriverRole" and "flushQueue chunk (sendBatch ev c u) (w, q) = (w', q')"
    and "queueOk q" and "keptOrSettled ev u R q (fst w)"
  shows "queueOk q' \<and> keptOrSettled ev u R q' (fst w') \<and> grows (fst w) (fst w')
       \<and> length (pq_items q') \<le> length (pq_items q)"
  using assms(2-4)
proof (induction "length (pq_items q)" arbitrary: w q rule: less_induct)
  case less
  obtain b v p where turn: "flushTurn chunk (sendBatch ev c u) (w, q) = (b, v, p)" by (metis surj_pair)
  note step = flushTurn_keeps [OF assms(1) turn less.prems(2,3)]
  show ?case
  proof (cases b)
    case False
    then have "w' = v \<and> q' = p" using less.prems(1) turn by (simp add: flushQueue.simps [of _ _ "(w, q)"])
    with step show ?thesis by simp
  next
    case True
    then have rest: "flushQueue chunk (sendBatch ev c u) (v, p) = (w', q')"
      using less.prems(1) turn by (simp add: flushQueue.simps [of _ _ "(w, q)"])
    have "length (pq_items p) < length (pq_items q)" using flushTurn_shrinks [of chunk "sendBatch ev c u" "(w, q)"] turn True by simp
    from less.hyps [OF this rest] step grows_trans show ?thesis by (meson le_trans)
  qed
qed

subsection \<open>No position is lost\<close>

lemma live_settles:
  fixes ev c u raw g
  defines "g' \<equiv> handlePosition ev c u raw g"
  assumes "wu_role u = DriverRole"
  shows "grows g g'"
    and "replyOf (answersOf c g g') \<in> {ReplySaved, ReplyRejected InvalidPayload}
      \<Longrightarrow> settled (ge_uuid ev) (wu_company u) (gw_t g') raw"
proof -
  have "\<exists>new as out. liveOutcome c g new as out g'
    \<and> (replyOf as \<in> {ReplySaved, ReplyRejected InvalidPayload} \<longrightarrow> settled (ge_uuid ev) (wu_company u) (gw_t g') raw)"
    using handlePosition_outcome [OF assms(2), of c g ev raw]
  proof (elim disjE exE conjE)
    fix r
    assume "liveOutcome c g [] [PositionRejected r] [] (handlePosition ev c u raw g)"
      and "r = InvalidPayload \<longrightarrow> (\<exists>bad. validateUpdate (ge_uuid ev) (ts_now (gw_t g)) raw = Inl bad)"
    then show ?thesis unfolding g'_def
      by (intro exI conjI) (auto simp: settled_def intro: exI [of _ "ts_now (gw_t g)"])
  next
    assume "liveOutcome c g [] [] [] (handlePosition ev c u raw g)"
    then show ?thesis unfolding g'_def by (intro exI conjI) auto
  next
    fix dto t1 dr
    assume valid: "validateUpdate (ge_uuid ev) (ts_now (gw_t g)) raw = Inr dto" and t1: "sameTables (gw_t g) t1"
      and eq: "handlePosition ev c u raw g = storeLive ev c u dr dto (g\<lparr>gw_t := t1\<rparr>)"
    let ?g = "g\<lparr>gw_t := t1\<rparr>" and ?s = "storeLive ev c u dr dto (g\<lparr>gw_t := t1\<rparr>)"
    have cov: "settled (ge_uuid ev) (wu_company u) (gw_t ?s) raw"
      if "savePosition d (dto\<lparr>po_speed := x\<rparr>) co src y = (Some p, t)" "ts_positions (gw_t ?s) = ts_positions t1 @ [p]" for d x co src y p t
    proof -
      have "gp_vehicle p = po_vehicle dto \<and> gp_time p = po_time dto"
        using savePosition_cases(2) [OF that(1) refl] by (auto simp: rowOf_def)
      with that(2) have "rowNear (gw_t ?s) (po_vehicle dto) (po_time dto)" by (auto simp: rowNear_def)
      with valid show ?thesis by (auto simp: settled_def intro!: exI [of _ "ts_now (gw_t g)"])
    qed
    consider "liveOutcome c ?g [] [PositionRejected RejectedRow] [] ?s"
      | p where "liveOutcome c ?g [p] [] [] ?s"
      | p out where "liveOutcome c ?g [p] [PositionSaved (gp_suspect p)] out ?s"
          "settled (ge_uuid ev) (wu_company u) (gw_t ?s) raw"
      using storeLive_outcome [of c ?g ev u dr dto]
    proof (elim disjE exE conjE)
      fix p t
      assume sv: "savePosition (Some (td_id dr)) (dto\<lparr>po_speed := Some (liveSpeed (gw_windows ?g (po_vehicle dto)) dto (gw_t ?g))\<rparr>)
            (Some (wu_company u)) Phone (gw_t ?g) = (Some p, t)"
        and late: "isLate dto (gw_t ?g) \<longrightarrow> liveOutcome c ?g [p] [] [] ?s"
        and ontime: "\<not> isLate dto (gw_t ?g) \<longrightarrow> liveOutcome c ?g [p] [PositionSaved (gp_suspect p)]
              (map (\<lambda>r. (r, members r ?g, liveMessage ev dr p t)) (liveRooms u dto)) ?s"
      show ?thesis
      proof (cases "isLate dto (gw_t ?g)")
        case True
        with late that(2) show ?thesis by blast
      next
        case False
        with ontime have lo: "liveOutcome c ?g [p] [PositionSaved (gp_suspect p)]
              (map (\<lambda>r. (r, members r ?g, liveMessage ev dr p t)) (liveRooms u dto)) ?s" by blast
        then have "ts_positions (gw_t ?s) = ts_positions t1 @ [p]" by (simp add: liveOutcome_def)
        from that(3) [OF lo cov [OF sv this]] show ?thesis .
      qed
    qed blast
    then show ?thesis
    proof cases
      case 1
      from liveOutcome_from [OF t1 1] show ?thesis unfolding g'_def eq by (intro exI conjI) auto
    next
      case (2 p)
      from liveOutcome_from [OF t1 2] show ?thesis unfolding g'_def eq by (intro exI conjI) auto
    next
      case (3 p out)
      from liveOutcome_from [OF t1 3(1)] 3(2) show ?thesis unfolding g'_def eq by (intro exI conjI) auto
    qed
  qed
  then obtain new as out where o: "liveOutcome c g new as out g'"
    and "replyOf as \<in> {ReplySaved, ReplyRejected InvalidPayload} \<longrightarrow> settled (ge_uuid ev) (wu_company u) (gw_t g') raw"
    by blast
  then show "grows g g'"
    and "replyOf (answersOf c g g') \<in> {ReplySaved, ReplyRejected InvalidPayload}
      \<Longrightarrow> settled (ge_uuid ev) (wu_company u) (gw_t g') raw"
    using outcome_grows [OF o] outcome_answers [OF o] by simp_all
qed

lemma enqueue_room:
  assumes "queueSize q < QUEUE_MAX_SIZE"
  shows "pq_items (snd (enqueuePosition now r q)) = pq_items q @ [\<lparr>qe_id = pq_next q, qe_item = r, qe_at = now, qe_compressed = False\<rparr>]"
    and "pq_next (snd (enqueuePosition now r q)) = Suc (pq_next q)"
  using assms by (simp_all add: enqueuePosition_def addEntry_def Let_def)

lemma enqueue_keeps:
  assumes "queueSize q < QUEUE_MAX_SIZE" and "queueOk q" and "keptOrSettled ev u R q g"
  shows "queueOk (snd (enqueuePosition now r q))" "keptOrSettled ev u (insert r R) (snd (enqueuePosition now r q)) g"
  using assms(2,3) unfolding queueOk_def keptOrSettled_def by (auto simp: enqueue_room [OF assms(1)])

lemma gateStep_grows: "grows g (gateStep ev e g)"
proof (cases e)
  case (Message c v m)
  show ?thesis
  proof (cases v)
    case (Some u)
    let ?g = "g\<lparr>gw_user := (gw_user g)(c \<mapsto> u)\<rparr>"
    have eq: "grows ?g g' = grows g g'" for g' by (simp add: grows_def)
    show ?thesis
    proof (cases m)
      case (UpdatePosition raw)
      have "grows ?g (handlePosition ev c u raw ?g)"
        using live_settles(1) [where u = u and g = ?g and ev = ev and c = c and raw = raw] by (cases "wu_role u = DriverRole") (simp_all add: handlePosition_def)
      then show ?thesis by (simp add: Message Some UpdatePosition eq)
    next
      case (BatchPosition b raws)
      obtain res t where run: "validateAndSaveBatch (ge_uuid ev) (ge_batchMax ev) (wu_id u) (wu_company u) raws (gw_t ?g) = (res, t)"
        by fastforce
      have "grows ?g (handleBatchPosition ev c u b raws ?g)"
        using outcome_grows [OF handleBatch_outcome(2) [OF _ run, of c b]]
        by (cases "wu_role u = DriverRole") (simp_all add: handleBatchPosition_def)
      then show ?thesis by (simp add: Message Some BatchPosition eq)
    qed (auto simp: Message Some grows_def handleSnooze_def snoozeProximity_def sameRefs_def handleSubscribeToDelivery_def
        handleSubscribeToCompany_def handleUnsubscribeFromDelivery_def handleUnsubscribeFromCompany_def
        joinRoom_def leaveRoom_def split: option.split)
  qed (simp add: Message grows_def)
qed (auto simp: grows_def handleConnection_def handleDisconnect_def driverCleanup_def dataUpdateListener_def joinRoom_def
    Let_def split: option.split)

definition sysOk :: "gate_env \<Rightarrow> ws_user \<Rightarrow> raw_position set \<Rightarrow> nat \<Rightarrow> system \<Rightarrow> bool" where
  "sysOk ev u R n y \<longleftrightarrow> queueOk (ph_queue (sy_phone y)) \<and> queueSize (ph_queue (sy_phone y)) \<le> n
     \<and> keptOrSettled ev u {r \<in> R. ph_pending (sy_phone y) \<noteq> Some r} (ph_queue (sy_phone y)) (sy_gate y)"

lemma kept_subset: "keptOrSettled ev u R q g \<Longrightarrow> S \<subseteq> R \<Longrightarrow> keptOrSettled ev u S q g"
  by (auto simp: keptOrSettled_def)

lemma kept_grows: "keptOrSettled ev u R q g \<Longrightarrow> grows g g' \<Longrightarrow> keptOrSettled ev u R q g'"
  using settled_grows by (auto simp: keptOrSettled_def)

text \<open>A position goes into the queue.\<close>

lemma queue_ok:
  assumes "queueOk (ph_queue ph)" and "queueSize (ph_queue ph) \<le> n" and "n < QUEUE_MAX_SIZE"
    and "keptOrSettled ev u S (ph_queue ph) g" and "{x \<in> R. ph_pending ph \<noteq> Some x} \<subseteq> insert r S"
  shows "sysOk ev u R (Suc n) \<lparr>sy_phone = queuePosition now r ph, sy_gate = g\<rparr>"
proof -
  have room: "queueSize (ph_queue ph) < QUEUE_MAX_SIZE" using assms(2,3) by simp
  show ?thesis
    using enqueue_keeps [OF room assms(1,4), where now = now and r = r] assms(2) kept_subset [OF _ assms(5)]
    by (simp add: sysOk_def queuePosition_def queueSize_def enqueue_room [OF room])
qed

lemma onReply_ok:
  assumes "sysOk ev u R n y" and "n < QUEUE_MAX_SIZE" and "grows (sy_gate y) g'"
    and "ph_pending (sy_phone y) = Some r"
    and "reply \<in> {ReplySaved, ReplyRejected InvalidPayload} \<Longrightarrow> settled (ge_uuid ev) (wu_company u) (gw_t g') r"
  shows "sysOk ev u R (Suc n) \<lparr>sy_phone = onReply now reply (sy_phone y), sy_gate = g'\<rparr>"
proof -
  let ?ph = "sy_phone y" and ?S = "{x \<in> R. ph_pending (sy_phone y) \<noteq> Some x}"
  have old: "queueOk (ph_queue ?ph)" "queueSize (ph_queue ?ph) \<le> n" "keptOrSettled ev u ?S (ph_queue ?ph) g'"
    using assms(1) kept_grows [OF _ assms(3)] by (simp_all add: sysOk_def)
  let ?idle = "?ph\<lparr>ph_pending := None\<rparr>"
  have q: "sysOk ev u R (Suc n) \<lparr>sy_phone = queuePosition now r ?idle, sy_gate = g'\<rparr>"
    by (rule queue_ok [OF _ _ assms(2), where S = ?S]) (use old assms(4) in auto)
  have settle: "sysOk ev u R (Suc n) \<lparr>sy_phone = ?idle, sy_gate = g'\<rparr>" if "settled (ge_uuid ev) (wu_company u) (gw_t g') r"
    using old that assms(4) unfolding sysOk_def keptOrSettled_def by auto
  show ?thesis
    using q settle assms(4,5) by (cases reply) (auto simp: onReply_def Let_def)
qed

lemma phoneStep_ok:
  assumes "wu_role u = DriverRole" and "sysOk ev u R n y" and "n < QUEUE_MAX_SIZE"
  shows "sysOk ev u (case e of Acquire now online r \<Rightarrow> insert r R | _ \<Rightarrow> R) (Suc n) (phoneStep ev c u e y)"
proof (cases e)
  case (Acquire now online r)
  let ?ph = "sy_phone y" and ?S = "{x \<in> R. ph_pending (sy_phone y) \<noteq> Some x}"
  have old: "queueOk (ph_queue ?ph)" "queueSize (ph_queue ?ph) \<le> n" "keptOrSettled ev u ?S (ph_queue ?ph) (sy_gate y)"
    using assms(2) by (simp_all add: sysOk_def)
  have q: "sysOk ev u (insert r R) (Suc n) \<lparr>sy_phone = queuePosition now r p, sy_gate = sy_gate y\<rparr>"
    if "ph_queue p = ph_queue ?ph" "ph_pending p = ph_pending ?ph" for p
    by (rule queue_ok [OF _ _ assms(3), where S = ?S]) (use old that in auto)
  have direct: "sysOk ev u (insert r R) (Suc n) (y\<lparr>sy_phone := ?ph\<lparr>ph_lastSend := now, ph_pending := Some r\<rparr>\<rparr>)"
    if "ph_pending ?ph = None"
    using old that by (auto simp: sysOk_def intro: kept_subset)
  have rec: "y\<lparr>sy_phone := p\<rparr> = \<lparr>sy_phone = p, sy_gate = sy_gate y\<rparr>" for p by simp
  show ?thesis
    using q direct by (simp add: Acquire sendPosition_def rec del: system.surjective)
next
  case (LiveOutcome now f)
  show ?thesis
  proof (cases "ph_pending (sy_phone y)")
    case None
    with assms(2) show ?thesis by (simp add: LiveOutcome sysOk_def)
  next
    case (Some r)
    let ?g = "handlePosition ev c u r (sy_gate y)"
    note live = live_settles [OF assms(1), where g = "sy_gate y" and ev = ev and c = c and raw = r]
    have rec: "y\<lparr>sy_phone := p\<rparr> = \<lparr>sy_phone = p, sy_gate = sy_gate y\<rparr>"
      "y\<lparr>sy_phone := p, sy_gate := g\<rparr> = \<lparr>sy_phone = p, sy_gate = g\<rparr>" for p g by simp_all
    show ?thesis
    proof (cases f)
      case Lost
      have "sysOk ev u R (Suc n) \<lparr>sy_phone = onReply now ReplyTimeout (sy_phone y), sy_gate = sy_gate y\<rparr>"
        by (rule onReply_ok [OF assms(2,3) _ Some]) simp_all
      then show ?thesis by (simp add: LiveOutcome Some Lost rec)
    next
      case AckLost
      have "sysOk ev u R (Suc n) \<lparr>sy_phone = onReply now ReplyTimeout (sy_phone y), sy_gate = ?g\<rparr>"
        by (rule onReply_ok [OF assms(2,3) live(1) Some]) simp
      then show ?thesis by (simp add: LiveOutcome Some AckLost Let_def rec)
    next
      case Answered
      have "sysOk ev u R (Suc n) \<lparr>sy_phone = onReply now (replyOf (answersOf c (sy_gate y) ?g)) (sy_phone y), sy_gate = ?g\<rparr>"
        by (rule onReply_ok [OF assms(2,3) live(1) Some live(2)])
      then show ?thesis by (simp add: LiveOutcome Some Answered Let_def rec)
    qed
  qed
next
  case (Drain fates)
  obtain w q where flush: "flushQueue BATCH_CHUNK_SIZE (sendBatch ev c u) ((sy_gate y, fates), ph_queue (sy_phone y)) = (w, q)"
    by (metis surj_pair)
  from flushQueue_keeps [OF assms(1) flush, where R = "{r \<in> R. ph_pending (sy_phone y) \<noteq> Some r}"] assms(2)
  show ?thesis by (simp add: Drain flush split_beta sysOk_def queueSize_def)
next
  case (ServerTick now)
  have tick: "grows (sy_gate y) ((sy_gate y)\<lparr>gw_t := (gw_t (sy_gate y))\<lparr>ts_now := now\<rparr>\<rparr>)"
    by (simp add: grows_def sameRefs_def)
  with assms(2) show ?thesis by (simp add: ServerTick sysOk_def kept_grows [OF _ tick])
next
  case (Elsewhere x)
  with assms(2) show ?thesis by (simp add: sysOk_def kept_grows [OF _ gateStep_grows])
qed



definition idleSystem :: system where
  "idleSystem = \<lparr>sy_phone = \<lparr>ph_queue = \<lparr>pq_next = 0, pq_items = []\<rparr>, ph_pending = None, ph_lastSend = 0\<rparr>,
     sy_gate = gateOf (fleetWith [])\<rparr>"


subsection \<open>A drain that is answered empties the queue\<close>

lemma filter_beyond_take:
  "distinct (map f xs) \<Longrightarrow> filter (\<lambda>x. f x \<notin> f ` set (take n xs)) xs = drop n xs"
proof (induction xs arbitrary: n)
  case (Cons x xs)
  show ?case
  proof (cases n)
    case (Suc m)
    have "filter (\<lambda>y. f y \<notin> f ` set (take n (x # xs))) xs = filter (\<lambda>y. f y \<notin> f ` set (take m xs)) xs"
      using Cons.prems by (intro filter_cong) (auto simp: Suc image_iff)
    with Cons show ?thesis by (simp add: Suc)
  qed simp
qed simp

lemma deletePositions_taken:
  "queueOk q \<Longrightarrow> pq_items (deletePositions (map qe_id (dequeuePositions n q)) q) = drop n (pq_items q)"
  by (simp add: deletePositions_def dequeuePositions_def queueOk_def filter_beyond_take)

lemma queueOk_delete: "queueOk q \<Longrightarrow> queueOk (deletePositions ids q)"
  by (auto simp: queueOk_def deletePositions_def distinct_map inj_on_def)

text \<open>The server knows the driver and does not limit the rate.\<close>

definition serves :: "gate_env \<Rightarrow> ws_user \<Rightarrow> gstate \<Rightarrow> bool" where
  "serves ev u g \<longleftrightarrow> wu_role u = DriverRole \<and> ge_batchMax ev \<le> 0 \<and> findDriverByUserId (wu_id u) (gw_t g) \<noteq> None"

lemma serves_grows: "serves ev u g \<Longrightarrow> grows g g' \<Longrightarrow> serves ev u g'"
  by (simp add: serves_def grows_def sameRefs_def findDriverByUserId_def)

lemma sendBatch_answered:
  assumes "serves ev u g" and "xs \<noteq> []"
  shows "\<exists>g'. sendBatch ev c u (g, (Answered, b) # fs) xs = (True, g', fs)"
proof -
  let ?raws = "Some (map qe_item xs)" and ?g = "handleBatchPosition ev c u (Some b) (Some (map qe_item xs)) g"
  obtain res t where run: "validateAndSaveBatch (ge_uuid ev) (ge_batchMax ev) (wu_id u) (wu_company u) ?raws (gw_t g) = (res, t)"
    by fastforce
  have role: "wu_role u = DriverRole" using assms(1) by (simp add: serves_def)
  have "answersOf c g ?g = batchAnswers (Some b) res"
    by (rule outcome_answers [OF handleBatch_outcome(2) [OF role run]])
  moreover have "\<exists>saved n driver rejected. res = BatchOk saved n driver rejected"
    using run assms by (cases xs)
      (auto simp: validateAndSaveBatch_def isBatchRateLimited_def serves_def split_beta split: if_splits option.splits)
  ultimately show ?thesis by (auto simp: sendBatch_def Let_def)
qed

lemma flushQueue_empties:
  assumes "serves ev u (fst w)" and "queueOk q" and "\<forall>x\<in>set (snd w). fst x = Answered"
    and "0 < chunk" and "queueSize q \<le> chunk * length (snd w)"
  shows "pq_items (snd (flushQueue chunk (sendBatch ev c u) (w, q))) = []"
  using assms(1-3,5)
proof (induction "length (pq_items q)" arbitrary: w q rule: less_induct)
  case less
  show ?case
  proof (cases "pq_items q")
    case Nil
    then show ?thesis by (simp add: flushQueue.simps [of _ _ "(w, q)"] flushTurn_def dequeuePositions_def)
  next
    case (Cons x xs)
    obtain g fs where w: "w = (g, fs)" by fastforce
    obtain b fs' where fs: "fs = (Answered, b) # fs'"
      using less.prems(3,4) Cons by (cases fs) (auto simp: w queueSize_def)
    let ?xs = "dequeuePositions chunk q" and ?q = "deletePositions (map qe_id (dequeuePositions chunk q)) q"
    have ne: "?xs \<noteq> []" using Cons assms(4) by (simp add: dequeuePositions_def)
    obtain g' where sent: "sendBatch ev c u w ?xs = (True, g', fs')"
      using sendBatch_answered [of ev u g ?xs c b fs'] less.prems(1) ne by (auto simp: w fs)
    have role: "wu_role u = DriverRole" using less.prems(1) by (simp add: serves_def)
    have turn: "flushTurn chunk (sendBatch ev c u) (w, q) = (True, (g', fs'), ?q)"
      using sent ne by (simp add: flushTurn_def)
    have items: "pq_items ?q = drop chunk (pq_items q)" by (rule deletePositions_taken [OF less.prems(2)])
    have "pq_items (snd (flushQueue chunk (sendBatch ev c u) ((g', fs'), ?q))) = []"
    proof (rule less.hyps)
      show "length (pq_items ?q) < length (pq_items q)" using items Cons assms(4) by simp
      show "serves ev u (fst (g', fs'))"
        using serves_grows [OF _ sendBatch_settles(1) [OF role ne sent]] less.prems(1) by simp
      show "queueOk ?q" by (rule queueOk_delete [OF less.prems(2)])
      show "\<forall>x\<in>set (snd (g', fs')). fst x = Answered" using less.prems(3) by (simp add: w fs)
      show "queueSize ?q \<le> chunk * length (snd (g', fs'))"
        using less.prems(4) items by (simp add: w fs queueSize_def)
    qed
    with turn show ?thesis by (simp add: flushQueue.simps [of _ _ "(w, q)"])
  qed
qed



end
