(* ===== verification/Map_Vehicles.thy ===== *)
theory Map_Vehicles
  imports Tracking_Feed
begin

text \<open>
  The vehicles of the map: \<open>frontend/src/features/map/vehicleMap.ts\<close>. A time arrives as text, so it may
  be missing or unreadable; both are values of \<open>stamp\<close>. The vehicles are the map from identifiers to
  \<open>vehicle_data\<close>. The function that computes an arrival time is a parameter. The fallback name is
  written without accents, and the speed of a label is not rounded to text.
\<close>

datatype stamp = Missing | Unreadable | At ms

fun parseStamp :: "stamp \<Rightarrow> ms option" where
  "parseStamp (At t) = Some t"
| "parseStamp _ = None"

datatype map_status = Moving | Static | Offline

record vehicle_data =
  vd_lat :: real
  vd_lng :: real
  vd_rawLat :: real
  vd_rawLng :: real
  vd_name :: string
  vd_speed :: "real option"
  vd_heading :: "real option"
  vd_acc :: "real option"
  vd_time :: stamp
  vd_status :: map_status
  vd_eta :: "string option option"
  vd_routeDistance :: "real option"
  vd_routeDuration :: "real option"
  vd_confidence :: real
  vd_vehicle :: ident
  vd_delivery :: "ident option"
  vd_suspect :: bool
  vd_lastMovingAt :: stamp
  vd_receivedAt :: stamp

record position_update =
  pu_vehicle :: ident
  pu_name :: string
  pu_lat :: real
  pu_lng :: real
  pu_displayLat :: "real option"
  pu_displayLng :: "real option"
  pu_speed :: "real option"
  pu_heading :: "real option"
  pu_acc :: "real option"
  pu_suspect :: bool
  pu_confidence :: "real option"
  pu_time :: stamp
  pu_delivery :: "ident option"

record live_input =
  li_vehicle :: ident
  li_name :: string
  li_lat :: real
  li_lng :: real
  li_displayLat :: "real option"
  li_displayLng :: "real option"
  li_speed :: "real option"
  li_heading :: "real option"
  li_acc :: "real option"
  li_suspect :: bool
  li_time :: stamp
  li_delivery :: "ident option"
  li_minutesAgo :: "real option"
  li_receivedAt :: stamp

type_synonym fleet_map = "ident \<rightharpoonup> vehicle_data"

definition FALLBACK_DRIVER_NAME :: string where "FALLBACK_DRIVER_NAME = ''Vehicule sans chauffeur assigne''"
definition OFFLINE_TIMEOUT_MIN :: int where "OFFLINE_TIMEOUT_MIN = 15"
definition STATUS_STATIC_DEBOUNCE_MS :: ms where "STATUS_STATIC_DEBOUNCE_MS = 12000"
definition STALE_UPDATE_RESET_MS :: ms where "STALE_UPDATE_RESET_MS = 10 * 60000"
definition RAW_POSITION_DIVERGENCE_M :: real where "RAW_POSITION_DIVERGENCE_M = 20"
definition STALE_MOVEMENT_MS :: ms where "STALE_MOVEMENT_MS = 120000"
definition CLOCK_LAG_MAX_MS :: ms where "CLOCK_LAG_MAX_MS = 5 * 60000"
definition SIGNAL_LOST_MS :: ms where "SIGNAL_LOST_MS = 60000"

lemmas map_consts =
  OFFLINE_TIMEOUT_MIN_def STATUS_STATIC_DEBOUNCE_MS_def STALE_UPDATE_RESET_MS_def STALE_MOVEMENT_MS_def
  CLOCK_LAG_MAX_MS_def SIGNAL_LOST_MS_def RAW_POSITION_DIVERGENCE_M_def

subsection \<open>What is shown\<close>

definition rawPositionDiverges :: "real option \<Rightarrow> real option \<Rightarrow> real option \<Rightarrow> real option \<Rightarrow> bool" where
  "rawPositionDiverges lat lng rawLat rawLng =
     (case (lat, lng, rawLat, rawLng) of
        (Some a, Some b, Some c, Some d) \<Rightarrow> RAW_POSITION_DIVERGENCE_M < haversineDistance a b c d
      | _ \<Rightarrow> False)"

definition isMovingSpeed :: "real option \<Rightarrow> bool" where
  "isMovingSpeed v = (case v of Some x \<Rightarrow> STATIONARY_SPEED_MS < x | None \<Rightarrow> False)"

definition freshnessTimestamp :: "stamp \<Rightarrow> stamp \<Rightarrow> stamp" where
  "freshnessTimestamp t received =
     (if received = Missing \<or> t = Missing then t
      else (case (parseStamp received, parseStamp t) of
              (Some r, Some f) \<Rightarrow> if r - f < 0 \<or> CLOCK_LAG_MAX_MS < r - f then t else received
            | _ \<Rightarrow> t))"

definition effectiveStatus :: "map_status \<Rightarrow> stamp \<Rightarrow> ms \<Rightarrow> map_status" where
  "effectiveStatus st t now =
     (if st = Offline \<or> t = Missing then st
      else (case parseStamp t of
              None \<Rightarrow> st
            | Some f \<Rightarrow>
                if OFFLINE_TIMEOUT_MIN * 60000 < now - f then Offline
                else if st = Moving \<and> STALE_MOVEMENT_MS < now - f then Static
                else st))"

text \<open>With an unreadable time the age is NaN: both tests fail and NaN is returned, here \<open>Some None\<close>.\<close>

definition signalLostSinceMs :: "stamp \<Rightarrow> ms \<Rightarrow> ms option option" where
  "signalLostSinceMs t now =
     (if t = Missing then None
      else (case parseStamp t of
              None \<Rightarrow> Some None
            | Some f \<Rightarrow>
                if now - f \<le> SIGNAL_LOST_MS then None
                else if OFFLINE_TIMEOUT_MIN * 60000 < now - f then None
                else Some (Some (now - f))))"

text \<open>The label of the speed: the text for a stopped vehicle, or kilometres per hour.\<close>

datatype speed_label = Stopped | Kmh real

definition formatVehicleSpeed :: "real option \<Rightarrow> speed_label" where
  "formatVehicleSpeed v = (if isMovingSpeed v then Kmh (the v * 36 / 10) else Stopped)"

definition liveSpeedLabel :: "real option \<Rightarrow> map_status \<Rightarrow> stamp \<Rightarrow> ms \<Rightarrow> speed_label" where
  "liveSpeedLabel v st t now = (if effectiveStatus st t now \<noteq> Moving then Stopped else formatVehicleSpeed v)"

definition shouldFollowRecenter :: "(ident \<times> real \<times> real) option \<Rightarrow> ident \<Rightarrow> real \<Rightarrow> real \<Rightarrow> bool" where
  "shouldFollowRecenter prev i lat lng =
     (case prev of None \<Rightarrow> True | Some (j, a, b) \<Rightarrow> j \<noteq> i \<or> a \<noteq> lat \<or> b \<noteq> lng)"

subsection \<open>Merging\<close>

definition orElseName :: "string \<Rightarrow> string" where
  "orElseName n = (if n = [] then FALLBACK_DRIVER_NAME else n)"

definition ownConfidence :: "real option \<Rightarrow> real" where
  "ownConfidence acc = (case acc of Some a \<Rightarrow> if a \<noteq> 0 then max (1 / 10) (1 - a / 50) else 1 | None \<Rightarrow> 1)"

text \<open>An update older than what is shown, by less than ten minutes.\<close>

definition isStale :: "vehicle_data option \<Rightarrow> position_update \<Rightarrow> bool" where
  "isStale shown u =
     (case shown of
        None \<Rightarrow> False
      | Some d \<Rightarrow>
          (case (parseStamp (pu_time u), parseStamp (vd_time d)) of
             (Some t, Some t') \<Rightarrow> t - t' < 0 \<and> - STALE_UPDATE_RESET_MS < t - t'
           | _ \<Rightarrow> False))"

definition nextStatus :: "vehicle_data option \<Rightarrow> position_update \<Rightarrow> map_status" where
  "nextStatus shown u =
     (if isMovingSpeed (pu_speed u) then Moving
      else (case shown of
              Some d \<Rightarrow>
                if vd_status d = Moving \<and> vd_lastMovingAt d \<noteq> Missing
                then (case (parseStamp (pu_time u), parseStamp (vd_lastMovingAt d)) of
                        (Some t, Some m) \<Rightarrow> if t - m < STATUS_STATIC_DEBOUNCE_MS then Moving else Static
                      | _ \<Rightarrow> Static)
                else Static
            | None \<Rightarrow> Static))"

definition suspectEntry :: "ms \<Rightarrow> position_update \<Rightarrow> vehicle_data \<Rightarrow> vehicle_data" where
  "suspectEntry now u d = d\<lparr>vd_rawLat := pu_lat u, vd_rawLng := pu_lng u, vd_speed := pu_speed u,
     vd_heading := pu_heading u, vd_acc := pu_acc u, vd_time := pu_time u, vd_receivedAt := At now, vd_suspect := True\<rparr>"

definition reliableEntry ::
    "ms \<Rightarrow> (position_update \<Rightarrow> string option) option \<Rightarrow> position_update \<Rightarrow> vehicle_data option \<Rightarrow> vehicle_data" where
  "reliableEntry now etaFor u shown =
     \<lparr>vd_lat = nullish (pu_displayLat u) (pu_lat u), vd_lng = nullish (pu_displayLng u) (pu_lng u),
      vd_rawLat = pu_lat u, vd_rawLng = pu_lng u, vd_name = orElseName (pu_name u), vd_speed = pu_speed u,
      vd_heading = pu_heading u, vd_acc = pu_acc u, vd_time = pu_time u, vd_status = nextStatus shown u,
      vd_eta = map_option (\<lambda>f. f u) etaFor, vd_routeDistance = None, vd_routeDuration = None,
      vd_confidence = nullish (pu_confidence u) (ownConfidence (pu_acc u)), vd_vehicle = pu_vehicle u,
      vd_delivery = pu_delivery u, vd_suspect = False,
      vd_lastMovingAt = (if isMovingSpeed (pu_speed u) then pu_time u
                         else case shown of Some d \<Rightarrow> vd_lastMovingAt d | None \<Rightarrow> Missing),
      vd_receivedAt = At now\<rparr>"

definition mergePositionUpdate ::
    "ms \<Rightarrow> (position_update \<Rightarrow> string option) option \<Rightarrow> position_update \<Rightarrow> fleet_map \<Rightarrow> fleet_map" where
  "mergePositionUpdate now etaFor u prev =
     (let shown = prev (pu_vehicle u) in
      if isStale shown u then prev
      else if pu_suspect u
      then (case shown of None \<Rightarrow> prev | Some d \<Rightarrow> prev(pu_vehicle u \<mapsto> suspectEntry now u d))
      else prev(pu_vehicle u \<mapsto> reliableEntry now etaFor u shown))"

definition bootstrapEntry :: "(live_input \<Rightarrow> string option) option \<Rightarrow> live_input \<Rightarrow> vehicle_data" where
  "bootstrapEntry etaFor p =
     \<lparr>vd_lat = nullish (li_displayLat p) (li_lat p), vd_lng = nullish (li_displayLng p) (li_lng p),
      vd_rawLat = li_lat p, vd_rawLng = li_lng p, vd_name = orElseName (li_name p), vd_speed = li_speed p,
      vd_heading = li_heading p, vd_acc = li_acc p, vd_time = li_time p,
      vd_status = (if real_of_int OFFLINE_TIMEOUT_MIN < nullish (li_minutesAgo p) 0 then Offline
                   else if isMovingSpeed (li_speed p) then Moving else Static),
      vd_eta = map_option (\<lambda>f. f p) etaFor, vd_routeDistance = None, vd_routeDuration = None,
      vd_confidence = ownConfidence (li_acc p), vd_vehicle = li_vehicle p, vd_delivery = li_delivery p,
      vd_suspect = li_suspect p, vd_lastMovingAt = Missing, vd_receivedAt = li_receivedAt p\<rparr>"

fun mergeBootstrapPositions ::
    "(live_input \<Rightarrow> string option) option \<Rightarrow> live_input list \<Rightarrow> fleet_map \<Rightarrow> fleet_map" where
  "mergeBootstrapPositions etaFor [] prev = prev"
| "mergeBootstrapPositions etaFor (p # ps) prev =
     mergeBootstrapPositions etaFor ps
       (if li_vehicle p = [] \<or> prev (li_vehicle p) \<noteq> None then prev
        else prev(li_vehicle p \<mapsto> bootstrapEntry etaFor p))"


subsection \<open>One update\<close>

type_synonym arrivals = "(ms \<times> position_update) list"

definition mergeAll :: "(position_update \<Rightarrow> string option) option \<Rightarrow> arrivals \<Rightarrow> fleet_map \<Rightarrow> fleet_map" where
  "mergeAll etaFor us m = fold (\<lambda>(now, u). mergePositionUpdate now etaFor u) us m"

definition shownAt :: "vehicle_data \<Rightarrow> real \<times> real" where "shownAt d = (vd_lat d, vd_lng d)"

definition displayOf :: "position_update \<Rightarrow> real \<times> real" where
  "displayOf u = (nullish (pu_displayLat u) (pu_lat u), nullish (pu_displayLng u) (pu_lng u))"

lemma merge_cases:
  obtains (stale) "isStale (prev (pu_vehicle u)) u" "mergePositionUpdate now etaFor u prev = prev"
    | (unknown) "pu_suspect u" "prev (pu_vehicle u) = None" "mergePositionUpdate now etaFor u prev = prev"
    | (suspect) d where "pu_suspect u" "prev (pu_vehicle u) = Some d" "\<not> isStale (Some d) u"
        "mergePositionUpdate now etaFor u prev = prev(pu_vehicle u \<mapsto> suspectEntry now u d)"
    | (reliable) "\<not> pu_suspect u" "\<not> isStale (prev (pu_vehicle u)) u"
        "mergePositionUpdate now etaFor u prev = prev(pu_vehicle u \<mapsto> reliableEntry now etaFor u (prev (pu_vehicle u)))"
  by (cases "isStale (prev (pu_vehicle u)) u"; cases "pu_suspect u"; cases "prev (pu_vehicle u)")
    (auto simp: mergePositionUpdate_def isStale_def)

lemma entry_simps [simp]:
  "shownAt (suspectEntry now u d) = shownAt d" "vd_status (suspectEntry now u d) = vd_status d"
  "vd_time (suspectEntry now u d) = pu_time u" "vd_suspect (suspectEntry now u d)"
  "shownAt (reliableEntry now etaFor u shown) = displayOf u" "vd_time (reliableEntry now etaFor u shown) = pu_time u"
  "vd_vehicle (reliableEntry now etaFor u shown) = pu_vehicle u" "vd_vehicle (suspectEntry now u d) = vd_vehicle d"
  by (simp_all add: suspectEntry_def reliableEntry_def shownAt_def displayOf_def)

lemma mergeAll_snoc: "mergeAll etaFor (us @ [(now, u)]) m = mergePositionUpdate now etaFor u (mergeAll etaFor us m)"
  by (simp add: mergeAll_def)

lemma mergeAll_Nil [simp]: "mergeAll etaFor [] m = m"
  by (simp add: mergeAll_def)


subsection \<open>The newest fix wins\<close>

definition recentFix :: "ms \<Rightarrow> position_update \<Rightarrow> bool" where
  "recentFix base u \<longleftrightarrow> \<not> pu_suspect u
     \<and> (case pu_time u of At t \<Rightarrow> base \<le> t \<and> t < base + STALE_UPDATE_RESET_MS | _ \<Rightarrow> False)"

definition fixTime :: "position_update \<Rightarrow> ms" where "fixTime u = (case pu_time u of At t \<Rightarrow> t | _ \<Rightarrow> 0)"

lemma recentFix_time: "recentFix base u \<Longrightarrow> pu_time u = At (fixTime u) \<and> base \<le> fixTime u \<and> fixTime u < base + STALE_UPDATE_RESET_MS"
  by (auto simp: recentFix_def fixTime_def split: stamp.splits)

definition newestShown :: "position_update list \<Rightarrow> vehicle_data \<Rightarrow> bool" where
  "newestShown us d \<longleftrightarrow> (\<exists>u\<in>set us. (\<forall>w\<in>set us. fixTime w \<le> fixTime u) \<and> vd_time d = pu_time u \<and> shownAt d = displayOf u)"

definition fixesOf :: "ident \<Rightarrow> arrivals \<Rightarrow> position_update list" where
  "fixesOf v us = filter (\<lambda>u. pu_vehicle u = v) (map snd us)"

text \<open>One more reliable fix of the vehicle keeps the newest of its fixes on the map.\<close>

lemma newest_step:
  assumes u: "recentFix base u" and rest: "\<forall>z\<in>set zs. recentFix base z"
    and shown: "zs = [] \<and> m (pu_vehicle u) = None \<or> (\<exists>d. m (pu_vehicle u) = Some d \<and> newestShown zs d)"
  shows "\<exists>d. mergePositionUpdate now etaFor u m (pu_vehicle u) = Some d \<and> newestShown (zs @ [u]) d"
  using shown
proof (elim disjE exE conjE)
  have ns: "\<not> pu_suspect u" using u by (simp add: recentFix_def)
  assume none: "zs = []" "m (pu_vehicle u) = None"
  then show ?thesis using ns by (simp add: mergePositionUpdate_def isStale_def Let_def newestShown_def)
next
  fix d assume d: "m (pu_vehicle u) = Some d" "newestShown zs d"
  have ns: "\<not> pu_suspect u" using u by (simp add: recentFix_def)
  from d(2) obtain w where w: "w \<in> set zs" "\<forall>z\<in>set zs. fixTime z \<le> fixTime w"
    "vd_time d = pu_time w" "shownAt d = displayOf w" by (auto simp: newestShown_def)
  have st: "isStale (m (pu_vehicle u)) u \<longleftrightarrow> fixTime u < fixTime w"
    using recentFix_time [OF u] recentFix_time [OF bspec [OF rest w(1)]] w(3) d(1) by (simp add: isStale_def)
  show ?thesis
  proof (cases "fixTime u < fixTime w")
    case True
    then have "mergePositionUpdate now etaFor u m (pu_vehicle u) = Some d"
      using d(1) st by (simp add: mergePositionUpdate_def Let_def)
    moreover have "newestShown (zs @ [u]) d" unfolding newestShown_def using w True by (intro bexI [of _ w]) auto
    ultimately show ?thesis by simp
  next
    case False
    then have "mergePositionUpdate now etaFor u m (pu_vehicle u) = Some (reliableEntry now etaFor u (Some d))"
      using d(1) st ns by (simp add: mergePositionUpdate_def Let_def)
    moreover have "newestShown (zs @ [u]) (reliableEntry now etaFor u (Some d))"
      unfolding newestShown_def using w(2) False by (intro bexI [of _ u]) auto
    ultimately show ?thesis by simp
  qed
qed

text \<open>C13. The map does not depend on the order of arrival: when the reliable fixes of a vehicle lie within ten
minutes of each other, then however the network delivers them, among the updates of other vehicles, the
marker stands at the newest of them and carries its time.\<close>

theorem newest_fix_wins:
  assumes "\<forall>u\<in>set (fixesOf v us). recentFix base u" and "fixesOf v us \<noteq> []"
  shows "\<exists>d. mergeAll etaFor us Map.empty v = Some d \<and> newestShown (fixesOf v us) d"
proof -
  have "(fixesOf v us = [] \<and> mergeAll etaFor us Map.empty v = None)
      \<or> (\<exists>d. mergeAll etaFor us Map.empty v = Some d \<and> newestShown (fixesOf v us) d)"
    using assms(1)
  proof (induction us rule: rev_induct)
    case (snoc x us)
    obtain now u where x: "x = (now, u)" by fastforce
    let ?m = "mergeAll etaFor us Map.empty"
    show ?case
    proof (cases "pu_vehicle u = v")
      case False
      then have "fixesOf v (us @ [(now, u)]) = fixesOf v us" "mergePositionUpdate now etaFor u ?m v = ?m v"
        by (simp_all add: fixesOf_def x mergePositionUpdate_def Let_def split: option.split)
      with snoc show ?thesis by (simp add: x mergeAll_snoc)
    next
      case True
      then have fx: "fixesOf v (us @ [(now, u)]) = fixesOf v us @ [u]" by (simp add: fixesOf_def)
      with snoc.prems x have ru: "recentFix base u" and rest: "\<forall>u\<in>set (fixesOf v us). recentFix base u" by simp_all
      from newest_step [OF ru rest, of ?m now etaFor] snoc.IH [OF rest] True show ?thesis by (simp add: x mergeAll_snoc fx)
    qed
  qed (simp add: fixesOf_def)
  with assms(2) show ?thesis by blast
qed

definition fixAtMs :: "ms \<Rightarrow> real \<Rightarrow> bool \<Rightarrow> position_update" where
  "fixAtMs t lat susp = \<lparr>pu_vehicle = ''van'', pu_name = ''Rija'', pu_lat = lat, pu_lng = 0, pu_displayLat = None,
     pu_displayLng = None, pu_speed = Some 5, pu_heading = None, pu_acc = None, pu_suspect = susp,
     pu_confidence = None, pu_time = At t, pu_delivery = None\<rparr>"


lemma newest_fix_wins_witness:
  "\<exists>d. mergeAll None [(0, fixAtMs 2000 2 False), (0, fixAtMs 1000 1 False)] Map.empty ''van'' = Some d \<and> shownAt d = (2, 0)"
proof -
  let ?us = "[(0, fixAtMs 2000 2 False), (0, fixAtMs 1000 1 False)]"
  have f: "fixesOf ''van'' ?us = [fixAtMs 2000 2 False, fixAtMs 1000 1 False]" by (simp add: fixesOf_def fixAtMs_def)
  have "\<forall>u\<in>set (fixesOf ''van'' ?us). recentFix 0 u" unfolding f by (simp add: recentFix_def fixAtMs_def STALE_UPDATE_RESET_MS_def)
  from newest_fix_wins [OF this, of None] f show ?thesis
    by (auto simp: newestShown_def fixTime_def displayOf_def fixAtMs_def)
qed

subsection \<open>The status with the passing of time\<close>

fun liveliness :: "map_status \<Rightarrow> nat" where
  "liveliness Moving = 2"
| "liveliness Static = 1"
| "liveliness Offline = 0"

text \<open>Without news a vehicle only fades: as time passes the status that is shown never becomes livelier, a
vehicle shown as moving has a fix of the last two minutes, one that is not shown as off line has a fix of the
last quarter of an hour, and the warning of a lost signal appears exactly between one minute and fifteen.\<close>

theorem shown_status_only_fades:
  assumes "now \<le> later"
  shows "liveliness (effectiveStatus st (At t) later) \<le> liveliness (effectiveStatus st (At t) now)
     \<and> (effectiveStatus st (At t) now = Moving \<longrightarrow> now - t \<le> 120000)
     \<and> (effectiveStatus st (At t) now \<noteq> Offline \<longrightarrow> now - t \<le> 900000)
     \<and> (signalLostSinceMs (At t) now \<noteq> None \<longleftrightarrow> 60000 < now - t \<and> now - t \<le> 900000)
     \<and> (effectiveStatus st (At t) now \<noteq> Moving \<longrightarrow> liveSpeedLabel v st (At t) now = Stopped)"
proof (intro conjI)
  show "liveliness (effectiveStatus st (At t) later) \<le> liveliness (effectiveStatus st (At t) now)"
    using assms by (cases st) (simp_all add: effectiveStatus_def map_consts)
  show "effectiveStatus st (At t) now = Moving \<longrightarrow> now - t \<le> 120000"
    by (cases st) (simp_all add: effectiveStatus_def map_consts)
  show "effectiveStatus st (At t) now \<noteq> Offline \<longrightarrow> now - t \<le> 900000"
    by (cases st) (simp_all add: effectiveStatus_def map_consts)
qed (simp_all add: signalLostSinceMs_def liveSpeedLabel_def map_consts)

lemma shown_status_only_fades_witness:
  "liveliness (effectiveStatus Moving (At 0) 1000000) \<le> liveliness (effectiveStatus Moving (At 0) 60001)
     \<and> signalLostSinceMs (At 0) 60001 \<noteq> None"
  using shown_status_only_fades [of 60001 1000000 Moving 0 None] by simp

subsection \<open>From the server to the marker\<close>

definition wireUpdate :: "string \<Rightarrow> live_update \<Rightarrow> position_update" where
  "wireUpdate name up = \<lparr>pu_vehicle = lu_vehicle up, pu_name = name, pu_lat = fst (lu_point up), pu_lng = snd (lu_point up),
     pu_displayLat = Some (fst (lu_display up)), pu_displayLng = Some (snd (lu_display up)), pu_speed = lu_speed up,
     pu_heading = lu_heading up, pu_acc = lu_acc up, pu_suspect = lu_suspect up,
     pu_confidence = Some (real_of_int (lu_confidence up)), pu_time = At (lu_time up), pu_delivery = lu_delivery up\<rparr>"

definition wireInput :: "(gps_position \<Rightarrow> string) \<Rightarrow> (gps_position \<Rightarrow> ms) \<Rightarrow> live_position \<Rightarrow> live_input" where
  "wireInput driverName createdAt q =
     (let g = lp_row q in
      \<lparr>li_vehicle = gp_vehicle g, li_name = (if lp_named q then driverName g else FALLBACK_DRIVER_NAME), li_lat = gp_lat g,
       li_lng = gp_lng g, li_displayLat = Some (fst (lp_display q)), li_displayLng = Some (snd (lp_display q)),
       li_speed = gp_speed g, li_heading = gp_heading g, li_acc = gp_acc g, li_suspect = gp_suspect g, li_time = At (gp_time g),
       li_delivery = gp_delivery g, li_minutesAgo = Some (lp_minutesAgo q), li_receivedAt = At (createdAt g)\<rparr>)"

lemma getLivePositions_unique:
  assumes "q \<in> set (getLivePositions motion company s)" "q' \<in> set (getLivePositions motion company s)"
    and "gp_vehicle (lp_row q) = gp_vehicle (lp_row q')"
  shows "q = q'"
proof -
  obtain g g' where g: "q = livePosition motion (liveRows company s) s g" "g \<in> set (liveRows company s)"
    "q' = livePosition motion (liveRows company s) s g'" "g' \<in> set (liveRows company s)"
    using assms(1,2) by (auto simp: getLivePositions_def Let_def)
  have own: "getLastPosition (gp_vehicle h) False s = Some h" if "h \<in> set (liveRows company s)" for h
    using that getLastPosition_vehicle by (auto simp: set_liveRows)
  have row: "lp_row (livePosition motion rows s h) = h" for rows h by (simp add: livePosition_def Let_def)
  have "gp_vehicle g = gp_vehicle g'" using assms(3) unfolding g(1,3) row .
  with own [OF g(2)] own [OF g(4)] have "g = g'" by (metis option.inject)
  then show ?thesis using g(1,3) by (simp only:)
qed

lemma bootstrap_shows:
  assumes "\<forall>p\<in>set ps. li_vehicle p = v \<longrightarrow> shownAt (bootstrapEntry etaFor p) = pt"
    and "(\<exists>p\<in>set ps. li_vehicle p = v) \<and> m v = None \<or> (\<exists>e. m v = Some e \<and> shownAt e = pt)" and "v \<noteq> []"
  shows "\<exists>e. mergeBootstrapPositions etaFor ps m v = Some e \<and> shownAt e = pt"
  using assms(1,2)
proof (induction ps arbitrary: m)
  case (Cons p ps)
  let ?m = "if li_vehicle p = [] \<or> m (li_vehicle p) \<noteq> None then m else m(li_vehicle p \<mapsto> bootstrapEntry etaFor p)"
  have "(\<exists>p\<in>set ps. li_vehicle p = v) \<and> ?m v = None \<or> (\<exists>e. ?m v = Some e \<and> shownAt e = pt)"
    using Cons.prems assms(3) by (cases "li_vehicle p = v") auto
  with Cons.IH [of ?m] Cons.prems(1) show ?case by simp
qed auto




end
