(* ===== verification/Map_Marker.thy ===== *)
theory Map_Marker
  imports Map_Vehicles
begin

text \<open>
  The motion of a marker: the durations of \<open>frontend/src/features/map/animationTiming.ts\<close>, the guards of
  \<open>markerMotion.ts\<close>, the extrapolation of \<open>services/tracking/deadReckoning.ts\<close>, and the state that
  \<open>AnimatedMarker\<close> of \<open>RealTimeMap.tsx\<close> keeps between two renderings. Each rendering with a changed
  position, each animation frame and each tick of the extrapolation is a step.
\<close>

definition MAX_ANIMATION_MS :: ms where "MAX_ANIMATION_MS = 20000"
definition GAP_ANIMATION_MS :: ms where "GAP_ANIMATION_MS = 45000"
definition FALLBACK_ANIMATION_MS :: ms where "FALLBACK_ANIMATION_MS = 600"
definition M_PER_DEG :: real where "M_PER_DEG = 111320"
definition MAX_BACKWARD_HOLD_M :: real where "MAX_BACKWARD_HOLD_M = 40"
definition BACKWARD_EPSILON_M :: real where "BACKWARD_EPSILON_M = 2"
definition MIN_TRAVEL_M :: real where "MIN_TRAVEL_M = 4"
definition MAX_CONSECUTIVE_HOLDS :: nat where "MAX_CONSECUTIVE_HOLDS = 3"
definition MAX_DEAD_RECKON_DISTANCE_M :: real where "MAX_DEAD_RECKON_DISTANCE_M = 30"
definition MAX_DEAD_RECKON_MS :: real where "MAX_DEAD_RECKON_MS = 15000"

lemmas marker_consts =
  MAX_ANIMATION_MS_def GAP_ANIMATION_MS_def FALLBACK_ANIMATION_MS_def M_PER_DEG_def MAX_BACKWARD_HOLD_M_def
  BACKWARD_EPSILON_M_def MIN_TRAVEL_M_def MAX_CONSECUTIVE_HOLDS_def MAX_DEAD_RECKON_DISTANCE_M_def MAX_DEAD_RECKON_MS_def

subsection \<open>The pure functions\<close>

definition computeAnimationDuration :: "ms option \<Rightarrow> ms option \<Rightarrow> ms" where
  "computeAnimationDuration prevTs currTs =
     (case (prevTs, currTs) of
        (Some p, Some c) \<Rightarrow>
          if \<not> 0 < c - p then FALLBACK_ANIMATION_MS
          else if GAP_ANIMATION_MS < c - p then FALLBACK_ANIMATION_MS
          else min (c - p) MAX_ANIMATION_MS
      | _ \<Rightarrow> FALLBACK_ANIMATION_MS)"

text \<open>The vector from one point to another, in metres.\<close>

definition vecM :: "point \<Rightarrow> point \<Rightarrow> real \<times> real" where
  "vecM a b = ((snd b - snd a) * M_PER_DEG * cos (toRad (fst a)), (fst b - fst a) * M_PER_DEG)"

definition isBackwardJitter :: "point option \<Rightarrow> point option \<Rightarrow> point \<Rightarrow> point \<Rightarrow> real \<Rightarrow> bool" where
  "isBackwardJitter prevReal lastReal current nxt maxBackM =
     (case (prevReal, lastReal) of
        (Some p, Some l) \<Rightarrow>
          (let (tx, ty) = vecM p l; travelLen = js_hypot tx ty in
           if travelLen < MIN_TRAVEL_M then False
           else (let (sx, sy) = vecM current nxt; proj = (sx * tx + sy * ty) / travelLen
                 in proj < - BACKWARD_EPSILON_M \<and> - proj \<le> maxBackM))
      | _ \<Rightarrow> False)"

definition deadReckonHorizonMs :: "real \<Rightarrow> real \<Rightarrow> real" where
  "deadReckonHorizonMs speed maxMs =
     (if \<not> 0 < speed \<or> \<not> 0 < maxMs then 0
      else min maxMs (real_of_int (js_round (MAX_DEAD_RECKON_DISTANCE_M / speed * 1000))))"

definition maxDeadReckonTime :: "real \<Rightarrow> real" where
  "maxDeadReckonTime speed =
     (if speed \<le> 0 then 0 else min MAX_DEAD_RECKON_MS (max 1000 (speed * 2000 + 2000)))"

record dr_state =
  dr_lat :: real
  dr_lng :: real
  dr_speed :: real
  dr_heading :: real

text \<open>The callers give the state the time zero, so the second argument is the time elapsed.\<close>

definition predictPosition :: "dr_state \<Rightarrow> real \<Rightarrow> point" where
  "predictPosition s t =
     (let elapsedSec = max 0 (t / 1000) in
      if elapsedSec \<le> 0 \<or> dr_speed s \<le> 0 then (dr_lat s, dr_lng s)
      else (let distanceM = dr_speed s * elapsedSec;
                dLat = distanceM * cos (toRad (dr_heading s)) / 111320;
                dLng = distanceM * sin (toRad (dr_heading s)) / (111320 * cos (toRad (dr_lat s)))
            in (dr_lat s + dLat, dr_lng s + dLng)))"

definition resolveDeadReckonedPosition :: "dr_state \<Rightarrow> real \<Rightarrow> real \<Rightarrow> point \<times> bool" where
  "resolveDeadReckonedPosition s drElapsedMs maxDrMs =
     (if maxDrMs < drElapsedMs then ((dr_lat s, dr_lng s), False) else (predictPosition s drElapsedMs, True))"

subsection \<open>The marker\<close>

text \<open>An animation runs between two points for a duration; \<open>mk_shown\<close> is where the marker is drawn and
\<open>mk_from\<close> the point of \<open>fromRef\<close>.\<close>

record marker =
  mk_shown :: point
  mk_from :: "point option"
  mk_anim :: "(point \<times> point \<times> ms) option"
  mk_prevTs :: "ms option"
  mk_prevReal :: "point option"
  mk_lastReal :: "point option"
  mk_holds :: nat
  mk_state :: "dr_state option"
  mk_duration :: ms
  mk_speed :: "real option option"
  mk_ticking :: "real option"

definition newMarker :: "vehicle_data \<Rightarrow> marker" where
  "newMarker d = \<lparr>mk_shown = shownAt d, mk_from = None, mk_anim = None, mk_prevTs = None, mk_prevReal = None,
     mk_lastReal = None, mk_holds = 0, mk_state = None, mk_duration = FALLBACK_ANIMATION_MS,
     mk_speed = None, mk_ticking = None\<rparr>"

definition drOf :: "vehicle_data \<Rightarrow> dr_state" where
  "drOf d = \<lparr>dr_lat = vd_lat d, dr_lng = vd_lng d, dr_speed = nullish (vd_speed d) 0, dr_heading = nullish (vd_heading d) 0\<rparr>"

definition holdBackward :: "bool \<Rightarrow> vehicle_data \<Rightarrow> marker \<Rightarrow> bool" where
  "holdBackward frozen d k =
     (case mk_from k of
        None \<Rightarrow> False
      | Some cur \<Rightarrow> \<not> frozen \<and> mk_holds k < MAX_CONSECUTIVE_HOLDS
          \<and> isBackwardJitter (mk_prevReal k) (mk_lastReal k) cur (shownAt d) MAX_BACKWARD_HOLD_M)"

text \<open>The effect that runs when the vehicle changed; \<open>frozen\<close> is \<open>disableAnimation\<close>.\<close>

definition render :: "bool \<Rightarrow> vehicle_data \<Rightarrow> marker \<Rightarrow> marker" where
  "render frozen d k0 =
     (let k = k0\<lparr>mk_anim := None, mk_state := Some (drOf d)\<rparr>;
          isNewFix = (mk_lastReal k \<noteq> Some (shownAt d));
          hold = (isNewFix \<and> holdBackward frozen d k);
          k1 = (if isNewFix
                then k\<lparr>mk_holds := (if hold then Suc (mk_holds k) else 0), mk_prevReal := mk_lastReal k,
                       mk_lastReal := Some (shownAt d)\<rparr>
                else k)
      in if hold
         then k1\<lparr>mk_prevTs := parseStamp (vd_time d),
                 mk_state := (case mk_from k of
                                Some (a, b) \<Rightarrow> Some ((drOf d)\<lparr>dr_lat := a, dr_lng := b\<rparr>) | None \<Rightarrow> Some (drOf d))\<rparr>
         else (case mk_from k1 of
                 None \<Rightarrow> k1\<lparr>mk_shown := shownAt d, mk_from := Some (shownAt d)\<rparr>
               | Some (a, b) \<Rightarrow>
                   if frozen then k1\<lparr>mk_shown := shownAt d, mk_from := Some (shownAt d)\<rparr>
                   else if \<bar>vd_lat d - a\<bar> < 1 / 100000 \<and> \<bar>vd_lng d - b\<bar> < 1 / 100000
                   then k1\<lparr>mk_shown := shownAt d, mk_from := Some (shownAt d)\<rparr>
                   else (let duration = computeAnimationDuration (mk_prevTs k1) (parseStamp (vd_time d))
                         in k1\<lparr>mk_prevTs := parseStamp (vd_time d), mk_duration := duration,
                               mk_anim := Some ((a, b), shownAt d, duration)\<rparr>)))"

definition easeOut :: "real \<Rightarrow> real" where "easeOut t = 1 - (1 - t) ^ 3"

text \<open>One frame, \<open>elapsed\<close> after the start of the animation.\<close>

definition animate :: "real \<Rightarrow> marker \<Rightarrow> marker" where
  "animate elapsed k =
     (case mk_anim k of
        None \<Rightarrow> k
      | Some (p, q, duration) \<Rightarrow>
          (let t = min (elapsed / real_of_int duration) 1; e = easeOut t;
               here = (fst p + (fst q - fst p) * e, snd p + (snd q - snd p) * e)
           in if t < 1 then k\<lparr>mk_shown := here, mk_from := Some here\<rparr>
              else k\<lparr>mk_shown := q, mk_from := Some q, mk_anim := None\<rparr>))"

definition drHorizon :: "real option \<Rightarrow> real" where
  "drHorizon speed =
     (if isMovingSpeed speed then deadReckonHorizonMs (the speed) (maxDeadReckonTime (the speed)) else 0)"

text \<open>The effect on the speed sets the interval anew only when the speed changed; the interval clears itself
when its window has passed. A tick comes \<open>elapsed\<close> after the last rendering.\<close>

definition speedEffect :: "vehicle_data \<Rightarrow> marker \<Rightarrow> marker" where
  "speedEffect d k =
     (if mk_speed k = Some (vd_speed d) then k
      else k\<lparr>mk_speed := Some (vd_speed d), mk_ticking := (if drHorizon (vd_speed d) \<le> 0 then None else vd_speed d)\<rparr>)"

definition drTick :: "real \<Rightarrow> marker \<Rightarrow> marker" where
  "drTick elapsed k =
     (case mk_ticking k of
        None \<Rightarrow> k
      | Some v \<Rightarrow>
          (let maxDrMs = drHorizon (Some v); animMs = max (real_of_int (mk_duration k)) 1000 in
           if elapsed < animMs then k
           else (case mk_state k of
                   None \<Rightarrow> k
                 | Some s \<Rightarrow>
                     if \<not> isMovingSpeed (Some (dr_speed s)) then k
                     else if maxDrMs < elapsed - animMs then k\<lparr>mk_ticking := None\<rparr>
                     else (let (here, extrapolated) = resolveDeadReckonedPosition s (elapsed - animMs) maxDrMs
                           in k\<lparr>mk_shown := here, mk_from := Some here,
                                mk_ticking := (if extrapolated then Some v else None)\<rparr>))))"

subsection \<open>A marker is never frozen\<close>

lemma duration_bounds: "0 < computeAnimationDuration a b \<and> computeAnimationDuration a b \<le> MAX_ANIMATION_MS"
  by (auto simp: computeAnimationDuration_def marker_consts split: option.split)

definition held :: "vehicle_data \<Rightarrow> marker \<Rightarrow> bool" where
  "held d k \<longleftrightarrow> mk_lastReal k \<noteq> Some (shownAt d) \<and> holdBackward False d k"

lemma holdBackward_frame [simp]:
  "holdBackward b d (k\<lparr>mk_anim := x, mk_state := y\<rparr>) = holdBackward b d k"
  by (simp add: holdBackward_def split: option.split)

lemma render_holds:
  "mk_lastReal (render False d k) = Some (shownAt d)"
  "mk_holds (render False d k) = (if held d k then Suc (mk_holds k)
     else if mk_lastReal k = Some (shownAt d) then mk_holds k else 0)"
  by (auto simp: render_def Let_def held_def split: option.split)

lemma held_bound: "held d k \<Longrightarrow> mk_holds k < MAX_CONSECUTIVE_HOLDS"
  by (auto simp: held_def holdBackward_def split: option.splits)

lemma animate_frame [simp]: "mk_lastReal (animate e k) = mk_lastReal k" "mk_holds (animate e k) = mk_holds k"
  by (auto simp: animate_def Let_def split: option.split)

text \<open>A rendering that is not held, and a frame at the end of its animation.\<close>

lemma animate_arrives:
  assumes "mk_anim k = None \<and> mk_shown k = q \<or> (\<exists>p a b. mk_anim k = Some (p, q, computeAnimationDuration a b))"
    and "real_of_int MAX_ANIMATION_MS \<le> e"
  shows "mk_shown (animate e k) = q"
  using assms(1)
proof (elim disjE exE conjE)
  fix p a b assume k: "mk_anim k = Some (p, q, computeAnimationDuration a b)"
  have "1 \<le> e / real_of_int (computeAnimationDuration a b)"
    using duration_bounds [of a b] assms(2) by (simp add: le_divide_eq_1_pos)
  with k show ?thesis by (simp add: animate_def Let_def min_def)
qed (simp add: animate_def)

lemma render_arrives:
  assumes "\<not> held d k" and "real_of_int MAX_ANIMATION_MS \<le> e"
  shows "mk_shown (animate e (render False d k)) = shownAt d"
proof (rule animate_arrives [OF _ assms(2)])
  have "mk_anim (render False d k) = None \<and> mk_shown (render False d k) = shownAt d
      \<or> mk_anim (render False d k)
         = Some (the (mk_from k), shownAt d, computeAnimationDuration (mk_prevTs k) (parseStamp (vd_time d)))"
    using assms(1) by (cases "mk_from k"; cases "mk_lastReal k = Some (shownAt d)") (simp_all add: render_def Let_def held_def split: prod.split)
  then show "mk_anim (render False d k) = None \<and> mk_shown (render False d k) = shownAt d
      \<or> (\<exists>p a b. mk_anim (render False d k) = Some (p, shownAt d, computeAnimationDuration a b))" by blast
qed

definition settle :: "real \<Rightarrow> vehicle_data \<Rightarrow> marker \<Rightarrow> marker" where
  "settle e d k = animate e (render False d k)"

lemma settle_holds: "held d k \<Longrightarrow> mk_holds (settle e d k) = Suc (mk_holds k)"
  by (simp add: settle_def render_holds)

lemma all_held:
  assumes "\<forall>i<length ds. held (ds ! i) (fold (settle e) (take i ds) k)"
  shows "mk_holds (fold (settle e) ds k) = mk_holds k + length ds"
  using assms
proof (induction ds rule: rev_induct)
  case (snoc d ds)
  have "held (ds ! i) (fold (settle e) (take i ds) k)" if "i < length ds" for i
    using snoc.prems [THEN spec [of _ i]] that by (simp add: nth_append)
  then have "\<forall>i<length ds. held (ds ! i) (fold (settle e) (take i ds) k)" by blast
  from snoc.IH [OF this] snoc.prems [THEN spec [of _ "length ds"]]
  show ?case by (simp add: settle_holds nth_append)
qed simp

text \<open>C34. A marker is never frozen: whatever state the guard against sliding back is in, among any four fixes that a
map renders, each animation having had its time, at least one is shown where the fix put it.\<close>

theorem marker_reaches_a_fix:
  assumes "length ds = Suc MAX_CONSECUTIVE_HOLDS" and "real_of_int MAX_ANIMATION_MS \<le> e"
  shows "\<exists>i<length ds. mk_shown (fold (settle e) (take (Suc i) ds) k) = shownAt (ds ! i)"
proof (rule ccontr)
  assume frozen: "\<not> ?thesis"
  have "held (ds ! i) (fold (settle e) (take i ds) k)" if "i < length ds" for i
  proof (rule ccontr)
    assume "\<not> held (ds ! i) (fold (settle e) (take i ds) k)"
    from render_arrives [OF this assms(2)] that have "mk_shown (fold (settle e) (take (Suc i) ds) k) = shownAt (ds ! i)"
      by (simp add: take_Suc_conv_app_nth settle_def)
    with frozen that show False by blast
  qed
  then have all: "\<forall>i<length ds. held (ds ! i) (fold (settle e) (take i ds) k)" by blast
  let ?ds = "take MAX_CONSECUTIVE_HOLDS ds"
  have "\<forall>i<length ?ds. held (?ds ! i) (fold (settle e) (take i ?ds) k)"
    using all assms(1) by (simp add: min_def)
  from all_held [OF this] assms(1) have "mk_holds (fold (settle e) ?ds k) = mk_holds k + MAX_CONSECUTIVE_HOLDS" by simp
  moreover have "mk_holds (fold (settle e) ?ds k) < MAX_CONSECUTIVE_HOLDS"
    by (rule held_bound) (use all assms(1) in auto)
  ultimately show False by simp
qed

definition parkedAt :: "real \<Rightarrow> vehicle_data" where
  "parkedAt lat = reliableEntry 0 None (fixAtMs 1000 lat False) None"

lemma marker_reaches_a_fix_witness:
  "\<exists>i<4. mk_shown (fold (settle 20000) (take (Suc i) [parkedAt 1, parkedAt 2, parkedAt 3, parkedAt 4]) (newMarker (parkedAt 0)))
       = shownAt ([parkedAt 1, parkedAt 2, parkedAt 3, parkedAt 4] ! i)"
  using marker_reaches_a_fix [of "[parkedAt 1, parkedAt 2, parkedAt 3, parkedAt 4]" 20000 "newMarker (parkedAt 0)"]
  by (simp add: marker_consts numeral_eq_Suc)

subsection \<open>The invented distance\<close>

lemma predict_length:
  assumes "cos (toRad (dr_lat s)) \<noteq> 0" and "0 \<le> t" and "0 \<le> dr_speed s"
  shows "js_hypot (fst (vecM (dr_lat s, dr_lng s) (predictPosition s t))) (snd (vecM (dr_lat s, dr_lng s) (predictPosition s t)))
       = dr_speed s * (t / 1000)"
proof (cases "t = 0 \<or> dr_speed s = 0")
  case True
  then show ?thesis using assms(2,3) by (auto simp: predictPosition_def vecM_def js_hypot_def)
next
  case False
  let ?d = "dr_speed s * (t / 1000)" and ?h = "toRad (dr_heading s)"
  have "vecM (dr_lat s, dr_lng s) (predictPosition s t) = (?d * sin ?h, ?d * cos ?h)"
    using False assms by (simp add: predictPosition_def vecM_def Let_def M_PER_DEG_def)
  moreover have "(a * sin h)\<^sup>2 + (a * cos h)\<^sup>2 = a\<^sup>2" for a h :: real
    by (simp add: power_mult_distrib flip: distrib_left)
  ultimately show ?thesis using assms(2,3) by (simp only: js_hypot_def fst_conv snd_conv) simp
qed



end
