(* ===== verification/Kalman.thy ===== *)
theory Kalman
  imports Geo
begin

text \<open>
  The filter that smooths the position on the driver's screen:
  \<open>frontend/src/services/tracking/KalmanFilter.ts\<close>. The state is the position and its velocity in
  degrees, the covariance a matrix of four rows. Numbers are real, so overflow of the entries is not
  claimed.
\<close>

definition METERS_PER_DEGREE_LAT :: real where "METERS_PER_DEGREE_LAT = 111320"
definition Q_A :: real where "Q_A = 32 / 10 ^ 11"

type_synonym matrix = "real list list"

definition mult44 :: "matrix \<Rightarrow> matrix \<Rightarrow> matrix" where
  "mult44 A B = map (\<lambda>i. map (\<lambda>j. sum_list (map (\<lambda>k. A ! i ! k * B ! k ! j) [0..<4])) [0..<4]) [0..<4]"

definition transpose44 :: "matrix \<Rightarrow> matrix" where
  "transpose44 M = map (\<lambda>j. map (\<lambda>i. M ! i ! j) [0..<4]) [0..<4]"

definition add44 :: "matrix \<Rightarrow> matrix \<Rightarrow> matrix" where "add44 A B = map2 (map2 (+)) A B"
definition sub44 :: "matrix \<Rightarrow> matrix \<Rightarrow> matrix" where "sub44 A B = map2 (map2 (-)) A B"

definition processNoiseMatrix :: "real \<Rightarrow> matrix" where
  "processNoiseMatrix dt =
     [[Q_A * dt ^ 3 / 3, 0, Q_A * dt\<^sup>2 / 2, 0],
      [0, Q_A * dt ^ 3 / 3, 0, Q_A * dt\<^sup>2 / 2],
      [Q_A * dt\<^sup>2 / 2, 0, Q_A * dt, 0],
      [0, Q_A * dt\<^sup>2 / 2, 0, Q_A * dt]]"

record kalman =
  kf_x :: "real list"
  kf_P :: matrix
  kf_lastTs :: "ms option"
  kf_dt :: real

definition cosLat :: "real \<Rightarrow> real" where "cosLat lat = max (1 / 100) (cos (toRad lat))"

definition newKalman :: "real \<Rightarrow> real \<Rightarrow> real \<Rightarrow> kalman" where
  "newKalman lat lng accuracy =
     (let latStdDeg = max 1 accuracy / METERS_PER_DEGREE_LAT;
          lngStdDeg = latStdDeg / cosLat lat;
          vStdDeg = 10 / METERS_PER_DEGREE_LAT;
          vLngStdDeg = vStdDeg / cosLat lat
      in \<lparr>kf_x = [lat, lng, 0, 0],
          kf_P = [[latStdDeg * latStdDeg, 0, 0, 0], [0, lngStdDeg * lngStdDeg, 0, 0],
                  [0, 0, vStdDeg * vStdDeg, 0], [0, 0, 0, vLngStdDeg * vLngStdDeg]],
          kf_lastTs = None, kf_dt = 1\<rparr>)"

definition predict :: "ms \<Rightarrow> kalman \<Rightarrow> kalman" where
  "predict now k =
     (let dt = (case kf_lastTs k of Some l \<Rightarrow> max (1 / 10) (secs_between l now) | None \<Rightarrow> kf_dt k);
          x = kf_x k;
          F = [[1, 0, dt, 0], [0, 1, 0, dt], [0, 0, 1, 0], [0, 0, 0, 1]]
      in \<lparr>kf_x = [x ! 0 + x ! 2 * dt, x ! 1 + x ! 3 * dt, x ! 2, x ! 3],
          kf_P = add44 (mult44 (mult44 F (kf_P k)) (transpose44 F)) (processNoiseMatrix dt),
          kf_lastTs = Some now, kf_dt = dt\<rparr>)"

definition rLat :: "real \<Rightarrow> real" where
  "rLat accuracy = max (1 / 10 ^ 10) ((accuracy / METERS_PER_DEGREE_LAT)\<^sup>2)"

definition rLng :: "real \<Rightarrow> kalman \<Rightarrow> real" where
  "rLng accuracy k = max (1 / 10 ^ 10) ((accuracy / (METERS_PER_DEGREE_LAT * cosLat (kf_x k ! 0)))\<^sup>2)"

definition detS :: "real \<Rightarrow> kalman \<Rightarrow> real" where
  "detS accuracy k =
     (kf_P k ! 0 ! 0 + rLat accuracy) * (kf_P k ! 1 ! 1 + rLng accuracy k) - kf_P k ! 0 ! 1 * kf_P k ! 1 ! 0"

definition gain :: "real \<Rightarrow> kalman \<Rightarrow> matrix" where
  "gain accuracy k =
     (let P = kf_P k; d = detS accuracy k;
          invS = [[(P ! 1 ! 1 + rLng accuracy k) / d, - (P ! 0 ! 1) / d],
                  [- (P ! 1 ! 0) / d, (P ! 0 ! 0 + rLat accuracy) / d]]
      in map (\<lambda>i. map (\<lambda>j. P ! i ! 0 * invS ! 0 ! j + P ! i ! 1 * invS ! 1 ! j) [0..<2]) [0..<4])"

definition update :: "real \<Rightarrow> real \<Rightarrow> real \<Rightarrow> kalman \<Rightarrow> kalman" where
  "update lat lng accuracy k =
     (let x = kf_x k; yLat = lat - x ! 0; yLng = lng - x ! 1; K = gain accuracy k in
      if \<bar>detS accuracy k\<bar> < 1 / 10 ^ 20 then k
      else k\<lparr>kf_x := map (\<lambda>i. x ! i + (K ! i ! 0 * yLat + K ! i ! 1 * yLng)) [0..<4],
             kf_P := mult44 (sub44 [[1, 0, 0, 0], [0, 1, 0, 0], [0, 0, 1, 0], [0, 0, 0, 1]]
                              [[K ! 0 ! 0, K ! 0 ! 1, 0, 0], [K ! 1 ! 0, K ! 1 ! 1, 0, 0],
                               [K ! 2 ! 0, K ! 2 ! 1, 0, 0], [K ! 3 ! 0, K ! 3 ! 1, 0, 0]]) (kf_P k)\<rparr>)"

definition resetKalman :: "real \<Rightarrow> real \<Rightarrow> kalman \<Rightarrow> kalman" where
  "resetKalman lat lng k = k\<lparr>kf_x := [lat, lng, 0, 0], kf_lastTs := None\<rparr>"

definition confidenceOf :: "meters \<Rightarrow> real" where
  "confidenceOf estErrorM =
     (if estErrorM < 5 then 1
      else if estErrorM < 15 then 1 - (estErrorM - 5) / 10
      else if estErrorM < 30 then max (1 / 5) (1 - (estErrorM - 5) / 25)
      else max (1 / 10) (1 - estErrorM / 60))"

definition getConfidence :: "kalman \<Rightarrow> real" where
  "getConfidence k =
     (let metersPerDegLng = METERS_PER_DEGREE_LAT * cosLat (kf_x k ! 0)
      in confidenceOf (sqrt (kf_P k ! 0 ! 0 * METERS_PER_DEGREE_LAT\<^sup>2 + kf_P k ! 1 ! 1 * metersPerDegLng\<^sup>2)))"

datatype kalman_op = Predict ms | Measure real real real | Reset real real

fun kalmanStep :: "kalman_op \<Rightarrow> kalman \<Rightarrow> kalman" where
  "kalmanStep (Predict now) k = predict now k"
| "kalmanStep (Measure lat lng acc) k = update lat lng acc k"
| "kalmanStep (Reset lat lng) k = resetKalman lat lng k"

subsection \<open>Two filters in one\<close>

text \<open>A positive semidefinite block of two by two.\<close>

definition psd :: "real \<Rightarrow> real \<Rightarrow> real \<Rightarrow> bool" where
  "psd a b c \<longleftrightarrow> 0 \<le> a \<and> 0 \<le> c \<and> b * b \<le> a * c"

lemma psd_form: "psd a b c \<longleftrightarrow> (\<forall>x y. 0 \<le> a * x * x + 2 * b * x * y + c * y * y)"
proof
  assume p: "psd a b c"
  show "\<forall>x y. 0 \<le> a * x * x + 2 * b * x * y + c * y * y"
  proof (intro allI)
    fix x y
    show "0 \<le> a * x * x + 2 * b * x * y + c * y * y"
    proof (cases "a = 0")
      case True
      with p have "b * b \<le> 0" by (simp add: psd_def)
      then have "b = 0" by (metis mult_eq_0_iff order_antisym zero_le_square)
      with True p show ?thesis by (simp add: psd_def mult.assoc)
    next
      case False
      then have a: "0 < a" using p by (simp add: psd_def)
      have "a * (a * x * x + 2 * b * x * y + c * y * y) = (a * x + b * y)\<^sup>2 + (a * c - b * b) * y\<^sup>2"
        by (simp add: power2_eq_square algebra_simps)
      also have "0 \<le> \<dots>" using p by (simp add: psd_def)
      finally show ?thesis using a by (simp add: zero_le_mult_iff)
    qed
  qed
next
  assume f: "\<forall>x y. 0 \<le> a * x * x + 2 * b * x * y + c * y * y"
  have a: "0 \<le> a" and c: "0 \<le> c" using f [rule_format, of 1 0] f [rule_format, of 0 1] by simp_all
  show "psd a b c"
  proof (cases "a = 0")
    case True
    have "b = 0"
    proof (rule ccontr)
      assume b: "b \<noteq> 0"
      have "0 \<le> 2 * b * (- (c + 1) / (2 * b)) + c" using f [rule_format, of "- (c + 1) / (2 * b)" 1] True by simp
      with b show False by (simp add: field_simps)
    qed
    with True c show ?thesis by (simp add: psd_def)
  next
    case False
    have "0 \<le> a * (c * a - b * b)" using f [rule_format, of "- b" a] by (simp add: algebra_simps)
    with False a c show ?thesis by (simp add: psd_def zero_le_mult_iff mult.commute)
  qed
qed

lemma psd_add:
  assumes "psd a b c" and "psd a' b' c'"
  shows "psd (a + a') (b + b') (c + c')"
  unfolding psd_form
proof (intro allI)
  fix x y
  have "0 \<le> (a * x * x + 2 * b * x * y + c * y * y) + (a' * x * x + 2 * b' * x * y + c' * y * y)"
    by (rule add_nonneg_nonneg) (use assms in \<open>auto simp: psd_form\<close>)
  then show "0 \<le> (a + a') * x * x + 2 * (b + b') * x * y + (c + c') * y * y" by (simp add: algebra_simps)
qed

lemma psd_shift:
  assumes "psd a b c"
  shows "psd (a + 2 * b * t + c * t * t) (b + c * t) c"
  unfolding psd_form
proof (intro allI)
  fix x y
  have "0 \<le> a * x * x + 2 * b * x * (t * x + y) + c * (t * x + y) * (t * x + y)"
    using assms unfolding psd_form by blast
  then show "0 \<le> (a + 2 * b * t + c * t * t) * x * x + 2 * (b + c * t) * x * y + c * y * y"
    by (simp add: algebra_simps)
qed

lemma psd_noise: "0 \<le> t \<Longrightarrow> psd (Q_A * t ^ 3 / 3) (Q_A * t\<^sup>2 / 2) (Q_A * t)"
  by (simp add: psd_def Q_A_def power2_eq_square power3_eq_cube algebra_simps)

lemma psd_measured:
  assumes "psd a b c" and "0 < r"
  shows "psd (a * r / (a + r)) (b * r / (a + r)) (c - b * b / (a + r))"
proof -
  have s: "0 < a + r" "0 \<le> a" "0 \<le> c" "b * b \<le> a * c" using assms by (auto simp: psd_def)
  have "b * b \<le> c * (a + r)" using s assms(2) by (simp add: distrib_left mult.commute add_increasing2)
  then have c: "0 \<le> c - b * b / (a + r)" using s(1) by (simp add: pos_divide_le_eq)
  have split: "a * r / n * (c - b * b / n) - b * r / n * (b * r / n) = r * (a * c - b * b * ((a + r) / n)) / n" if "n \<noteq> 0" for n
    using that by (simp add: field_simps)
  have "a * r / (a + r) * (c - b * b / (a + r)) - b * r / (a + r) * (b * r / (a + r)) = r * (a * c - b * b) / (a + r)"
    using s(1) by (subst split) simp_all
  also have "0 \<le> \<dots>" using s assms(2) by simp
  finally show ?thesis using s assms(2) c by (simp add: psd_def)
qed


text \<open>One axis: position, velocity and the block of its covariance.\<close>

record axis =
  ax_x :: real
  ax_v :: real
  ax_a :: real
  ax_b :: real
  ax_c :: real

definition predictAxis :: "real \<Rightarrow> axis \<Rightarrow> axis" where
  "predictAxis dt s =
     \<lparr>ax_x = ax_x s + ax_v s * dt, ax_v = ax_v s,
      ax_a = ax_a s + 2 * ax_b s * dt + ax_c s * dt * dt + Q_A * dt ^ 3 / 3,
      ax_b = ax_b s + ax_c s * dt + Q_A * dt\<^sup>2 / 2, ax_c = ax_c s + Q_A * dt\<rparr>"

definition updateAxis :: "real \<Rightarrow> real \<Rightarrow> axis \<Rightarrow> axis" where
  "updateAxis r z s =
     \<lparr>ax_x = ax_x s + ax_a s / (ax_a s + r) * (z - ax_x s), ax_v = ax_v s + ax_b s / (ax_a s + r) * (z - ax_x s),
      ax_a = ax_a s * r / (ax_a s + r), ax_b = ax_b s * r / (ax_a s + r), ax_c = ax_c s - ax_b s * ax_b s / (ax_a s + r)\<rparr>"

definition axisOk :: "axis \<Rightarrow> bool" where "axisOk s \<longleftrightarrow> psd (ax_a s) (ax_b s) (ax_c s)"

text \<open>The filter whose state is a pair of axes.\<close>

definition twoAxes :: "kalman \<Rightarrow> axis \<Rightarrow> axis \<Rightarrow> bool" where
  "twoAxes k s w \<longleftrightarrow>
     kf_x k = [ax_x s, ax_x w, ax_v s, ax_v w]
     \<and> kf_P k = [[ax_a s, 0, ax_b s, 0], [0, ax_a w, 0, ax_b w], [ax_b s, 0, ax_c s, 0], [0, ax_b w, 0, ax_c w]]"

lemmas upto_four = upt_rec [of 0 4] upt_rec [of 1 4] upt_rec [of 2 4] upt_rec [of 3 4]

lemma range_four: "[0..<4] = [0, 1, 2, 3]" "[0..<2] = [0, 1]"
  by (simp_all add: upt_rec)

lemma predict_axes:
  assumes "twoAxes k s w"
  shows "twoAxes (predict now k) (predictAxis (kf_dt (predict now k)) s) (predictAxis (kf_dt (predict now k)) w)"
  using assms unfolding twoAxes_def predict_def predictAxis_def Let_def mult44_def transpose44_def add44_def
    processNoiseMatrix_def range_four
  by (simp add: algebra_simps)

lemma rLat_pos: "1 / 10 ^ 10 \<le> rLat a" "1 / 10 ^ 10 \<le> rLng a k"
  by (simp_all add: rLat_def rLng_def)

lemma detS_axes:
  assumes "twoAxes k s w" and "axisOk s" and "axisOk w"
  shows "detS acc k = (ax_a s + rLat acc) * (ax_a w + rLng acc k)" and "1 / 10 ^ 20 \<le> detS acc k"
proof -
  show d: "detS acc k = (ax_a s + rLat acc) * (ax_a w + rLng acc k)"
    using assms(1) by (simp add: twoAxes_def detS_def)
  have "1 / 10 ^ 10 \<le> ax_a s + rLat acc" "1 / 10 ^ 10 \<le> ax_a w + rLng acc k"
    using assms(2,3) rLat_pos by (simp_all add: axisOk_def psd_def add_increasing)
  then have "1 / 10 ^ 10 * (1 / 10 ^ 10) \<le> detS acc k" unfolding d by (intro mult_mono) simp_all
  then show "1 / 10 ^ 20 \<le> detS acc k" by simp
qed

lemma shares:
  fixes a r t :: real
  assumes "a + r \<noteq> 0"
  shows "(1 - a / (a + r)) * t = t * r / (a + r)" and "t - t * a / (a + r) = t * r / (a + r)"
proof -
  have "1 - a / (a + r) = r / (a + r)" using assms by (simp add: field_simps)
  then show "(1 - a / (a + r)) * t = t * r / (a + r)" by simp
  have "t = t * (a + r) / (a + r)" using assms by simp
  then have "t - t * a / (a + r) = (t * (a + r) - t * a) / (a + r)" by (simp only: diff_divide_distrib)
  then show "t - t * a / (a + r) = t * r / (a + r)" by (simp add: distrib_left)
qed

lemma update_axes:
  assumes "twoAxes k s w" and "axisOk s" and "axisOk w"
  shows "twoAxes (update lat lng acc k) (updateAxis (rLat acc) lat s) (updateAxis (rLng acc k) lng w)"
proof -
  let ?r = "rLat acc" and ?q = "rLng acc k"
  have pos: "0 < ax_a s + ?r" "0 < ax_a w + ?q"
    using assms(2,3) rLat_pos(1) [of acc] rLat_pos(2) [of acc k] by (simp_all add: axisOk_def psd_def)
  note d = detS_axes [OF assms, of acc]
  have P: "kf_P k = [[ax_a s, 0, ax_b s, 0], [0, ax_a w, 0, ax_b w], [ax_b s, 0, ax_c s, 0], [0, ax_b w, 0, ax_c w]]"
    and x: "kf_x k = [ax_x s, ax_x w, ax_v s, ax_v w]" using assms(1) by (simp_all add: twoAxes_def)
  have K: "gain acc k = [[ax_a s / (ax_a s + ?r), 0], [0, ax_a w / (ax_a w + ?q)],
      [ax_b s / (ax_a s + ?r), 0], [0, ax_b w / (ax_a w + ?q)]]"
    using pos unfolding gain_def Let_def range_four P d(1) by simp
  have "\<not> \<bar>detS acc k\<bar> < 1 / 10 ^ 20" using d(2) by simp
  then show ?thesis
    unfolding twoAxes_def update_def Let_def K x P mult44_def sub44_def range_four updateAxis_def
    using shares [OF less_imp_neq [OF pos(1), symmetric]] shares [OF less_imp_neq [OF pos(2), symmetric]] by simp
qed


definition kalmanOk :: "kalman \<Rightarrow> bool" where
  "kalmanOk k \<longleftrightarrow> 0 \<le> kf_dt k \<and> (\<exists>s w. twoAxes k s w \<and> axisOk s \<and> axisOk w)"

lemma predictAxis_ok: "axisOk s \<Longrightarrow> 0 \<le> dt \<Longrightarrow> axisOk (predictAxis dt s)"
  using psd_add [OF psd_shift psd_noise] by (simp add: axisOk_def predictAxis_def)

lemma updateAxis_ok: "axisOk s \<Longrightarrow> 1 / 10 ^ 10 \<le> r \<Longrightarrow> axisOk (updateAxis r z s)"
  using psd_measured [of "ax_a s" "ax_b s" "ax_c s" r] by (simp add: axisOk_def updateAxis_def)

lemma newKalman_ok: "kalmanOk (newKalman lat lng acc)"
proof -
  let ?k = "newKalman lat lng acc"
  let ?s = "\<lparr>ax_x = lat, ax_v = 0, ax_a = kf_P ?k ! 0 ! 0, ax_b = 0, ax_c = kf_P ?k ! 2 ! 2\<rparr>"
  let ?w = "\<lparr>ax_x = lng, ax_v = 0, ax_a = kf_P ?k ! 1 ! 1, ax_b = 0, ax_c = kf_P ?k ! 3 ! 3\<rparr>"
  have "twoAxes ?k ?s ?w \<and> axisOk ?s \<and> axisOk ?w"
    by (simp add: twoAxes_def axisOk_def psd_def newKalman_def Let_def)
  moreover have "0 \<le> kf_dt ?k" by (simp add: newKalman_def Let_def)
  ultimately show ?thesis unfolding kalmanOk_def by blast
qed

lemma step_ok:
  assumes "kalmanOk k"
  shows "kalmanOk (kalmanStep e k)"
proof -
  from assms obtain s w where k: "0 \<le> kf_dt k" "twoAxes k s w" "axisOk s" "axisOk w" by (auto simp: kalmanOk_def)
  show ?thesis
  proof (cases e)
    case (Predict now)
    have "0 \<le> kf_dt (predict now k)" using k(1) by (simp add: predict_def Let_def le_max_iff_disj split: option.split)
    with predict_axes [OF k(2), of now] predictAxis_ok k(3,4) show ?thesis by (auto simp: Predict kalmanOk_def)
  next
    case (Measure lat lng acc)
    have "kf_dt (update lat lng acc k) = kf_dt k" by (simp add: update_def Let_def)
    with update_axes [OF k(2-4), of lat lng acc] updateAxis_ok [OF k(3) rLat_pos(1) [of acc], of lat]
      updateAxis_ok [OF k(4) rLat_pos(2) [of acc k], of lng] k(1)
    show ?thesis unfolding Measure kalmanStep.simps kalmanOk_def by auto
  next
    case (Reset lat lng)
    have "twoAxes (resetKalman lat lng k) (s\<lparr>ax_x := lat, ax_v := 0\<rparr>) (w\<lparr>ax_x := lng, ax_v := 0\<rparr>)"
      using k(2) by (simp add: twoAxes_def resetKalman_def)
    moreover have "axisOk (s\<lparr>ax_x := lat, ax_v := 0\<rparr>)" "axisOk (w\<lparr>ax_x := lng, ax_v := 0\<rparr>)"
      using k(3,4) by (simp_all add: axisOk_def)
    moreover have "0 \<le> kf_dt (resetKalman lat lng k)" using k(1) by (simp add: resetKalman_def)
    ultimately show ?thesis unfolding Reset kalmanStep.simps kalmanOk_def by blast
  qed
qed

lemma kalman_run_ok: "kalmanOk (fold kalmanStep es (newKalman lat lng acc))"
  by (rule fold_invariant [where Q = "\<lambda>_. True"]) (simp_all add: newKalman_ok step_ok)

text \<open>C36. The filter never degenerates: after any sequence of predictions, measurements and resets, the
determinant of a measurement is never taken for zero, the new latitude and longitude lie between the
predicted ones and the measured ones, and the measurement does not increase the variance of either.\<close>

theorem kalman_estimate_lies_between:
  fixes es lat0 lng0 acc0
  shows "let k = fold kalmanStep es (newKalman lat0 lng0 acc0); k' = update lat lng acc k
         in 1 / 10 ^ 20 \<le> detS acc k
          \<and> (\<exists>p. 0 \<le> p \<and> p < 1 \<and> kf_x k' ! 0 = (1 - p) * kf_x k ! 0 + p * lat)
          \<and> (\<exists>p. 0 \<le> p \<and> p < 1 \<and> kf_x k' ! 1 = (1 - p) * kf_x k ! 1 + p * lng)
          \<and> 0 \<le> kf_P k' ! 0 ! 0 \<and> kf_P k' ! 0 ! 0 \<le> kf_P k ! 0 ! 0
          \<and> 0 \<le> kf_P k' ! 1 ! 1 \<and> kf_P k' ! 1 ! 1 \<le> kf_P k ! 1 ! 1"
proof -
  define k where "k = fold kalmanStep es (newKalman lat0 lng0 acc0)"
  have "kalmanOk k" unfolding k_def by (rule kalman_run_ok)
  then obtain s w where k: "twoAxes k s w" "axisOk s" "axisOk w" by (auto simp: kalmanOk_def)
  note new = update_axes [OF k, of lat lng acc]
  have one: "(\<exists>p. 0 \<le> p \<and> p < 1 \<and> ax_x (updateAxis r z t) = (1 - p) * ax_x t + p * z)
      \<and> 0 \<le> ax_a (updateAxis r z t) \<and> ax_a (updateAxis r z t) \<le> ax_a t"
    if "axisOk t" "1 / 10 ^ 10 \<le> r" for t r z
  proof -
    have a: "0 \<le> ax_a t" "0 < r" using that by (simp_all add: axisOk_def psd_def)
    let ?p = "ax_a t / (ax_a t + r)"
    have p: "0 \<le> ?p" "?p < 1" using a by simp_all
    have "x + p * (z - x) = (1 - p) * x + p * z" for x p :: real by (simp add: algebra_simps)
    from this [of "ax_x t" ?p] have x: "ax_x (updateAxis r z t) = (1 - ?p) * ax_x t + ?p * z"
      unfolding updateAxis_def axis.simps .
    have "ax_a t * r / (ax_a t + r) \<le> ax_a t" using a by (simp add: pos_divide_le_eq distrib_left)
    then have v: "0 \<le> ax_a (updateAxis r z t) \<and> ax_a (updateAxis r z t) \<le> ax_a t" using a by (simp add: updateAxis_def)
    show ?thesis by (intro conjI exI [of _ ?p] p x v [THEN conjunct1] v [THEN conjunct2])
  qed
  from one [OF k(2) rLat_pos(1), of acc lat] one [OF k(3) rLat_pos(2), of acc k lng] new k(1) detS_axes(2) [OF k, of acc]
  show ?thesis unfolding Let_def k_def [symmetric] by (simp add: twoAxes_def)
qed

text \<open>The confidence that the driver sees is not monotone: an estimated error of 14.9 m gives one percent,
an error of 15 m gives sixty.\<close>

theorem confidence_jumps: "confidenceOf (149 / 10) = 1 / 100 \<and> confidenceOf 15 = 3 / 5"
  by (simp add: confidenceOf_def)

lemma confidence_range: "0 < confidenceOf e \<and> confidenceOf e \<le> 1"
  by (auto simp: confidenceOf_def)

end
