(* ===== verification/Billing.thy ===== *)
theory Billing
  imports DT_Prelude Pagination
begin

text \<open>
  Payment by hand and the access it buys: \<open>modules/manual-billing\<close>,
  \<open>platform-admin/payment-proofs.service.ts\<close>, \<open>common/utils/activation-code.util.ts\<close>, and the guards
  \<open>subscription.guard.ts\<close> and \<open>usage.guard.ts\<close>. The hash of a code (SHA-256) is the parameter \<open>H\<close>; the
  random bytes of a code are an argument. Text is ASCII. The image of a proof is its type and size.
\<close>

definition MAX_PROOF_IMAGE_BYTES :: nat where "MAX_PROOF_IMAGE_BYTES = 5 * 1024 * 1024"
definition PAID_SUBSCRIPTION_DURATION_MS :: ms where "PAID_SUBSCRIPTION_DURATION_MS = 30 * 24 * 60 * 60 * 1000"
definition ACTIVATION_CODE_VALIDITY_MS :: ms where "ACTIVATION_CODE_VALIDITY_MS = 14 * 24 * 60 * 60 * 1000"
definition TRIAL_MS :: ms where "TRIAL_MS = 14 * 24 * 60 * 60 * 1000"
definition CODE_ALPHABET :: string where "CODE_ALPHABET = ''ABCDEFGHJKMNPQRSTUVWXYZ23456789''"
definition CODE_SUFFIX_LENGTH :: nat where "CODE_SUFFIX_LENGTH = 8"
definition ALLOWED_IMAGE_MIME_TYPES :: "string list" where
  "ALLOWED_IMAGE_MIME_TYPES = [''image/jpeg'', ''image/png'', ''image/webp'']"

datatype sub_status = Trialing | SubActive | PastDue | Unpaid | SubCanceled | Incomplete
datatype pay_status = PayPending | PayApproved | PayRejected

record billing_plan =
  bp_id :: ident
  bp_price :: int
  bp_active :: bool
  bp_free :: bool
  bp_maxDeliveries :: "nat option"
  bp_maxVehicles :: "nat option"
  bp_maxUsers :: "nat option"

record pay_method =
  pm_id :: ident
  pm_active :: bool

record pay_proof =
  pf_id :: nat
  pf_company :: ident
  pf_by :: ident
  pf_plan :: ident
  pf_amount :: int
  pf_method :: ident
  pf_reference :: string
  pf_mime :: string
  pf_status :: pay_status
  pf_reviewer :: "ident option"
  pf_reviewedAt :: "ms option"
  pf_reason :: "string option"
  pf_hash :: "string option"
  pf_prefix :: "string option"
  pf_expires :: "ms option"
  pf_redeemed :: "ms option"

record paid_sub =
  su_plan :: ident
  su_status :: sub_status
  su_start :: ms
  su_end :: ms
  su_trialEnd :: "ms option"

record bstate =
  b_now :: ms
  b_plans :: "billing_plan list"
  b_methods :: "pay_method list"
  b_proofs :: "pay_proof list"
  b_next :: nat
  b_subs :: "ident \<rightharpoonup> paid_sub"

datatype billing_error =
  ImageRequired | BadImageType | ImageTooLarge | NoPlan | NoMethod | AlreadyPending
| NoProof | AlreadyReviewed | HashTaken | BadCode | CodeUsed | CodeExpired

subsection \<open>Activation codes\<close>

definition upperChar :: "char \<Rightarrow> char" where
  "upperChar ch = (if 97 \<le> (of_char ch :: nat) \<and> (of_char ch :: nat) \<le> 122 then char_of ((of_char ch :: nat) - 32) else ch)"

definition trimText :: "string \<Rightarrow> string" where
  "trimText s = rev (dropWhile isSpace (rev (dropWhile isSpace s)))"

definition hashActivationCode :: "(string \<Rightarrow> string) \<Rightarrow> string \<Rightarrow> string" where
  "hashActivationCode H raw = H (map upperChar (trimText raw))"

definition codeSuffix :: "nat list \<Rightarrow> string" where
  "codeSuffix bytes = map (\<lambda>i. CODE_ALPHABET ! (bytes ! i mod length CODE_ALPHABET)) [0..<CODE_SUFFIX_LENGTH]"

definition generateActivationCode :: "(string \<Rightarrow> string) \<Rightarrow> nat list \<Rightarrow> string \<times> string \<times> string" where
  "generateActivationCode H bytes =
     (let suffix = codeSuffix bytes; code = ''PAY-'' @ suffix
      in (code, ''PAY-'' @ take 4 suffix, hashActivationCode H code))"

subsection \<open>The client\<close>

text \<open>The index on pending proofs makes a second pending proof of a company impossible; the check before it
answers the same error.\<close>

definition pendingOf :: "ident \<Rightarrow> bstate \<Rightarrow> pay_proof option" where
  "pendingOf company s = find (\<lambda>p. pf_company p = company \<and> pf_status p = PayPending) (b_proofs s)"

record proof_dto =
  pd_plan :: ident
  pd_method :: ident
  pd_reference :: string

definition submitProof ::
    "ident \<Rightarrow> ident \<Rightarrow> proof_dto \<Rightarrow> (string \<times> nat) option \<Rightarrow> bstate \<Rightarrow> (billing_error + nat) \<times> bstate" where
  "submitProof company user dto upload s =
     (case upload of
        None \<Rightarrow> (Inl ImageRequired, s)
      | Some (mime, bytes) \<Rightarrow>
          if mime \<notin> set ALLOWED_IMAGE_MIME_TYPES then (Inl BadImageType, s)
          else if MAX_PROOF_IMAGE_BYTES < bytes then (Inl ImageTooLarge, s)
          else (case find (\<lambda>p. bp_id p = pd_plan dto \<and> bp_active p \<and> \<not> bp_free p) (b_plans s) of
                  None \<Rightarrow> (Inl NoPlan, s)
                | Some p \<Rightarrow>
                    (case find (\<lambda>m. pm_id m = pd_method dto \<and> pm_active m) (b_methods s) of
                       None \<Rightarrow> (Inl NoMethod, s)
                     | Some m \<Rightarrow>
                         if pendingOf company s \<noteq> None then (Inl AlreadyPending, s)
                         else (Inr (b_next s),
                               s\<lparr>b_next := Suc (b_next s),
                                 b_proofs := b_proofs s @
                                   [\<lparr>pf_id = b_next s, pf_company = company, pf_by = user, pf_plan = bp_id p,
                                     pf_amount = bp_price p, pf_method = pm_id m, pf_reference = trimText (pd_reference dto),
                                     pf_mime = mime, pf_status = PayPending, pf_reviewer = None, pf_reviewedAt = None,
                                     pf_reason = None, pf_hash = None, pf_prefix = None, pf_expires = None,
                                     pf_redeemed = None\<rparr>]\<rparr>))))"

definition setProof :: "nat \<Rightarrow> (pay_proof \<Rightarrow> pay_proof) \<Rightarrow> bstate \<Rightarrow> bstate" where
  "setProof i f s = s\<lparr>b_proofs := map (\<lambda>p. if pf_id p = i then f p else p) (b_proofs s)\<rparr>"

definition redeem :: "(string \<Rightarrow> string) \<Rightarrow> ident \<Rightarrow> string \<Rightarrow> bstate \<Rightarrow> (billing_error + paid_sub) \<times> bstate" where
  "redeem H company rawCode s =
     (case find (\<lambda>p. pf_hash p = Some (hashActivationCode H rawCode)) (b_proofs s) of
        None \<Rightarrow> (Inl BadCode, s)
      | Some p \<Rightarrow>
          if pf_company p \<noteq> company then (Inl BadCode, s)
          else if pf_redeemed p \<noteq> None then (Inl CodeUsed, s)
          else if (case pf_expires p of Some t \<Rightarrow> t < b_now s | None \<Rightarrow> False) then (Inl CodeExpired, s)
          else (let now = b_now s; paidEnd = now + PAID_SUBSCRIPTION_DURATION_MS;
                    row = (case b_subs s company of
                             Some r \<Rightarrow> r\<lparr>su_plan := pf_plan p, su_status := SubActive, su_start := now, su_end := paidEnd\<rparr>
                           | None \<Rightarrow> \<lparr>su_plan = pf_plan p, su_status = SubActive, su_start = now, su_end = paidEnd,
                                      su_trialEnd = None\<rparr>)
                in (Inr row,
                    (setProof (pf_id p) (\<lambda>q. q\<lparr>pf_redeemed := Some now\<rparr>) s)\<lparr>b_subs := (b_subs s)(company \<mapsto> row)\<rparr>)))"

record billing_view =
  bv_status :: sub_status
  bv_trialEnd :: "ms option"
  bv_days :: "int option"
  bv_plan :: ident

definition getStatus :: "ident \<Rightarrow> bstate \<Rightarrow> billing_view option" where
  "getStatus company s =
     map_option (\<lambda>r. \<lparr>bv_status = su_status r, bv_trialEnd = su_trialEnd r,
       bv_days = map_option (\<lambda>e. max 0 \<lceil>real_of_int (e - b_now s) / 86400000\<rceil>)
                   (if su_status r = Trialing then su_trialEnd r else Some (su_end r)),
       bv_plan = su_plan r\<rparr>) (b_subs s company)"

text \<open>The trial that registration opens.\<close>

definition openTrial :: "ident \<Rightarrow> ident \<Rightarrow> bstate \<Rightarrow> bstate" where
  "openTrial company trialPlan s =
     (case b_subs s company of
        Some r \<Rightarrow> s
      | None \<Rightarrow> s\<lparr>b_subs := (b_subs s)(company \<mapsto>
          \<lparr>su_plan = trialPlan, su_status = Trialing, su_start = b_now s, su_end = b_now s + TRIAL_MS,
           su_trialEnd = Some (b_now s + TRIAL_MS)\<rparr>)\<rparr>)"

subsection \<open>The back office\<close>

definition proofById :: "nat \<Rightarrow> bstate \<Rightarrow> pay_proof option" where
  "proofById i s = find (\<lambda>p. pf_id p = i) (b_proofs s)"

definition approve ::
    "(string \<Rightarrow> string) \<Rightarrow> nat list \<Rightarrow> nat \<Rightarrow> ident \<Rightarrow> bstate \<Rightarrow> (billing_error + string \<times> ms) \<times> bstate" where
  "approve H bytes i admin s =
     (case proofById i s of
        None \<Rightarrow> (Inl NoProof, s)
      | Some p \<Rightarrow>
          if pf_status p \<noteq> PayPending then (Inl AlreadyReviewed, s)
          else (let (code, prefix, hash) = generateActivationCode H bytes;
                    expiresAt = b_now s + ACTIVATION_CODE_VALIDITY_MS
                in if \<exists>q\<in>set (b_proofs s). pf_hash q = Some hash then (Inl HashTaken, s)
                   else (Inr (code, expiresAt),
                         setProof i (\<lambda>q. q\<lparr>pf_status := PayApproved, pf_reviewer := Some admin,
                           pf_reviewedAt := Some (b_now s), pf_hash := Some hash, pf_prefix := Some prefix,
                           pf_expires := Some expiresAt\<rparr>) s)))"

definition reject :: "nat \<Rightarrow> ident \<Rightarrow> string \<Rightarrow> bstate \<Rightarrow> (billing_error + unit) \<times> bstate" where
  "reject i admin reason s =
     (case proofById i s of
        None \<Rightarrow> (Inl NoProof, s)
      | Some p \<Rightarrow>
          if pf_status p \<noteq> PayPending then (Inl AlreadyReviewed, s)
          else (Inr (), setProof i (\<lambda>q. q\<lparr>pf_status := PayRejected, pf_reviewer := Some admin,
                  pf_reviewedAt := Some (b_now s), pf_reason := Some reason\<rparr>) s))"

subsection \<open>The guards\<close>

text \<open>What the token of a request says: nothing usable, an account without a company, or a company.\<close>

datatype bearer = NoBearer | OutsideTenants | OfCompany ident

definition subscriptionGuard :: "bool \<Rightarrow> bearer \<Rightarrow> bstate \<Rightarrow> bool \<times> bstate" where
  "subscriptionGuard skip who s =
     (if skip then (True, s)
      else case who of
        NoBearer \<Rightarrow> (True, s)
      | OutsideTenants \<Rightarrow> (True, s)
      | OfCompany company \<Rightarrow>
          (case b_subs s company of
             None \<Rightarrow> (False, s)
           | Some r \<Rightarrow>
               (let expired = (False, s\<lparr>b_subs := (b_subs s)(company \<mapsto> r\<lparr>su_status := PastDue\<rparr>)\<rparr>) in
                if su_status r = Trialing
                then (if (case su_trialEnd r of Some t \<Rightarrow> t < b_now s | None \<Rightarrow> False) then expired else (True, s))
                else if su_status r = SubActive
                then (if su_end r < b_now s then expired else (True, s))
                else (False, s))))"

datatype counted_route = PostDelivery | PostVehicle | PostUser | OtherRoute

definition withinLimit :: "billing_plan \<Rightarrow> counted_route \<Rightarrow> nat \<Rightarrow> bool" where
  "withinLimit p route count =
     (case (case route of PostDelivery \<Rightarrow> bp_maxDeliveries p | PostVehicle \<Rightarrow> bp_maxVehicles p
              | PostUser \<Rightarrow> bp_maxUsers p | OtherRoute \<Rightarrow> None) of
        None \<Rightarrow> True
      | Some limit \<Rightarrow> \<not> limit \<le> count)"

definition usageGuard :: "bool \<Rightarrow> ident option \<Rightarrow> counted_route \<Rightarrow> nat \<Rightarrow> bstate \<Rightarrow> bool" where
  "usageGuard billingEnabled company route count s =
     (if \<not> billingEnabled then True
      else case company of
        None \<Rightarrow> True
      | Some c \<Rightarrow>
          (case b_subs s c of
             None \<Rightarrow> (case find bp_free (b_plans s) of None \<Rightarrow> True | Some p \<Rightarrow> withinLimit p route count)
           | Some r \<Rightarrow>
               (case find (\<lambda>p. bp_id p = su_plan r) (b_plans s) of
                  None \<Rightarrow> (case find bp_free (b_plans s) of None \<Rightarrow> True | Some p \<Rightarrow> withinLimit p route count)
                | Some p \<Rightarrow> if su_status r \<noteq> SubActive then False else withinLimit p route count)))"

subsection \<open>Runs\<close>

datatype billing_event =
  OpenTrial ident ident
| Submit ident ident proof_dto "(string \<times> nat) option"
| Approve "nat list" nat ident
| Reject nat ident string
| Redeem ident string
| Request bool bearer

fun billingStep :: "(string \<Rightarrow> string) \<Rightarrow> billing_event \<Rightarrow> bstate \<Rightarrow> bstate" where
  "billingStep H (OpenTrial c p) s = openTrial c p s"
| "billingStep H (Submit c u dto upload) s = snd (submitProof c u dto upload s)"
| "billingStep H (Approve bytes i a) s = snd (approve H bytes i a s)"
| "billingStep H (Reject i a r) s = snd (reject i a r s)"
| "billingStep H (Redeem c code) s = snd (redeem H c code s)"
| "billingStep H (Request skip who) s = snd (subscriptionGuard skip who s)"

definition billingRun :: "(string \<Rightarrow> string) \<Rightarrow> (ms \<times> billing_event) list \<Rightarrow> bstate \<Rightarrow> bstate" where
  "billingRun H es s = fold (\<lambda>(now, e) s. billingStep H e (s\<lparr>b_now := now\<rparr>)) es s"


subsection \<open>What every reachable state satisfies\<close>

definition proofOk :: "pay_proof \<Rightarrow> bool" where
  "proofOk p \<longleftrightarrow>
     (case pf_status p of
        PayApproved \<Rightarrow> (\<exists>h t. pf_hash p = Some h \<and> pf_reviewedAt p = Some t \<and> pf_expires p = Some (t + ACTIVATION_CODE_VALIDITY_MS)
          \<and> (\<forall>r. pf_redeemed p = Some r \<longrightarrow> r \<le> t + ACTIVATION_CODE_VALIDITY_MS))
      | _ \<Rightarrow> pf_hash p = None \<and> pf_redeemed p = None)"

definition paidBy :: "pay_proof \<Rightarrow> ident \<Rightarrow> paid_sub \<Rightarrow> bool" where
  "paidBy p c r \<longleftrightarrow> pf_company p = c \<and> pf_status p = PayApproved \<and> pf_redeemed p = Some (su_start r)
     \<and> su_end r = su_start r + PAID_SUBSCRIPTION_DURATION_MS"

definition subOk :: "pay_proof set \<Rightarrow> ident \<Rightarrow> paid_sub \<Rightarrow> bool" where
  "subOk ps c r \<longleftrightarrow> (su_status r = Trialing \<longrightarrow> su_trialEnd r \<noteq> None) \<and> (su_status r = SubActive \<longrightarrow> (\<exists>p\<in>ps. paidBy p c r))"

definition proofsOk :: "bstate \<Rightarrow> bool" where
  "proofsOk s \<longleftrightarrow> distinct (map pf_id (b_proofs s)) \<and> (\<forall>p\<in>set (b_proofs s). pf_id p < b_next s \<and> proofOk p)
     \<and> (\<forall>p\<in>set (b_proofs s). \<forall>q\<in>set (b_proofs s). pf_hash p \<noteq> None \<and> pf_hash p = pf_hash q \<longrightarrow> p = q)
     \<and> (\<forall>p\<in>set (b_proofs s). \<forall>q\<in>set (b_proofs s).
          pf_company p = pf_company q \<and> pf_status p = PayPending \<and> pf_status q = PayPending \<longrightarrow> p = q)"

definition billingOk :: "bstate \<Rightarrow> bool" where
  "billingOk s \<longleftrightarrow> proofsOk s \<and> (\<forall>c r. b_subs s c = Some r \<longrightarrow> subOk (set (b_proofs s)) c r)"

lemma proofsOk_cong: "b_proofs s = b_proofs t \<Longrightarrow> b_next s = b_next t \<Longrightarrow> proofsOk s = proofsOk t"
  by (simp only: proofsOk_def)

lemma proofsOk_frame [simp]: "proofsOk (s\<lparr>b_subs := x\<rparr>) = proofsOk s" "proofsOk (s\<lparr>b_now := now\<rparr>) = proofsOk s"
  by (rule proofsOk_cong; simp)+

lemma proofsOk_member: "proofsOk s \<Longrightarrow> p \<in> set (b_proofs s) \<Longrightarrow> proofOk p"
  by (simp add: proofsOk_def)

lemma proofById_in: "proofById i s = Some p \<Longrightarrow> p \<in> set (b_proofs s) \<and> pf_id p = i"
  by (auto simp: proofById_def find_Some_iff)

lemma same_id: "proofsOk s \<Longrightarrow> p \<in> set (b_proofs s) \<Longrightarrow> q \<in> set (b_proofs s) \<Longrightarrow> pf_id p = pf_id q \<Longrightarrow> p = q"
  by (auto simp: proofsOk_def distinct_map dest: inj_onD)

lemma set_setProof:
  assumes "proofsOk s" and "p \<in> set (b_proofs s)"
  shows "set (b_proofs (setProof (pf_id p) f s)) = insert (f p) (set (b_proofs s) - {p})"
proof -
  have "(if pf_id q = pf_id p then f q else q) = (if q = p then f q else q)" if "q \<in> set (b_proofs s)" for q
    using same_id [OF assms(1) that assms(2)] by auto
  then have "(\<lambda>q. if pf_id q = pf_id p then f q else q) ` set (b_proofs s) = (\<lambda>q. if q = p then f q else q) ` set (b_proofs s)"
    by (intro image_cong) simp_all
  also have "\<dots> = insert (f p) (set (b_proofs s) - {p})" using assms(2) by auto
  finally show ?thesis by (simp add: setProof_def)
qed

lemma setProof_ok:
  assumes "proofsOk s" and "p \<in> set (b_proofs s)" and "pf_id (f p) = pf_id p" and "proofOk (f p)"
    and "pf_hash (f p) = pf_hash p \<or> (\<forall>q\<in>set (b_proofs s). pf_hash q \<noteq> pf_hash (f p))"
    and "pf_company (f p) = pf_company p" and "pf_status (f p) = PayPending \<Longrightarrow> pf_status p = PayPending"
  shows "proofsOk (setProof (pf_id p) f s)"
proof -
  let ?t = "setProof (pf_id p) f s"
  have next_same: "b_next ?t = b_next s" by (simp add: setProof_def)
  have ids: "map pf_id (b_proofs ?t) = map pf_id (b_proofs s)"
  proof -
    have "pf_id (if pf_id q = pf_id p then f q else q) = pf_id q" if "q \<in> set (b_proofs s)" for q
      using same_id [OF assms(1) that assms(2)] assms(3) by auto
    then show ?thesis by (simp add: setProof_def comp_def)
  qed
  show ?thesis
    unfolding proofsOk_def ids next_same set_setProof [OF assms(1,2)]
  proof (intro conjI ballI impI)
    show "distinct (map pf_id (b_proofs s))" using assms(1) by (simp add: proofsOk_def)
    fix q assume q: "q \<in> insert (f p) (set (b_proofs s) - {p})"
    with assms(1-4) show "pf_id q < b_next s" "proofOk q" by (auto simp: proofsOk_def)
    fix r assume r: "r \<in> insert (f p) (set (b_proofs s) - {p})"
    { assume "pf_hash q \<noteq> None \<and> pf_hash q = pf_hash r"
      with q r assms(1,2,5) show "q = r" unfolding proofsOk_def by (metis DiffE insertE singletonI) }
    { assume "pf_company q = pf_company r \<and> pf_status q = PayPending \<and> pf_status r = PayPending"
      with q r assms(1,2,6,7) show "q = r" unfolding proofsOk_def by (metis DiffE insertE singletonI) }
  qed
qed

lemma setProof_frame [simp]: "b_subs (setProof i f s) = b_subs s" "b_now (setProof i f s) = b_now s"
  by (simp_all add: setProof_def)

text \<open>What pays a period stays when a proof that paid nothing changes.\<close>

lemma subs_kept:
  assumes "billingOk s" and "p \<in> set (b_proofs s)" and "pf_redeemed p = None" and "b_subs s c = Some r"
  shows "subOk (insert p' (set (b_proofs s) - {p})) c r"
proof -
  have "q \<noteq> p" if "paidBy q c r" for q using that assms(3) by (auto simp: paidBy_def)
  with assms(1,4) show ?thesis unfolding billingOk_def subOk_def by blast
qed

lemma approve_ok: "billingOk s \<Longrightarrow> billingOk (snd (approve H bytes i a s))"
proof (cases "proofById i s")
  case (Some p)
  assume ok: "billingOk s"
  have p: "p \<in> set (b_proofs s)" "pf_id p = i" using proofById_in [OF Some] by simp_all
  have P: "proofsOk s" using ok by (simp add: billingOk_def)
  obtain code prefix hash where gen: "generateActivationCode H bytes = (code, prefix, hash)" by (metis surj_pair)
  let ?f = "\<lambda>q. q\<lparr>pf_status := PayApproved, pf_reviewer := Some a, pf_reviewedAt := Some (b_now s), pf_hash := Some hash,
     pf_prefix := Some prefix, pf_expires := Some (b_now s + ACTIVATION_CODE_VALIDITY_MS)\<rparr>"
  show ?thesis
  proof (cases "pf_status p \<noteq> PayPending \<or> (\<exists>q\<in>set (b_proofs s). pf_hash q = Some hash)")
    case True
    then show ?thesis using ok by (auto simp: approve_def Some gen)
  next
    case False
    then have fresh: "pf_status p = PayPending" "\<forall>q\<in>set (b_proofs s). pf_hash q \<noteq> Some hash" by auto
    have none: "pf_redeemed p = None" using proofsOk_member [OF P p(1)] fresh(1) by (simp add: proofOk_def)
    have new: "snd (approve H bytes i a s) = setProof (pf_id p) ?f s"
      using False p(2) by (auto simp: approve_def Some gen Let_def)
    have "proofsOk (setProof (pf_id p) ?f s)"
      by (rule setProof_ok [OF P p(1)]) (use fresh none in \<open>auto simp: proofOk_def\<close>)
    then show ?thesis
      unfolding new billingOk_def set_setProof [OF P p(1)] using subs_kept [OF ok p(1) none] by simp
  qed
qed (simp add: approve_def)

lemma reject_ok: "billingOk s \<Longrightarrow> billingOk (snd (reject i a reason s))"
proof (cases "proofById i s")
  case (Some p)
  assume ok: "billingOk s"
  have p: "p \<in> set (b_proofs s)" "pf_id p = i" using proofById_in [OF Some] by simp_all
  have P: "proofsOk s" using ok by (simp add: billingOk_def)
  let ?f = "\<lambda>q. q\<lparr>pf_status := PayRejected, pf_reviewer := Some a, pf_reviewedAt := Some (b_now s), pf_reason := Some reason\<rparr>"
  show ?thesis
  proof (cases "pf_status p = PayPending")
    case False
    then show ?thesis using ok by (simp add: reject_def Some)
  next
    case True
    have none: "pf_redeemed p = None" "pf_hash p = None"
      using proofsOk_member [OF P p(1)] True by (simp_all add: proofOk_def)
    have "proofsOk (setProof (pf_id p) ?f s)"
      by (rule setProof_ok [OF P p(1)]) (use none in \<open>auto simp: proofOk_def\<close>)
    then show ?thesis
      using True p(2) subs_kept [OF ok p(1) none(1)] set_setProof [OF P p(1), of ?f]
      by (simp add: reject_def Some billingOk_def)
  qed
qed (simp add: reject_def)


lemma submit_cases:
  obtains e where "submitProof c u dto upload s = (Inl e, s)"
    | p where "submitProof c u dto upload s = (Inr (b_next s), s\<lparr>b_next := Suc (b_next s), b_proofs := b_proofs s @ [p]\<rparr>)"
      "pendingOf c s = None" "pf_id p = b_next s" "pf_company p = c" "pf_status p = PayPending" "pf_hash p = None" "pf_redeemed p = None"
proof -
  have "(\<exists>e. submitProof c u dto upload s = (Inl e, s))
      \<or> (\<exists>p. submitProof c u dto upload s = (Inr (b_next s), s\<lparr>b_next := Suc (b_next s), b_proofs := b_proofs s @ [p]\<rparr>)
          \<and> pendingOf c s = None \<and> pf_id p = b_next s \<and> pf_company p = c \<and> pf_status p = PayPending
          \<and> pf_hash p = None \<and> pf_redeemed p = None)"
    by (auto simp: submitProof_def split: option.split)
  with that show thesis by blast
qed

lemma submit_ok: "billingOk s \<Longrightarrow> billingOk (snd (submitProof c u dto upload s))"
proof (cases rule: submit_cases [where c = c and u = u and dto = dto and upload = upload and s = s])
  case (2 p)
  assume ok: "billingOk s"
  have other: "\<not> (pf_company q = c \<and> pf_status q = PayPending)" if "q \<in> set (b_proofs s)" for q
    using 2(2) that by (auto simp: pendingOf_def find_None_iff)
  have "proofOk p" using 2 by (simp add: proofOk_def)
  with ok 2 other have "proofsOk (s\<lparr>b_next := Suc (b_next s), b_proofs := b_proofs s @ [p]\<rparr>)"
    by (auto simp: billingOk_def proofsOk_def less_Suc_eq) metis
  moreover have "subOk (insert p (set (b_proofs s))) d r" if "b_subs s d = Some r" for d r
    using ok that unfolding billingOk_def subOk_def by blast
  ultimately show ?thesis using 2(1) by (simp add: billingOk_def)
qed simp

lemma redeem_cases:
  obtains e where "redeem H c code s = (Inl e, s)"
    | p r where "find (\<lambda>p. pf_hash p = Some (hashActivationCode H code)) (b_proofs s) = Some p" "pf_company p = c"
      "pf_redeemed p = None" "\<And>t. pf_expires p = Some t \<Longrightarrow> b_now s \<le> t"
      "redeem H c code s = (Inr r, (setProof (pf_id p) (\<lambda>q. q\<lparr>pf_redeemed := Some (b_now s)\<rparr>) s)\<lparr>b_subs := (b_subs s)(c \<mapsto> r)\<rparr>)"
      "su_status r = SubActive" "su_start r = b_now s" "su_end r = b_now s + PAID_SUBSCRIPTION_DURATION_MS" "su_plan r = pf_plan p"
proof (cases "find (\<lambda>p. pf_hash p = Some (hashActivationCode H code)) (b_proofs s)")
  case None
  then show ?thesis by (intro that(1) [of BadCode]) (simp add: redeem_def)
next
  case (Some p)
  show ?thesis
  proof (cases "pf_company p \<noteq> c \<or> pf_redeemed p \<noteq> None \<or> (case pf_expires p of Some t \<Rightarrow> t < b_now s | None \<Rightarrow> False)")
    case True
    then have "\<exists>e. redeem H c code s = (Inl e, s)" by (auto simp: redeem_def Some)
    with that(1) show ?thesis by blast
  next
    case False
    then show ?thesis
      by (intro that(2) [OF Some]) (auto simp: redeem_def Some Let_def split: option.splits)
  qed
qed


lemma redeem_ok: "billingOk s \<Longrightarrow> billingOk (snd (redeem H c code s))"
proof (cases rule: redeem_cases [where H = H and c = c and code = code and s = s])
  case (2 p r)
  assume ok: "billingOk s"
  then have P: "proofsOk s" by (simp add: billingOk_def)
  have p: "p \<in> set (b_proofs s)" "pf_hash p \<noteq> None" using 2(1) by (auto simp: find_Some_iff)
  let ?f = "\<lambda>q. q\<lparr>pf_redeemed := Some (b_now s)\<rparr>" and ?t = "snd (redeem H c code s)"
  have "proofOk p" by (rule proofsOk_member [OF P p(1)])
  moreover have "pf_status p = PayApproved" using calculation p(2) by (cases "pf_status p") (auto simp: proofOk_def)
  ultimately have approved: "pf_status p = PayApproved" "proofOk p" by blast+
  have fok: "proofOk (?f p)" using approved 2(4) by (auto simp: proofOk_def)
  have sets: "set (b_proofs ?t) = insert (?f p) (set (b_proofs s) - {p})"
    using set_setProof [OF P p(1), of ?f] by (simp add: 2(5))
  have "proofsOk (setProof (pf_id p) ?f s)"
    by (rule setProof_ok [OF P p(1)]) (use fok in auto)
  then have "proofsOk ?t" by (simp add: 2(5))
  moreover have "subOk (set (b_proofs ?t)) d x" if "b_subs ?t d = Some x" for d x
  proof (cases "d = c")
    case True
    then have "x = r" using that by (simp add: 2(5))
    moreover have "paidBy (?f p) c r" using approved(1) 2(2,6-8) by (simp add: paidBy_def)
    ultimately show ?thesis using 2(6) True by (auto simp: subOk_def sets)
  next
    case False
    then show ?thesis using subs_kept [OF ok p(1) 2(3)] that unfolding sets by (simp add: 2(5))
  qed
  ultimately show ?thesis by (simp add: billingOk_def)
qed simp

lemma sub_change_ok:
  assumes "billingOk s" and "subOk (set (b_proofs s)) c r"
  shows "billingOk (s\<lparr>b_subs := (b_subs s)(c \<mapsto> r)\<rparr>)"
  using assms by (simp add: billingOk_def)

lemma guard_ok: "billingOk s \<Longrightarrow> billingOk (snd (subscriptionGuard skip who s))"
  using sub_change_ok
  by (auto simp: subscriptionGuard_def Let_def subOk_def split: bearer.split option.split)

lemma trial_ok: "billingOk s \<Longrightarrow> billingOk (openTrial c p s)"
  using sub_change_ok by (auto simp: openTrial_def subOk_def split: option.split)

lemma billingStep_ok: "billingOk s \<Longrightarrow> billingOk (billingStep H e s)"
  by (cases e) (simp_all add: trial_ok submit_ok approve_ok reject_ok redeem_ok guard_ok)

lemma billingOk_now [simp]: "billingOk (s\<lparr>b_now := now\<rparr>) = billingOk s"
  by (simp add: billingOk_def)

lemma billingRun_ok:
  assumes "billingOk s"
  shows "billingOk (billingRun H es s)"
  unfolding billingRun_def
  by (rule fold_invariant [where Q = "\<lambda>_. True"]) (use assms in \<open>auto simp: billingStep_ok\<close>)

text \<open>C14. Access is paid for. From a service without proofs and subscriptions, after any sequence of trials,
proofs, reviews, activation codes and requests, the guard lets the requests of a company through only while
its trial lasts or for thirty days after an approved proof of that company was redeemed.\<close>

theorem access_was_paid:
  assumes "b_proofs s = []" and "b_subs s = Map.empty"
    and "fst (subscriptionGuard False (OfCompany c) (billingRun H es s))"
  shows "\<exists>r. b_subs (billingRun H es s) c = Some r
     \<and> (su_status r = Trialing \<and> (\<exists>t. su_trialEnd r = Some t \<and> b_now (billingRun H es s) \<le> t)
        \<or> (\<exists>p\<in>set (b_proofs (billingRun H es s)). \<exists>t. pf_company p = c \<and> pf_status p = PayApproved
             \<and> pf_redeemed p = Some t \<and> b_now (billingRun H es s) \<le> t + PAID_SUBSCRIPTION_DURATION_MS))"
proof -
  let ?s = "billingRun H es s"
  have ok: "billingOk ?s" by (rule billingRun_ok) (simp add: billingOk_def proofsOk_def assms(1,2))
  obtain r where r: "b_subs ?s c = Some r" using assms(3) by (cases "b_subs ?s c") (auto simp: subscriptionGuard_def)
  have sub: "subOk (set (b_proofs ?s)) c r" using ok r by (simp add: billingOk_def)
  show ?thesis
  proof (cases "su_status r = Trialing")
    case True
    then show ?thesis using assms(3) r sub
      by (auto simp: subscriptionGuard_def Let_def subOk_def split: if_splits option.splits)
  next
    case False
    then have "su_status r = SubActive" "b_now ?s \<le> su_end r"
      using assms(3) r by (auto simp: subscriptionGuard_def Let_def split: if_splits)
    with sub r show ?thesis by (fastforce simp: subOk_def paidBy_def)
  qed
qed


subsection \<open>A code is spent once\<close>

lemma redeemed_stays:
  assumes "proofsOk s" and "p \<in> set (b_proofs s)" and "pf_redeemed p \<noteq> None" and "q \<in> set (b_proofs s)" and "pf_redeemed q = None"
  shows "p \<in> set (b_proofs (setProof (pf_id q) f s))"
  using assms(2,3,5) unfolding set_setProof [OF assms(1,4)] by auto

lemma pending_unredeemed: "proofsOk s \<Longrightarrow> q \<in> set (b_proofs s) \<Longrightarrow> pf_status q = PayPending \<Longrightarrow> pf_redeemed q = None"
  using proofsOk_member [of s q] by (simp add: proofOk_def)

lemma spent_step:
  assumes "proofsOk s" and "p \<in> set (b_proofs s)" and "pf_redeemed p \<noteq> None"
  shows "p \<in> set (b_proofs (billingStep H e s))"
proof (cases e)
  case (OpenTrial c pl)
  then show ?thesis using assms by (simp add: openTrial_def split: option.split)
next
  case (Submit c u dto upload)
  show ?thesis
    using assms by (cases rule: submit_cases [where c = c and u = u and dto = dto and upload = upload and s = s])
      (simp_all add: Submit)
next
  case (Approve bytes i a)
  show ?thesis
  proof (cases "proofById i s")
    case (Some q)
    have q: "q \<in> set (b_proofs s)" "pf_id q = i" using proofById_in [OF Some] by simp_all
    show ?thesis
    proof (cases "pf_status q = PayPending")
      case True
      from redeemed_stays [OF assms q(1) pending_unredeemed [OF assms(1) q(1) True]] assms(2) q(2)
      show ?thesis by (auto simp: Approve approve_def Some Let_def split: prod.split)
    qed (use assms in \<open>simp add: Approve approve_def Some\<close>)
  qed (use assms in \<open>simp add: Approve approve_def\<close>)
next
  case (Reject i a why)
  show ?thesis
  proof (cases "proofById i s")
    case (Some q)
    have q: "q \<in> set (b_proofs s)" "pf_id q = i" using proofById_in [OF Some] by simp_all
    show ?thesis
    proof (cases "pf_status q = PayPending")
      case True
      from redeemed_stays [OF assms q(1) pending_unredeemed [OF assms(1) q(1) True]] q(2)
      show ?thesis by (simp add: Reject reject_def Some True)
    qed (use assms in \<open>simp add: Reject reject_def Some\<close>)
  qed (use assms in \<open>simp add: Reject reject_def\<close>)
next
  case (Redeem c code)
  show ?thesis
  proof (cases rule: redeem_cases [where H = H and c = c and code = code and s = s])
    case (2 q r)
    have "q \<in> set (b_proofs s)" using 2(1) by (auto simp: find_Some_iff)
    from redeemed_stays [OF assms this 2(3)] 2(5) show ?thesis by (simp add: Redeem)
  qed (use assms in \<open>simp add: Redeem\<close>)
next
  case (Request skip who)
  then show ?thesis using assms
    by (auto simp: subscriptionGuard_def Let_def split: bearer.split option.split)
qed

lemma spent_run:
  assumes "billingOk s" and "p \<in> set (b_proofs s)" and "pf_redeemed p \<noteq> None"
  shows "p \<in> set (b_proofs (billingRun H es s))"
proof (induction es rule: rev_induct)
  case Nil
  then show ?case using assms(2) by (simp add: billingRun_def)
next
  case (snoc x es)
  obtain now e where x: "x = (now, e)" by fastforce
  have "proofsOk (billingRun H es s)" using billingRun_ok [OF assms(1)] by (simp add: billingOk_def)
  then have "p \<in> set (b_proofs (billingStep H e ((billingRun H es s)\<lparr>b_now := now\<rparr>)))"
    using snoc assms(3) by (intro spent_step) simp_all
  then show ?case by (simp add: x billingRun_def)
qed

text \<open>C30. A code is spent once: after a company redeemed a code, whatever happens next, whoever enters the code
again, in whatever spelling, gets an error, and nothing changes.\<close>

theorem code_is_spent_once:
  assumes "billingOk s" and "redeem H c code s = (Inr r, s')"
    and "hashActivationCode H again = hashActivationCode H code"
  shows "redeem H d again (billingRun H es s') = (Inl (if d = c then CodeUsed else BadCode), billingRun H es s')"
proof (cases rule: redeem_cases [where H = H and c = c and code = code and s = s])
  case (2 p x)
  let ?h = "hashActivationCode H code" and ?f = "\<lambda>q. q\<lparr>pf_redeemed := Some (b_now s)\<rparr>" and ?t = "billingRun H es s'"
  have ok: "billingOk s'" using redeem_ok [OF assms(1), of H c code] by (simp add: assms(2))
  have p: "p \<in> set (b_proofs s)" "pf_hash p = Some ?h" using 2(1) by (auto simp: find_Some_iff)
  have P: "proofsOk s" using assms(1) by (simp add: billingOk_def)
  have "?f p \<in> set (b_proofs s')"
    using set_setProof [OF P p(1), of ?f] assms(2) 2(5) by auto
  from spent_run [OF ok this] have spent: "?f p \<in> set (b_proofs ?t)" by simp
  have T: "proofsOk ?t" using billingRun_ok [OF ok] by (simp add: billingOk_def)
  obtain q where q: "find (\<lambda>p. pf_hash p = Some ?h) (b_proofs ?t) = Some q"
    using spent p(2) by (cases "find (\<lambda>p. pf_hash p = Some ?h) (b_proofs ?t)") (auto simp: find_None_iff)
  then have "q \<in> set (b_proofs ?t)" "pf_hash q = Some ?h" by (auto simp: find_Some_iff)
  with T spent p(2) have "q = ?f p" unfolding proofsOk_def by (metis option.distinct(1) pay_proof.select_convs(13) pay_proof.surjective pay_proof.update_convs(16))
  then show ?thesis using q 2(2) by (simp add: redeem_def assms(3))
qed (simp add: assms(2))


subsection \<open>From the approval to the access\<close>

lemma upper_space: "isSpace ch \<Longrightarrow> upperChar ch = ch"
  by (auto simp: isSpace_def upperChar_def)

definition plainCode :: "string \<Rightarrow> bool" where
  "plainCode c \<longleftrightarrow> list_all (\<lambda>ch. upperChar ch = ch \<and> \<not> isSpace ch) c"

lemma plain_alphabet: "plainCode (''PAY-'' @ CODE_ALPHABET)"
  by (simp add: plainCode_def CODE_ALPHABET_def upperChar_def isSpace_def)

lemma plain_generated:
  assumes "generateActivationCode H bytes = (code, prefix, hash)"
  shows "plainCode code" and "hash = hashActivationCode H code"
proof -
  have "0 < length CODE_ALPHABET" by (simp add: CODE_ALPHABET_def)
  then have "set (codeSuffix bytes) \<subseteq> set CODE_ALPHABET" by (auto simp: codeSuffix_def)
  then have "plainCode (''PAY-'' @ codeSuffix bytes)"
    using plain_alphabet unfolding plainCode_def list_all_append by (auto simp: list_all_iff)
  then show "plainCode code" "hash = hashActivationCode H code"
    using assms by (auto simp: generateActivationCode_def Let_def)
qed

lemma trim_around:
  assumes "\<forall>ch\<in>set left. isSpace ch" and "\<forall>ch\<in>set right. isSpace ch" and "\<forall>ch\<in>set w. \<not> isSpace ch"
  shows "trimText (left @ w @ right) = w"
proof (cases w)
  case Nil
  have "dropWhile isSpace (left @ right) = []" unfolding dropWhile_eq_Nil_conv using assms(1,2) by auto
  then show ?thesis by (simp only: Nil trimText_def append_Nil rev.simps dropWhile.simps)
next
  case (Cons ch cs)
  have keep: "dropWhile isSpace v = v" if "\<forall>ch\<in>set v. \<not> isSpace ch" for v using that by (cases v) auto
  have "dropWhile isSpace (left @ w @ right) = w @ right"
    using assms(1) assms(3) Cons by (simp add: dropWhile_append1 dropWhile_append2)
  moreover have "dropWhile isSpace (rev right @ rev w) = dropWhile isSpace (rev w)"
    by (rule dropWhile_append2) (use assms(2) in auto)
  then have "dropWhile isSpace (rev (w @ right)) = rev w"
    using assms(3) keep [of "rev w"] by simp
  ultimately show ?thesis by (simp add: trimText_def)
qed

text \<open>A code typed in any case, between any spaces.\<close>

definition spelled :: "string \<Rightarrow> string \<Rightarrow> bool" where
  "spelled code raw \<longleftrightarrow> (\<exists>left w right. raw = left @ w @ right \<and> map upperChar w = code
     \<and> (\<forall>ch\<in>set left. isSpace ch) \<and> (\<forall>ch\<in>set right. isSpace ch))"

lemma spelled_hash:
  assumes "plainCode code" and "spelled code raw"
  shows "hashActivationCode H raw = H code"
proof -
  from assms(2) obtain left w right where raw: "raw = left @ w @ right" "map upperChar w = code"
    "\<forall>ch\<in>set left. isSpace ch" "\<forall>ch\<in>set right. isSpace ch" unfolding spelled_def by blast
  have "\<not> isSpace ch" if "ch \<in> set w" for ch
  proof
    assume sp: "isSpace ch"
    have "upperChar ch \<in> set code" using that raw(2) by (metis image_eqI list.set_map)
    with assms(1) have "\<not> isSpace (upperChar ch)" by (simp add: plainCode_def list_all_iff)
    with sp upper_space show False by simp
  qed
  then have "trimText raw = w" unfolding raw(1) by (intro trim_around raw(3,4)) blast
  then show ?thesis by (simp add: hashActivationCode_def raw(2))
qed

lemma spelled_self: "plainCode code \<Longrightarrow> spelled code code"
  unfolding spelled_def by (rule exI [of _ "[]"], rule exI [of _ code], rule exI [of _ "[]"])
    (auto simp: plainCode_def list_all_iff intro: map_idI)

lemma approve_cases:
  assumes "approve H bytes i admin s = (Inr (code, expiresAt), s')" and "proofById i s = Some p"
  shows "\<exists>prefix. plainCode code \<and> pf_status p = PayPending \<and> expiresAt = b_now s + ACTIVATION_CODE_VALIDITY_MS
     \<and> (\<forall>q\<in>set (b_proofs s). pf_hash q \<noteq> Some (H code))
     \<and> s' = setProof (pf_id p) (\<lambda>q. q\<lparr>pf_status := PayApproved, pf_reviewer := Some admin, pf_reviewedAt := Some (b_now s),
          pf_hash := Some (H code), pf_prefix := Some prefix, pf_expires := Some expiresAt\<rparr>) s"
proof -
  obtain code' prefix hash where gen: "generateActivationCode H bytes = (code', prefix, hash)" by (metis surj_pair)
  have "hash = H code'" using plain_generated [OF gen] spelled_hash spelled_self by metis
  then show ?thesis
    using assms plain_generated(1) [OF gen] proofById_in [OF assms(2)]
    by (auto simp: approve_def gen Let_def split: if_splits intro!: exI [of _ prefix])
qed

text \<open>C29. An approved payment opens the service: the code that the approval gives to the client, typed in any case
and between any spaces within its fourteen days, activates the plan that was paid, and the guard lets the
company through for thirty days.\<close>

theorem approved_payment_opens_access:
  assumes "billingOk s" and "proofById i s = Some p" and "approve H bytes i admin s = (Inr (code, expiresAt), s')"
    and "spelled code raw" and "now \<le> expiresAt"
    and "later \<le> now + PAID_SUBSCRIPTION_DURATION_MS"
  shows "\<exists>r s2. redeem H (pf_company p) raw (s'\<lparr>b_now := now\<rparr>) = (Inr r, s2)
     \<and> su_plan r = pf_plan p \<and> expiresAt = b_now s + 14 * 24 * 60 * 60 * 1000
     \<and> fst (subscriptionGuard False (OfCompany (pf_company p)) (s2\<lparr>b_now := later\<rparr>))"
proof -
  have p: "p \<in> set (b_proofs s)" using proofById_in [OF assms(2)] by simp
  have P: "proofsOk s" using assms(1) by (simp add: billingOk_def)
  obtain prefix where a: "plainCode code" "pf_status p = PayPending" "expiresAt = b_now s + ACTIVATION_CODE_VALIDITY_MS"
    "\<forall>q\<in>set (b_proofs s). pf_hash q \<noteq> Some (H code)"
    and s': "s' = setProof (pf_id p) (\<lambda>q. q\<lparr>pf_status := PayApproved, pf_reviewer := Some admin, pf_reviewedAt := Some (b_now s),
          pf_hash := Some (H code), pf_prefix := Some prefix, pf_expires := Some expiresAt\<rparr>) s"
    using approve_cases [OF assms(3,2)] by blast
  let ?p = "p\<lparr>pf_status := PayApproved, pf_reviewer := Some admin, pf_reviewedAt := Some (b_now s),
          pf_hash := Some (H code), pf_prefix := Some prefix, pf_expires := Some expiresAt\<rparr>"
  have raw: "hashActivationCode H raw = H code" by (rule spelled_hash [OF a(1) assms(4)])
  have sets: "set (b_proofs s') = insert ?p (set (b_proofs s) - {p})" unfolding s' by (rule set_setProof [OF P p])
  obtain q where q: "find (\<lambda>q. pf_hash q = Some (H code)) (b_proofs s') = Some q"
    using sets by (cases "find (\<lambda>q. pf_hash q = Some (H code)) (b_proofs s')") (auto simp: find_None_iff)
  then have "q \<in> set (b_proofs s') \<and> pf_hash q = Some (H code)" by (auto simp: find_Some_iff)
  then have q': "q = ?p" using a(4) unfolding sets by blast
  have "pf_redeemed p = None" by (rule pending_unredeemed [OF P p a(2)])
  with q q' have "fst (redeem H (pf_company p) raw (s'\<lparr>b_now := now\<rparr>)) \<notin> range Inl"
    using assms(5) by (auto simp: redeem_def raw Let_def)
  then obtain r s2 where red: "redeem H (pf_company p) raw (s'\<lparr>b_now := now\<rparr>) = (Inr r, s2)"
    by (metis prod.collapse rangeI sum.exhaust_sel)
  moreover have "su_plan r = pf_plan p \<and> fst (subscriptionGuard False (OfCompany (pf_company p)) (s2\<lparr>b_now := later\<rparr>))"
  proof (cases rule: redeem_cases [where H = H and c = "pf_company p" and code = raw and s = "s'\<lparr>b_now := now\<rparr>"])
    case (2 x y)
    have "x = ?p" using 2(1) q q' by (simp add: raw)
    then show ?thesis using 2 red assms(6) by (auto simp: subscriptionGuard_def Let_def)
  qed (simp add: red)
  ultimately show ?thesis using a(3) by (auto simp: ACTIVATION_CODE_VALIDITY_MS_def)
qed

text \<open>The letters of a code are not equally likely: the alphabet has 31 letters, so of the 256 values of a random
byte nine give an A and eight give a 9.\<close>

theorem code_letters_are_biased:
  "length CODE_ALPHABET = 31
   \<and> length (filter (\<lambda>b. CODE_ALPHABET ! (b mod length CODE_ALPHABET) = CHR ''A'') [0..<256]) = 9
   \<and> length (filter (\<lambda>b. CODE_ALPHABET ! (b mod length CODE_ALPHABET) = CHR ''9'') [0..<256]) = 8"
  by code_simp

lemma renewal_restarts_the_period:
  assumes "redeem H c code s = (Inr r, s')"
  shows "su_end r = b_now s + PAID_SUBSCRIPTION_DURATION_MS"
  using assms by (cases rule: redeem_cases [where H = H and c = c and code = code and s = s]) auto

lemma trial_blocked_when_billing:
  assumes "b_subs s c = Some r" and "su_status r = Trialing" and "find (\<lambda>p. bp_id p = su_plan r) (b_plans s) = Some p"
  shows "\<not> usageGuard True (Some c) route n s"
  using assms by (simp add: usageGuard_def)


subsection \<open>A month of one company\<close>

definition tariff :: billing_plan where
  "tariff = \<lparr>bp_id = ''pro'', bp_price = 50000, bp_active = True, bp_free = False, bp_maxDeliveries = None,
     bp_maxVehicles = None, bp_maxUsers = None\<rparr>"

definition newService :: bstate where
  "newService = \<lparr>b_now = 0, b_plans = [tariff], b_methods = [\<lparr>pm_id = ''mvola'', pm_active = True\<rparr>], b_proofs = [],
     b_next = 0, b_subs = Map.empty\<rparr>"

definition paidMonth :: "(ms \<times> billing_event) list" where
  "paidMonth =
     [(0, Submit ''acme'' ''boss'' \<lparr>pd_plan = ''pro'', pd_method = ''mvola'', pd_reference = ''ref 1''\<rparr> (Some (''image/png'', 1000))),
      (1000, Approve [0, 0, 0, 0, 0, 0, 0, 0] 0 ''root''),
      (2000, Redeem ''acme'' '' pay-aaaaaaaa'')]"

definition firstProof :: pay_proof where
  "firstProof = \<lparr>pf_id = 0, pf_company = ''acme'', pf_by = ''boss'', pf_plan = ''pro'', pf_amount = 50000, pf_method = ''mvola'',
     pf_reference = ''ref 1'', pf_mime = ''image/png'', pf_status = PayPending, pf_reviewer = None, pf_reviewedAt = None,
     pf_reason = None, pf_hash = None, pf_prefix = None, pf_expires = None, pf_redeemed = None\<rparr>"

definition afterSubmit :: bstate where
  "afterSubmit = newService\<lparr>b_next := 1, b_proofs := [firstProof]\<rparr>"

lemma submit_run: "submitProof ''acme'' ''boss'' \<lparr>pd_plan = ''pro'', pd_method = ''mvola'', pd_reference = ''ref 1''\<rparr>
    (Some (''image/png'', 1000)) newService = (Inr 0, afterSubmit)"
  by (simp add: submitProof_def newService_def afterSubmit_def firstProof_def tariff_def ALLOWED_IMAGE_MIME_TYPES_def
      MAX_PROOF_IMAGE_BYTES_def pendingOf_def trimText_def isSpace_def)

definition afterApprove :: bstate where
  "afterApprove = setProof 0 (\<lambda>q. q\<lparr>pf_status := PayApproved, pf_reviewer := Some ''root'', pf_reviewedAt := Some 1000,
      pf_hash := Some ''PAY-AAAAAAAA'', pf_prefix := Some ''PAY-AAAA'', pf_expires := Some (1000 + ACTIVATION_CODE_VALIDITY_MS)\<rparr>)
      (afterSubmit\<lparr>b_now := 1000\<rparr>)"

lemma codeSuffix_zero: "codeSuffix [0, 0, 0, 0, 0, 0, 0, 0] = ''AAAAAAAA''"
  by code_simp

lemma upper_letters [simp]:
  "upperChar CHR ''p'' = CHR ''P''" "upperChar CHR ''a'' = CHR ''A''" "upperChar CHR ''y'' = CHR ''Y''"
  "upperChar CHR ''-'' = CHR ''-''" "upperChar CHR ''A'' = CHR ''A''" "upperChar CHR ''P'' = CHR ''P''" "upperChar CHR ''Y'' = CHR ''Y''"
  by (simp_all add: upperChar_def char_of_eq_iff)

lemma approve_run: "approve id [0, 0, 0, 0, 0, 0, 0, 0] 0 ''root'' (afterSubmit\<lparr>b_now := 1000\<rparr>)
    = (Inr (''PAY-AAAAAAAA'', 1000 + ACTIVATION_CODE_VALIDITY_MS), afterApprove)"
  by (simp add: approve_def proofById_def afterApprove_def afterSubmit_def newService_def firstProof_def generateActivationCode_def
      codeSuffix_zero hashActivationCode_def trimText_def isSpace_def setProof_def Let_def)

lemma typed: "spelled ''PAY-AAAAAAAA'' '' pay-aaaaaaaa''"
  unfolding spelled_def
  by (rule exI [of _ "'' ''"], rule exI [of _ "''pay-aaaaaaaa''"], rule exI [of _ "[]"])
    (simp add: isSpace_def)

lemma afterSubmit_ok: "billingOk (afterSubmit\<lparr>b_now := 1000\<rparr>)"
  by (simp add: billingOk_def proofsOk_def afterSubmit_def newService_def firstProof_def proofOk_def)

lemma approved_payment_opens_access_witness:
  "\<exists>r s2. redeem id ''acme'' '' pay-aaaaaaaa'' (afterApprove\<lparr>b_now := 2000\<rparr>) = (Inr r, s2)
     \<and> fst (subscriptionGuard False (OfCompany ''acme'') (s2\<lparr>b_now := 2592002000\<rparr>))"
proof -
  have p: "proofById 0 (afterSubmit\<lparr>b_now := 1000\<rparr>) = Some firstProof"
    by (simp add: proofById_def afterSubmit_def newService_def firstProof_def)
  have now: "(2000::ms) \<le> 1000 + ACTIVATION_CODE_VALIDITY_MS" "(2592002000::ms) \<le> 2000 + PAID_SUBSCRIPTION_DURATION_MS"
    by (simp_all add: ACTIVATION_CODE_VALIDITY_MS_def PAID_SUBSCRIPTION_DURATION_MS_def)
  from approved_payment_opens_access [OF afterSubmit_ok p approve_run typed now] show ?thesis by (auto simp: firstProof_def)
qed

lemma redeem_run: "\<exists>r s2. redeem id ''acme'' '' pay-aaaaaaaa'' (afterApprove\<lparr>b_now := 2000\<rparr>) = (Inr r, s2)
     \<and> su_status r = SubActive \<and> su_end r = 2000 + PAID_SUBSCRIPTION_DURATION_MS \<and> b_subs s2 ''acme'' = Some r"
  by (simp add: redeem_def hashActivationCode_def trimText_def isSpace_def afterApprove_def setProof_def
      afterSubmit_def newService_def firstProof_def ACTIVATION_CODE_VALIDITY_MS_def Let_def)

lemma code_is_spent_once_witness:
  "\<exists>r s'. redeem id ''acme'' '' pay-aaaaaaaa'' (afterApprove\<lparr>b_now := 2000\<rparr>) = (Inr r, s')
     \<and> redeem id ''acme'' ''PAY-AAAAAAAA'' s' = (Inl CodeUsed, s')"
proof -
  obtain r s' where red: "redeem id ''acme'' '' pay-aaaaaaaa'' (afterApprove\<lparr>b_now := 2000\<rparr>) = (Inr r, s')"
    using redeem_run by blast
  have ok: "billingOk (afterApprove\<lparr>b_now := 2000\<rparr>)"
    using approve_ok [OF afterSubmit_ok, of id "[0, 0, 0, 0, 0, 0, 0, 0]" 0 "''root''"] by (simp add: approve_run)
  have "hashActivationCode id ''PAY-AAAAAAAA'' = hashActivationCode id '' pay-aaaaaaaa''"
    by (simp add: hashActivationCode_def trimText_def isSpace_def)
  from code_is_spent_once [OF ok red this, of "''acme''" "[]"] red show ?thesis by (simp add: billingRun_def)
qed

lemma access_was_paid_witness:
  "\<exists>p t. pf_company p = ''acme'' \<and> pf_redeemed p = Some t \<and> p \<in> set (b_proofs (billingRun id paidMonth newService))"
proof -
  obtain r s2 where red: "redeem id ''acme'' '' pay-aaaaaaaa'' (afterApprove\<lparr>b_now := 2000\<rparr>) = (Inr r, s2)"
    "su_status r = SubActive" "su_end r = 2000 + PAID_SUBSCRIPTION_DURATION_MS" "b_subs s2 ''acme'' = Some r"
    using redeem_run by blast
  have now0: "newService\<lparr>b_now := 0\<rparr> = newService" by (simp add: newService_def)
  have run: "billingRun id paidMonth newService = s2"
    by (simp add: billingRun_def paidMonth_def now0 submit_run approve_run red(1))
  have "b_now s2 = 2000"
    using red(1) by (cases rule: redeem_cases [where H = id and c = "''acme''" and code = "'' pay-aaaaaaaa''" and s = "afterApprove\<lparr>b_now := 2000\<rparr>"]) auto
  then have "fst (subscriptionGuard False (OfCompany ''acme'') (billingRun id paidMonth newService))"
    using red unfolding run by (simp add: subscriptionGuard_def Let_def PAID_SUBSCRIPTION_DURATION_MS_def)
  from access_was_paid [OF _ _ this] obtain x where x: "b_subs s2 ''acme'' = Some x"
    "su_status x = Trialing \<or> (\<exists>p\<in>set (b_proofs s2). \<exists>t. pf_company p = ''acme'' \<and> pf_redeemed p = Some t)"
    unfolding run by (auto simp: newService_def)
  then have "x = r" using red(4) by simp
  with x(2) red(2) show ?thesis unfolding run by auto
qed

end
