(* ===== verification/Webhooks.thy ===== *)
theory Webhooks
  imports DT_Prelude Pagination "HOL-Library.Word"
begin

unbundle bit_operations_syntax

text \<open>
  Webhooks: \<open>modules/webhooks/webhooks.service.ts\<close>, the filter of addresses
  \<open>webhook-url-validator.ts\<close> and the retries of \<open>queue/webhook-retry.processor.ts\<close>. The parser of URLs, the
  resolver (the A and AAAA records of a name, none when it fails) and the signature (HMAC) are parameters, as
  is the outcome of each call. Addresses are 32 bit words. Octets are read from decimal digits only, which
  is all that the callers pass.
\<close>

subsection \<open>IPv4\<close>

definition BLOCKED_V4_CIDRS :: "((nat \<times> nat \<times> nat \<times> nat) \<times> nat) list" where
  "BLOCKED_V4_CIDRS =
     [((0, 0, 0, 0), 8), ((10, 0, 0, 0), 8), ((100, 64, 0, 0), 10), ((127, 0, 0, 0), 8), ((169, 254, 0, 0), 16),
      ((172, 16, 0, 0), 12), ((192, 0, 0, 0), 24), ((192, 0, 2, 0), 24), ((192, 168, 0, 0), 16), ((198, 18, 0, 0), 15),
      ((198, 51, 100, 0), 24), ((203, 0, 113, 0), 24), ((224, 0, 0, 0), 4), ((240, 0, 0, 0), 4)]"

fun splitOn :: "char \<Rightarrow> string \<Rightarrow> string list" where
  "splitOn sep [] = [[]]"
| "splitOn sep (ch # cs) =
     (if ch = sep then [] # splitOn sep cs
      else (case splitOn sep cs of [] \<Rightarrow> [[ch]] | w # ws \<Rightarrow> (ch # w) # ws))"

definition octet :: "string \<Rightarrow> int option" where
  "octet p = (if list_all isDigit p \<and> parseInt10 p \<le> 255 then Some (parseInt10 p) else None)"

fun foldOctets :: "32 word \<Rightarrow> string list \<Rightarrow> 32 word option" where
  "foldOctets n [] = Some n"
| "foldOctets n (p # ps) =
     (case octet p of None \<Rightarrow> None | Some v \<Rightarrow> foldOctets (push_bit 8 n OR word_of_int v) ps)"

definition ipv4ToInt :: "string \<Rightarrow> 32 word option" where
  "ipv4ToInt ip = (let parts = splitOn (CHR ''.'') ip in if length parts \<noteq> 4 then None else foldOctets 0 parts)"

definition digitChar :: "nat \<Rightarrow> char" where "digitChar d = char_of (48 + d)"

definition showByte :: "nat \<Rightarrow> string" where
  "showByte n =
     (if n < 10 then [digitChar n]
      else if n < 100 then [digitChar (n div 10), digitChar (n mod 10)]
      else [digitChar (n div 100), digitChar (n div 10 mod 10), digitChar (n mod 10)])"

definition dotted :: "nat \<Rightarrow> nat \<Rightarrow> nat \<Rightarrow> nat \<Rightarrow> string" where
  "dotted a b c d = showByte a @ ''.'' @ showByte b @ ''.'' @ showByte c @ ''.'' @ showByte d"

definition cidrMatches :: "32 word \<Rightarrow> 32 word \<Rightarrow> nat \<Rightarrow> bool" where
  "cidrMatches addr base bits =
     (let mask = (if bits = 0 then 0 else push_bit (32 - bits) 0xffffffff)
      in addr AND mask = base AND mask)"

definition isBlockedV4 :: "string \<Rightarrow> bool" where
  "isBlockedV4 ip =
     (case ipv4ToInt ip of
        None \<Rightarrow> True
      | Some addr \<Rightarrow>
          list_ex (\<lambda>((a, b, c, d), bits).
            case ipv4ToInt (dotted a b c d) of Some base \<Rightarrow> cidrMatches addr base bits | None \<Rightarrow> False)
            BLOCKED_V4_CIDRS)"

subsection \<open>IPv6\<close>

definition lowerAscii :: "char \<Rightarrow> char" where
  "lowerAscii ch = (if 65 \<le> (of_char ch :: nat) \<and> (of_char ch :: nat) \<le> 90 then char_of ((of_char ch :: nat) + 32) else ch)"

definition hasPrefix :: "string \<Rightarrow> string \<Rightarrow> bool" where "hasPrefix p s \<longleftrightarrow> take (length p) s = p"

definition hasSuffix :: "string \<Rightarrow> string \<Rightarrow> bool" where "hasSuffix p s \<longleftrightarrow> hasPrefix (rev p) (rev s)"

text \<open>The text after the last colon, and the text up to it, the colon included.\<close>

definition lastGroup :: "string \<Rightarrow> string" where
  "lastGroup s = rev (takeWhile (\<lambda>ch. ch \<noteq> CHR '':'') (rev s))"

definition upToLast :: "string \<Rightarrow> string" where
  "upToLast s = rev (dropWhile (\<lambda>ch. ch \<noteq> CHR '':'') (rev s))"

definition isQuad :: "string \<Rightarrow> bool" where
  "isQuad q \<longleftrightarrow> length (splitOn (CHR ''.'') q) = 4 \<and> list_all (\<lambda>p. p \<noteq> [] \<and> list_all isDigit p) (splitOn (CHR ''.'') q)"

definition isHexDigit :: "char \<Rightarrow> bool" where
  "isHexDigit ch \<longleftrightarrow> isDigit ch \<or> (97 \<le> (of_char ch :: nat) \<and> (of_char ch :: nat) \<le> 102)"

definition hexVal :: "char \<Rightarrow> nat" where
  "hexVal ch = (if isDigit ch then of_char ch - 48 else of_char ch - 87)"

definition isHexGroup :: "string \<Rightarrow> bool" where
  "isHexGroup g \<longleftrightarrow> 1 \<le> length g \<and> length g \<le> 4 \<and> list_all isHexDigit g"

definition parseHex :: "string \<Rightarrow> nat" where "parseHex g = foldl (\<lambda>n ch. 16 * n + hexVal ch) 0 g"

definition mappedQuad :: "string \<Rightarrow> string option" where
  "mappedQuad s =
     (if isQuad (lastGroup s) \<and> (hasSuffix ''::ffff:'' (upToLast s) \<or> hasSuffix ''::'' (upToLast s))
      then Some (lastGroup s) else None)"

definition mappedHex :: "string \<Rightarrow> (nat \<times> nat) option" where
  "mappedHex s =
     (let g2 = lastGroup s; rest = butlast (upToLast s); g1 = lastGroup rest in
      if upToLast s \<noteq> [] \<and> isHexGroup g1 \<and> isHexGroup g2 \<and> hasSuffix ''::ffff:'' (upToLast rest)
      then Some (parseHex g1, parseHex g2) else None)"

definition isBlockedV6 :: "string \<Rightarrow> bool" where
  "isBlockedV6 ip =
     (let lower = map lowerAscii ip in
      if lower = ''::1'' \<or> lower = ''::'' then True
      else if hasPrefix ''fe80:'' lower \<or> hasPrefix ''fe80::'' lower then True
      else if hasPrefix ''fc'' lower \<or> hasPrefix ''fd'' lower then True
      else if hasPrefix ''ff'' lower then True
      else (case mappedQuad lower of
              Some q \<Rightarrow> isBlockedV4 q
            | None \<Rightarrow>
                (case mappedHex lower of
                   Some (a, b) \<Rightarrow> isBlockedV4 (dotted (a div 256) (a mod 256) (b div 256) (b mod 256))
                 | None \<Rightarrow> False)))"

subsection \<open>Addresses of a webhook\<close>

text \<open>Of the runtime: what \<open>net.isIPv4\<close> and \<open>net.isIPv6\<close> answer, the parser of URLs (protocol and host), and
the records of a name.\<close>

record net_env =
  ne_isIPv4 :: "string \<Rightarrow> bool"
  ne_isIPv6 :: "string \<Rightarrow> bool"
  ne_parse :: "string \<Rightarrow> (string \<times> string) option"
  ne_hmac :: "string \<Rightarrow> string \<Rightarrow> string"

type_synonym resolver = "string \<Rightarrow> string list \<times> string list"

definition isBlockedIP :: "net_env \<Rightarrow> string \<Rightarrow> bool" where
  "isBlockedIP ne ip = (if ne_isIPv4 ne ip then isBlockedV4 ip else if ne_isIPv6 ne ip then isBlockedV6 ip else True)"

datatype url_error = BadUrl | NotHttps | NotPublic | NotResolved

definition assertSafeWebhookUrl :: "net_env \<Rightarrow> resolver \<Rightarrow> string \<Rightarrow> url_error option" where
  "assertSafeWebhookUrl ne dns url =
     (case ne_parse ne url of
        None \<Rightarrow> Some BadUrl
      | Some (protocol, host) \<Rightarrow>
          if protocol \<noteq> ''https:'' then Some NotHttps
          else if ne_isIPv4 ne host \<or> ne_isIPv6 ne host
          then (if isBlockedIP ne host then Some NotPublic else None)
          else (let (v4, v6) = dns host; resolved = v4 @ v6
                in if resolved = [] then Some NotResolved
                   else if list_ex (isBlockedIP ne) resolved then Some NotPublic
                   else None))"

subsection \<open>The service\<close>

record webhook =
  wh_id :: nat
  wh_company :: ident
  wh_url :: string
  wh_secret :: string
  wh_events :: "string list"
  wh_active :: bool

datatype wd_status = WdSuccess | WdFailed

record wh_delivery =
  wd_id :: nat
  wd_webhook :: nat
  wd_event :: string
  wd_body :: string
  wd_status :: wd_status
  wd_code :: nat
  wd_attempts :: nat
  wd_max :: nat
  wd_nextRetry :: "ms option"
  wd_completed :: "ms option"

record post =
  ps_delivery :: nat
  ps_url :: string
  ps_event :: string
  ps_body :: string
  ps_signature :: string

record wstate =
  w_now :: ms
  w_hooks :: "webhook list"
  w_deleted :: "ident list"
  w_rows :: "wh_delivery list"
  w_nextRow :: nat
  w_nextHook :: nat
  w_posts :: "post list"

text \<open>How the call ends: a status, the abort after ten seconds, or another failure.\<close>

datatype http_outcome = Replied nat | Aborted | Broken

definition resultOf :: "http_outcome \<Rightarrow> bool \<times> nat" where
  "resultOf r =
     (case r of
        Replied n \<Rightarrow> if 300 \<le> n \<and> n < 400 then (False, 422) else (200 \<le> n \<and> n < 300, n)
      | Aborted \<Rightarrow> (False, 408)
      | Broken \<Rightarrow> (False, 0))"

definition hookById :: "nat \<Rightarrow> wstate \<Rightarrow> webhook option" where
  "hookById i s = find (\<lambda>h. wh_id h = i) (w_hooks s)"

definition hookOf :: "ident \<Rightarrow> nat \<Rightarrow> wstate \<Rightarrow> webhook option" where
  "hookOf company i s = find (\<lambda>h. wh_id h = i \<and> wh_company h = company) (w_hooks s)"

definition nextRetryAt :: "ms \<Rightarrow> bool \<Rightarrow> nat \<Rightarrow> nat \<Rightarrow> ms option" where
  "nextRetryAt now successful attempts maxAttempts =
     (if \<not> successful \<and> 0 < int maxAttempts - int attempts then Some (now + 2 ^ attempts * 60000) else None)"

definition deliver ::
    "net_env \<Rightarrow> resolver \<Rightarrow> http_outcome \<Rightarrow> nat \<Rightarrow> string \<Rightarrow> string \<Rightarrow> wstate \<Rightarrow> (wd_status \<times> nat) option \<times> wstate" where
  "deliver ne dns r i event body s =
     (case hookById i s of
        None \<Rightarrow> (None, s)
      | Some h \<Rightarrow>
          if assertSafeWebhookUrl ne dns (wh_url h) \<noteq> None then (None, s)
          else (let (successful, code) = resultOf r; row = w_nextRow s;
                    st = (if successful then WdSuccess else WdFailed)
                in (Some (st, code),
                    s\<lparr>w_posts := w_posts s @ [\<lparr>ps_delivery = row, ps_url = wh_url h, ps_event = event, ps_body = body,
                        ps_signature = ne_hmac ne (wh_secret h) body\<rparr>],
                      w_nextRow := Suc row,
                      w_rows := w_rows s @ [\<lparr>wd_id = row, wd_webhook = i, wd_event = event, wd_body = body, wd_status = st,
                        wd_code = code, wd_attempts = 1, wd_max = 5, wd_nextRetry = nextRetryAt (w_now s) successful 1 5,
                        wd_completed = None\<rparr>]\<rparr>)))"

record webhook_dto =
  wo_url :: "string option"
  wo_events :: "string list option"
  wo_secret :: "string option"

datatype webhook_error = Unsafe url_error | NoWebhook

definition createHook :: "net_env \<Rightarrow> resolver \<Rightarrow> string \<Rightarrow> ident \<Rightarrow> string \<Rightarrow> string list \<Rightarrow> string option \<Rightarrow> wstate
    \<Rightarrow> (webhook_error + webhook) \<times> wstate" where
  "createHook ne dns fresh company url events secret s =
     (case assertSafeWebhookUrl ne dns url of
        Some e \<Rightarrow> (Inl (Unsafe e), s)
      | None \<Rightarrow>
          (let h = \<lparr>wh_id = w_nextHook s, wh_company = company, wh_url = url,
                    wh_secret = (case secret of Some k \<Rightarrow> if k = [] then fresh else k | None \<Rightarrow> fresh),
                    wh_events = events, wh_active = True\<rparr>
           in (Inr h, s\<lparr>w_hooks := w_hooks s @ [h], w_nextHook := Suc (w_nextHook s)\<rparr>)))"

definition setHook :: "nat \<Rightarrow> (webhook \<Rightarrow> webhook) \<Rightarrow> wstate \<Rightarrow> wstate" where
  "setHook i f s = s\<lparr>w_hooks := map (\<lambda>h. if wh_id h = i then f h else h) (w_hooks s)\<rparr>"

definition applyHookDto :: "webhook_dto \<Rightarrow> webhook \<Rightarrow> webhook" where
  "applyHookDto dto h = h\<lparr>wh_url := nullish (wo_url dto) (wh_url h), wh_events := nullish (wo_events dto) (wh_events h),
     wh_secret := nullish (wo_secret dto) (wh_secret h)\<rparr>"

definition updateHook :: "net_env \<Rightarrow> resolver \<Rightarrow> ident \<Rightarrow> nat \<Rightarrow> webhook_dto \<Rightarrow> wstate \<Rightarrow> (webhook_error + unit) \<times> wstate" where
  "updateHook ne dns company i dto s =
     (case hookOf company i s of
        None \<Rightarrow> (Inl NoWebhook, s)
      | Some h \<Rightarrow>
          (case Option.bind (wo_url dto) (assertSafeWebhookUrl ne dns) of
             Some e \<Rightarrow> (Inl (Unsafe e), s)
           | None \<Rightarrow> (Inr (), setHook i (applyHookDto dto) s)))"

definition removeHook :: "ident \<Rightarrow> nat \<Rightarrow> wstate \<Rightarrow> (webhook_error + unit) \<times> wstate" where
  "removeHook company i s =
     (case hookOf company i s of
        None \<Rightarrow> (Inl NoWebhook, s)
      | Some h \<Rightarrow> (Inr (), s\<lparr>w_hooks := filter (\<lambda>x. wh_id x \<noteq> i) (w_hooks s),
                              w_rows := filter (\<lambda>d. wd_webhook d \<noteq> i) (w_rows s)\<rparr>))"

definition toggleHook :: "ident \<Rightarrow> nat \<Rightarrow> wstate \<Rightarrow> (webhook_error + bool) \<times> wstate" where
  "toggleHook company i s =
     (case hookOf company i s of
        None \<Rightarrow> (Inl NoWebhook, s)
      | Some h \<Rightarrow> (Inr (\<not> wh_active h), setHook i (\<lambda>x. x\<lparr>wh_active := \<not> wh_active h\<rparr>) s))"

text \<open>\<open>sendTest\<close>; the answer is the one of the delivery, absent when it did not go out.\<close>

definition sendTest :: "net_env \<Rightarrow> resolver \<Rightarrow> http_outcome \<Rightarrow> string \<Rightarrow> ident \<Rightarrow> nat \<Rightarrow> wstate
    \<Rightarrow> (webhook_error + (wd_status \<times> nat) option) \<times> wstate" where
  "sendTest ne dns r body company i s =
     (case hookOf company i s of
        None \<Rightarrow> (Inl NoWebhook, s)
      | Some h \<Rightarrow> (let (answer, s') = deliver ne dns r (wh_id h) ''test.ping'' body s in (Inr answer, s')))"

text \<open>The deliveries of one event run in the order of the list; each has its own resolution and outcome.\<close>

fun deliverAll :: "net_env \<Rightarrow> (resolver \<times> http_outcome) list \<Rightarrow> nat list \<Rightarrow> string \<Rightarrow> string \<Rightarrow> wstate \<Rightarrow> wstate" where
  "deliverAll ne xs [] event body s = s"
| "deliverAll ne [] (i # is) event body s = s"
| "deliverAll ne ((dns, r) # xs) (i # is) event body s =
     deliverAll ne xs is event body (snd (deliver ne dns r i event body s))"

definition subscribed :: "string \<Rightarrow> ident \<Rightarrow> wstate \<Rightarrow> nat list" where
  "subscribed event company s =
     map wh_id (filter (\<lambda>h. wh_company h = company \<and> wh_active h \<and> event \<in> set (wh_events h)) (w_hooks s))"

definition dispatchEvent :: "net_env \<Rightarrow> (resolver \<times> http_outcome) list \<Rightarrow> string \<Rightarrow> ident \<Rightarrow> string \<Rightarrow> wstate \<Rightarrow> wstate" where
  "dispatchEvent ne xs event company body s = deliverAll ne xs (subscribed event company s) event body s"

subsection \<open>Retries\<close>

definition rowById :: "nat \<Rightarrow> wstate \<Rightarrow> wh_delivery option" where
  "rowById i s = find (\<lambda>d. wd_id d = i) (w_rows s)"

definition setDelivery :: "nat \<Rightarrow> (wh_delivery \<Rightarrow> wh_delivery) \<Rightarrow> wstate \<Rightarrow> wstate" where
  "setDelivery i f s = s\<lparr>w_rows := map (\<lambda>d. if wd_id d = i then f d else d) (w_rows s)\<rparr>"

definition abandon :: "wh_delivery \<Rightarrow> wh_delivery" where
  "abandon d = d\<lparr>wd_status := WdFailed, wd_nextRetry := None\<rparr>"

definition processRetry :: "net_env \<Rightarrow> resolver \<Rightarrow> http_outcome \<Rightarrow> nat \<Rightarrow> wstate \<Rightarrow> wstate" where
  "processRetry ne dns r i s =
     (case rowById i s of
        None \<Rightarrow> s
      | Some d \<Rightarrow>
          if wd_status d = WdSuccess \<or> wd_max d \<le> wd_attempts d then s
          else (case hookById (wd_webhook d) s of
                  None \<Rightarrow> s
                | Some h \<Rightarrow>
                    if wh_company h \<in> set (w_deleted s) then setDelivery i abandon s
                    else if assertSafeWebhookUrl ne dns (wh_url h) \<noteq> None then setDelivery i abandon s
                    else (let (successful, code) = resultOf r; n = Suc (wd_attempts d)
                          in setDelivery i (\<lambda>x. x\<lparr>wd_status := (if successful then WdSuccess else WdFailed), wd_code := code,
                                wd_attempts := n, wd_nextRetry := nextRetryAt (w_now s) successful n (wd_max d),
                                wd_completed := (if successful then Some (w_now s) else None)\<rparr>)
                              (s\<lparr>w_posts := w_posts s @ [\<lparr>ps_delivery = i, ps_url = wh_url h, ps_event = wd_event d,
                                 ps_body = wd_body d, ps_signature = ne_hmac ne (wh_secret h) (wd_body d)\<rparr>]\<rparr>))))"

text \<open>The jobs the schedule puts into the queue.\<close>

definition enqueueFailedDeliveries :: "wstate \<Rightarrow> nat list" where
  "enqueueFailedDeliveries s =
     map wd_id (filter (\<lambda>d. wd_status d = WdFailed
         \<and> (case wd_nextRetry d of Some t \<Rightarrow> t \<le> w_now s | None \<Rightarrow> False)
         \<and> (case hookById (wd_webhook d) s of Some h \<Rightarrow> wh_company h \<notin> set (w_deleted s) | None \<Rightarrow> False)
         \<and> wd_attempts d < wd_max d) (w_rows s))"


subsection \<open>The filter of IPv4 addresses\<close>

lemma digitChar: "d < 10 \<Longrightarrow> isDigit (digitChar d) \<and> digitVal (digitChar d) = int d \<and> digitChar d \<noteq> CHR ''.''"
proof -
  assume d: "d < 10"
  then have "(of_char (digitChar d) :: nat) = 48 + d" by (simp add: digitChar_def)
  moreover have "(of_char (CHR ''.'') :: nat) = 46" by simp
  ultimately show ?thesis using d by (auto simp: isDigit_def digitVal_def)
qed

lemma parse_digits:
  "parseInt10 [x] = digitVal x" "parseInt10 [x, y] = 10 * digitVal x + digitVal y"
  "parseInt10 [x, y, z] = 100 * digitVal x + 10 * digitVal y + digitVal z"
  by (simp_all add: parseInt10_def)

lemma showByte_octet:
  assumes "n < 256"
  shows "octet (showByte n) = Some (int n)" and "CHR ''.'' \<notin> set (showByte n)"
proof -
  have q: "n div 100 < 10" "n div 10 mod 10 < 10" "n mod 10 < 10" and q10: "n < 100 \<Longrightarrow> n div 10 < 10" using assms by auto
  have "n div 100 = n div 10 div 10" by (simp flip: div_mult2_eq)
  moreover have "10 * (n div 10) + n mod 10 = n" "10 * (n div 10 div 10) + n div 10 mod 10 = n div 10" by simp_all
  ultimately have "100 * (n div 100) + 10 * (n div 10 mod 10) + n mod 10 = n" by linarith
  from arg_cong [OF this, of int]
  have three: "100 * int (n div 100) + 10 * int (n div 10 mod 10) + int (n mod 10) = int n"
    by (simp only: of_nat_add of_nat_mult of_nat_numeral)
  have "10 * (n div 10) + n mod 10 = n" by simp
  from arg_cong [OF this, of int]
  have two: "10 * int (n div 10) + int (n mod 10) = int n" by (simp only: of_nat_add of_nat_mult of_nat_numeral)
  have "list_all isDigit (showByte n) \<and> parseInt10 (showByte n) = int n"
  proof (cases "n < 10")
    case True
    then show ?thesis using digitChar [OF True] by (simp add: showByte_def parse_digits)
  next
    case False
    show ?thesis
    proof (cases "n < 100")
      case True
      then show ?thesis using False digitChar [OF q10 [OF True]] digitChar [OF q(3)] two
        by (simp add: showByte_def parse_digits del: of_nat_div of_nat_mod)
    next
      case big: False
      then show ?thesis using False digitChar [OF q(1)] digitChar [OF q(2)] digitChar [OF q(3)] three
        by (simp add: showByte_def parse_digits)
    qed
  qed
  with assms show "octet (showByte n) = Some (int n)" by (simp add: octet_def)
  show "CHR ''.'' \<notin> set (showByte n)"
    using digitChar [OF q(1)] digitChar [OF q(2)] digitChar [OF q(3)] digitChar [OF q10] digitChar [of n]
    by (auto simp: showByte_def)
qed

lemma splitOn_join:
  "sep \<notin> set w \<Longrightarrow> splitOn sep (w @ sep # rest) = w # splitOn sep rest"
  by (induction w) auto

lemma splitOn_single: "sep \<notin> set w \<Longrightarrow> splitOn sep w = [w]"
  by (induction w) auto

definition address :: "nat \<Rightarrow> nat \<Rightarrow> nat \<Rightarrow> nat \<Rightarrow> 32 word" where
  "address a b c d = word_of_nat (a * 2 ^ 24 + b * 2 ^ 16 + c * 2 ^ 8 + d)"

lemma push_or_byte:
  fixes x :: nat
  assumes "x < 2 ^ 24" and "v < 256"
  shows "push_bit 8 (word_of_nat x) OR word_of_int (int v) = (word_of_nat (x * 256 + v) :: 32 word)"
proof -
  have "push_bit 8 (word_of_nat x) AND word_of_int (int v) = (0 :: 32 word)"
  proof (rule bit_word_eqI)
    fix n assume n: "n < LENGTH(32)"
    have "\<not> bit (int v) n" if "8 \<le> n"
    proof -
      have "(2::int) ^ 8 \<le> 2 ^ n" using that by (rule power_increasing) simp
      moreover have "int v < 2 ^ 8" using assms(2) by simp
      ultimately have "int v < 2 ^ n" by linarith
      then show ?thesis by (simp add: bit_iff_odd)
    qed
    then show "bit (push_bit 8 (word_of_nat x) AND word_of_int (int v) :: 32 word) n = bit (0 :: 32 word) n"
      by (auto simp: bit_and_iff bit_push_bit_iff bit_word_of_int_iff simp del: of_int_of_nat_eq)
  qed
  then have "push_bit 8 (word_of_nat x) OR word_of_int (int v) = (push_bit 8 (word_of_nat x) + word_of_int (int v) :: 32 word)"
    by (rule disjunctive_add_eq_or [symmetric])
  also have "\<dots> = word_of_nat (x * 256 + v)" by (simp add: push_bit_eq_mult)
  finally show ?thesis .
qed

text \<open>An address printed in decimal is read back.\<close>

lemma ipv4_roundtrip:
  assumes "a < 256" "b < 256" "c < 256" "d < 256"
  shows "ipv4ToInt (dotted a b c d) = Some (address a b c d)"
proof -
  note n = showByte_octet(2) [OF assms(1)] showByte_octet(2) [OF assms(2)] showByte_octet(2) [OF assms(3)] showByte_octet(2) [OF assms(4)]
  have parts: "splitOn (CHR ''.'') (dotted a b c d) = [showByte a, showByte b, showByte c, showByte d]"
    using n by (simp add: dotted_def splitOn_join splitOn_single)
  have r1: "push_bit 8 0 OR word_of_int (int a) = (word_of_nat a :: 32 word)" using push_or_byte [of 0 a] assms by simp
  have r2: "push_bit 8 (word_of_nat a) OR word_of_int (int b) = (word_of_nat (a * 256 + b) :: 32 word)"
    using push_or_byte [of a b] assms by simp
  have r3: "push_bit 8 (word_of_nat (a * 256 + b)) OR word_of_int (int c) = (word_of_nat ((a * 256 + b) * 256 + c) :: 32 word)"
    by (rule push_or_byte) (use assms in simp_all)
  have r4: "push_bit 8 (word_of_nat ((a * 256 + b) * 256 + c)) OR word_of_int (int d)
      = (word_of_nat (((a * 256 + b) * 256 + c) * 256 + d) :: 32 word)"
    by (rule push_or_byte) (use assms in simp_all)
  have sum: "((a * 256 + b) * 256 + c) * 256 + d = a * 2 ^ 24 + b * 2 ^ 16 + c * 2 ^ 8 + d" by simp
  show ?thesis
    unfolding ipv4ToInt_def parts Let_def using showByte_octet(1) assms
    by (simp only: foldOctets.simps option.case r1 r2 r3 r4 sum address_def) simp
qed


lemma cidr_div:
  assumes "0 < bits" "bits \<le> 32"
  shows "cidrMatches x y bits \<longleftrightarrow> unat x div 2 ^ (32 - bits) = unat y div 2 ^ (32 - bits)"
proof -
  let ?k = "32 - bits"
  have high: "w AND push_bit ?k 0xffffffff = push_bit ?k (drop_bit ?k w)" for w :: "32 word"
  proof (rule bit_word_eqI)
    fix n assume n: "n < LENGTH(32)"
    have ones: "(0xffffffff :: 32 word) = - 1" by simp
    show "bit (w AND push_bit ?k 0xffffffff) n = bit (push_bit ?k (drop_bit ?k w)) n"
      unfolding ones using n by (auto simp: bit_and_iff bit_push_bit_iff bit_drop_bit_eq bit_not_iff bit_mask_iff)
  qed
  have inverse: "drop_bit ?k (push_bit ?k (drop_bit ?k w)) = drop_bit ?k w" for w :: "32 word"
    by (rule bit_word_eqI) (auto simp: bit_push_bit_iff bit_drop_bit_eq dest: bit_imp_le_length)
  have "cidrMatches x y bits \<longleftrightarrow> push_bit ?k (drop_bit ?k x) = push_bit ?k (drop_bit ?k y)"
  proof -
    have "bits \<noteq> 0" using assms(1) by simp
    then show ?thesis by (simp only: cidrMatches_def Let_def high if_False)
  qed
  also have "\<dots> \<longleftrightarrow> drop_bit ?k x = drop_bit ?k y" using inverse by metis
  also have "\<dots> \<longleftrightarrow> unat (drop_bit ?k x) = unat (drop_bit ?k y)" by (simp add: word_unat_eq_iff)
  also have "\<dots> \<longleftrightarrow> unat x div 2 ^ ?k = unat y div 2 ^ ?k" unfolding unat_drop_bit_eq by (simp only: drop_bit_eq_div)
  finally show ?thesis .
qed

lemma address_unat:
  assumes "a < 256" "b < 256" "c < 256" "d < 256"
  shows "unat (address a b c d) = a * 2 ^ 24 + b * 2 ^ 16 + c * 2 ^ 8 + d"
proof -
  have self: "unat (word_of_nat n :: 32 word) = n" if "n < 2 ^ 32" for n
    using that by (simp add: unsigned_of_nat take_bit_nat_eq_self)
  have "a * 2 ^ 24 + b * 2 ^ 16 + c * 2 ^ 8 + d < 2 ^ 32" using assms by simp
  then show ?thesis unfolding address_def by (rule self)
qed

text \<open>The addresses that must stay out of reach, as conditions on the octets.\<close>

definition reserved :: "nat \<Rightarrow> nat \<Rightarrow> nat \<Rightarrow> bool" where
  "reserved a b c \<longleftrightarrow>
     a = 0 \<or> a = 10 \<or> a = 127 \<or> 224 \<le> a
     \<or> a = 100 \<and> 64 \<le> b \<and> b < 128
     \<or> a = 169 \<and> b = 254
     \<or> a = 172 \<and> 16 \<le> b \<and> b < 32
     \<or> a = 192 \<and> (b = 0 \<and> (c = 0 \<or> c = 2) \<or> b = 168)
     \<or> a = 198 \<and> (b = 18 \<or> b = 19 \<or> b = 51 \<and> c = 100)
     \<or> a = 203 \<and> b = 0 \<and> c = 113"

lemma block_match:
  assumes "a < 256" "b < 256" "c < 256" "d < 256" and "e < 256" "f < 256" "g < 256" and "0 < bits" "bits \<le> 32"
  shows "(case ipv4ToInt (dotted e f g 0) of Some base \<Rightarrow> cidrMatches (address a b c d) base bits | None \<Rightarrow> False)
    \<longleftrightarrow> (a * 2 ^ 24 + b * 2 ^ 16 + c * 2 ^ 8 + d) div 2 ^ (32 - bits) = (e * 2 ^ 24 + f * 2 ^ 16 + g * 2 ^ 8) div 2 ^ (32 - bits)"
  using assms by (simp add: ipv4_roundtrip cidr_div address_unat)

lemma digits_eq:
  fixes a u n :: nat
  assumes "u < n" and "v < n"
  shows "a * n + u = k * n + v \<longleftrightarrow> a = k \<and> u = v"
proof
  assume eq: "a * n + u = k * n + v"
  have "(a * n + u) div n = a" "(k * n + v) div n = k" using assms by simp_all
  then have "a = k" using eq by simp
  with eq show "a = k \<and> u = v" by simp
qed simp

lemma octet_pairs:
  fixes a b c u :: nat
  shows "b < 256 \<Longrightarrow> e < 256 \<Longrightarrow> a * 256 + b = k * 256 + e \<longleftrightarrow> a = k \<and> b = e"
    and "b < 256 \<Longrightarrow> c < 256 \<Longrightarrow> e < 256 \<Longrightarrow> h < 256 \<Longrightarrow>
      a * 65536 + b * 256 + c = k * 65536 + e * 256 + h \<longleftrightarrow> a = k \<and> b = e \<and> c = h"
    and "u < 4 \<Longrightarrow> v < 4 \<Longrightarrow> a * 4 + u = k * 4 + v \<longleftrightarrow> a = k \<and> u = v"
    and "u < 16 \<Longrightarrow> v < 16 \<Longrightarrow> a * 16 + u = k * 16 + v \<longleftrightarrow> a = k \<and> u = v"
    and "u < 128 \<Longrightarrow> v < 128 \<Longrightarrow> a * 128 + u = k * 128 + v \<longleftrightarrow> a = k \<and> u = v"
proof -
  show "b < 256 \<Longrightarrow> e < 256 \<Longrightarrow> a * 256 + b = k * 256 + e \<longleftrightarrow> a = k \<and> b = e" by (rule digits_eq)
  show "u < 4 \<Longrightarrow> v < 4 \<Longrightarrow> a * 4 + u = k * 4 + v \<longleftrightarrow> a = k \<and> u = v" by (rule digits_eq)
  show "u < 16 \<Longrightarrow> v < 16 \<Longrightarrow> a * 16 + u = k * 16 + v \<longleftrightarrow> a = k \<and> u = v" by (rule digits_eq)
  show "u < 128 \<Longrightarrow> v < 128 \<Longrightarrow> a * 128 + u = k * 128 + v \<longleftrightarrow> a = k \<and> u = v" by (rule digits_eq)
  assume small: "b < 256" "c < 256" "e < 256" "h < 256"
  have "a * 65536 + b * 256 + c = k * 65536 + e * 256 + h \<longleftrightarrow> (a * 256 + b) * 256 + c = (k * 256 + e) * 256 + h"
    by (simp add: distrib_right mult.commute)
  also have "\<dots> \<longleftrightarrow> a * 256 + b = k * 256 + e \<and> c = h" by (rule digits_eq [OF small(2,4)])
  also have "a * 256 + b = k * 256 + e \<longleftrightarrow> a = k \<and> b = e" by (rule digits_eq [OF small(1,3)])
  finally show "a * 65536 + b * 256 + c = k * 65536 + e * 256 + h \<longleftrightarrow> a = k \<and> b = e \<and> c = h" by simp
qed

lemma octet_div:
  fixes b :: nat
  shows "b div 64 = 1 \<longleftrightarrow> 64 \<le> b \<and> b < 128" "b div 16 = 1 \<longleftrightarrow> 16 \<le> b \<and> b < 32" "b div 2 = 9 \<longleftrightarrow> b = 18 \<or> b = 19"
    "a div 16 = (14::nat) \<longleftrightarrow> 224 \<le> a \<and> a < 240" "a < 256 \<Longrightarrow> a div 16 = (15::nat) \<longleftrightarrow> 240 \<le> a"
  by auto

text \<open>C31. The filter of addresses is exact: an IPv4 address in decimal notation, however the masks and shifts of 32
bits compute, is blocked exactly when it lies in one of the fourteen reserved ranges.\<close>

theorem ipv4_filter_is_exact:
  assumes "a < 256" and "b < 256" and "c < 256" and "d < 256"
  shows "isBlockedV4 (dotted a b c d) \<longleftrightarrow> reserved a b c"
proof -
  note m = block_match [OF assms]
  have d8: "(a * 2 ^ 24 + b * 2 ^ 16 + c * 2 ^ 8 + d) div 2 ^ 24 = a"
    and d16: "(a * 2 ^ 24 + b * 2 ^ 16 + c * 2 ^ 8 + d) div 2 ^ 16 = a * 256 + b"
    and d24: "(a * 2 ^ 24 + b * 2 ^ 16 + c * 2 ^ 8 + d) div 2 ^ 8 = a * 65536 + b * 256 + c"
    and d10: "(a * 2 ^ 24 + b * 2 ^ 16 + c * 2 ^ 8 + d) div 2 ^ 22 = a * 4 + b div 64"
    and d12: "(a * 2 ^ 24 + b * 2 ^ 16 + c * 2 ^ 8 + d) div 2 ^ 20 = a * 16 + b div 16"
    and d15: "(a * 2 ^ 24 + b * 2 ^ 16 + c * 2 ^ 8 + d) div 2 ^ 17 = a * 128 + b div 2"
    and d4: "(a * 2 ^ 24 + b * 2 ^ 16 + c * 2 ^ 8 + d) div 2 ^ 28 = a div 16"
    using assms by simp_all
  let ?M = "\<lambda>e f g bits. case ipv4ToInt (dotted e f g 0) of Some base \<Rightarrow> cidrMatches (address a b c d) base bits | None \<Rightarrow> False"
  have e1: "?M 0 0 0 8 \<longleftrightarrow> a = 0" using m [of 0 0 0 8] d8 by simp
  have e2: "?M 10 0 0 8 \<longleftrightarrow> a = 10" using m [of 10 0 0 8] d8 by simp
  have e3: "?M 100 64 0 10 \<longleftrightarrow> a = 100 \<and> 64 \<le> b \<and> b < 128"
  proof -
    have "?M 100 64 0 10 \<longleftrightarrow> a * 4 + b div 64 = 401" using m [of 100 64 0 10] d10 by simp
    also have "\<dots> \<longleftrightarrow> a = 100 \<and> 64 \<le> b \<and> b < 128" using assms octet_pairs(3) [where k = 100 and v = 1 and a = a and u = "b div 64"] octet_div by simp
    finally show ?thesis .
  qed
  have e4: "?M 127 0 0 8 \<longleftrightarrow> a = 127" using m [of 127 0 0 8] d8 by simp
  have e5: "?M 169 254 0 16 \<longleftrightarrow> a = 169 \<and> b = 254"
  proof -
    have "?M 169 254 0 16 \<longleftrightarrow> a * 256 + b = 43518" using m [of 169 254 0 16] d16 by simp
    also have "\<dots> \<longleftrightarrow> a = 169 \<and> b = 254" using assms octet_pairs(1) [where k = 169 and e = 254 and a = a and b = b] by simp
    finally show ?thesis .
  qed
  have e6: "?M 172 16 0 12 \<longleftrightarrow> a = 172 \<and> 16 \<le> b \<and> b < 32"
  proof -
    have "?M 172 16 0 12 \<longleftrightarrow> a * 16 + b div 16 = 2753" using m [of 172 16 0 12] d12 by simp
    also have "\<dots> \<longleftrightarrow> a = 172 \<and> 16 \<le> b \<and> b < 32" using assms octet_pairs(4) [where k = 172 and v = 1 and a = a and u = "b div 16"] octet_div by simp
    finally show ?thesis .
  qed
  have e7: "?M 192 0 0 24 \<longleftrightarrow> a = 192 \<and> b = 0 \<and> c = 0"
  proof -
    have "?M 192 0 0 24 \<longleftrightarrow> a * 65536 + b * 256 + c = 12582912" using m [of 192 0 0 24] d24 by simp
    also have "\<dots> \<longleftrightarrow> a = 192 \<and> b = 0 \<and> c = 0" using assms octet_pairs(2) [where k = 192 and e = 0 and h = 0 and a = a and b = b and c = c] by simp
    finally show ?thesis .
  qed
  have e8: "?M 192 0 2 24 \<longleftrightarrow> a = 192 \<and> b = 0 \<and> c = 2"
  proof -
    have "?M 192 0 2 24 \<longleftrightarrow> a * 65536 + b * 256 + c = 12582914" using m [of 192 0 2 24] d24 by simp
    also have "\<dots> \<longleftrightarrow> a = 192 \<and> b = 0 \<and> c = 2" using assms octet_pairs(2) [where k = 192 and e = 0 and h = 2 and a = a and b = b and c = c] by simp
    finally show ?thesis .
  qed
  have e9: "?M 192 168 0 16 \<longleftrightarrow> a = 192 \<and> b = 168"
  proof -
    have "?M 192 168 0 16 \<longleftrightarrow> a * 256 + b = 49320" using m [of 192 168 0 16] d16 by simp
    also have "\<dots> \<longleftrightarrow> a = 192 \<and> b = 168" using assms octet_pairs(1) [where k = 192 and e = 168 and a = a and b = b] by simp
    finally show ?thesis .
  qed
  have e10: "?M 198 18 0 15 \<longleftrightarrow> a = 198 \<and> (b = 18 \<or> b = 19)"
  proof -
    have "?M 198 18 0 15 \<longleftrightarrow> a * 128 + b div 2 = 25353" using m [of 198 18 0 15] d15 by simp
    also have "\<dots> \<longleftrightarrow> a = 198 \<and> (b = 18 \<or> b = 19)" using assms octet_pairs(5) [where k = 198 and v = 9 and a = a and u = "b div 2"] octet_div by simp
    finally show ?thesis .
  qed
  have e11: "?M 198 51 100 24 \<longleftrightarrow> a = 198 \<and> b = 51 \<and> c = 100"
  proof -
    have "?M 198 51 100 24 \<longleftrightarrow> a * 65536 + b * 256 + c = 12989284" using m [of 198 51 100 24] d24 by simp
    also have "\<dots> \<longleftrightarrow> a = 198 \<and> b = 51 \<and> c = 100" using assms octet_pairs(2) [where k = 198 and e = 51 and h = 100 and a = a and b = b and c = c] by simp
    finally show ?thesis .
  qed
  have e12: "?M 203 0 113 24 \<longleftrightarrow> a = 203 \<and> b = 0 \<and> c = 113"
  proof -
    have "?M 203 0 113 24 \<longleftrightarrow> a * 65536 + b * 256 + c = 13303921" using m [of 203 0 113 24] d24 by simp
    also have "\<dots> \<longleftrightarrow> a = 203 \<and> b = 0 \<and> c = 113" using assms octet_pairs(2) [where k = 203 and e = 0 and h = 113 and a = a and b = b and c = c] by simp
    finally show ?thesis .
  qed
  have e13: "?M 224 0 0 4 \<longleftrightarrow> 224 \<le> a \<and> a < 240"
  proof -
    have "?M 224 0 0 4 \<longleftrightarrow> a div 16 = 14" using m [of 224 0 0 4] d4 by simp
    also have "\<dots> \<longleftrightarrow> 224 \<le> a \<and> a < 240" using assms octet_div by simp
    finally show ?thesis .
  qed
  have e14: "?M 240 0 0 4 \<longleftrightarrow> 240 \<le> a"
  proof -
    have "?M 240 0 0 4 \<longleftrightarrow> a div 16 = 15" using m [of 240 0 0 4] d4 by simp
    also have "\<dots> \<longleftrightarrow> 240 \<le> a" using assms octet_div by simp
    finally show ?thesis .
  qed
  have "isBlockedV4 (dotted a b c d) \<longleftrightarrow>
      ?M 0 0 0 8 \<or> ?M 10 0 0 8 \<or> ?M 100 64 0 10 \<or> ?M 127 0 0 8 \<or> ?M 169 254 0 16 \<or> ?M 172 16 0 12 \<or> ?M 192 0 0 24
      \<or> ?M 192 0 2 24 \<or> ?M 192 168 0 16 \<or> ?M 198 18 0 15 \<or> ?M 198 51 100 24 \<or> ?M 203 0 113 24 \<or> ?M 224 0 0 4 \<or> ?M 240 0 0 4"
    by (simp only: isBlockedV4_def ipv4_roundtrip [OF assms] option.case BLOCKED_V4_CIDRS_def list_ex_Cons_iff list_ex_Nil_iff prod.case simp_thms)
  moreover have "224 \<le> a \<and> a < 240 \<or> 240 \<le> a \<longleftrightarrow> 224 \<le> a" by auto
  ultimately show ?thesis
    unfolding e1 e2 e3 e4 e5 e6 e7 e8 e9 e10 e11 e12 e13 e14 reserved_def by argo
qed

lemma ipv4_filter_is_exact_witness:
  "isBlockedV4 (dotted 169 254 169 254) \<and> \<not> isBlockedV4 (dotted 169 253 169 254)"
  using ipv4_filter_is_exact [of 169 254 169 254] ipv4_filter_is_exact [of 169 253 169 254] by (simp add: reserved_def)

subsection \<open>Runs of the service\<close>

text \<open>What holds of a start and is kept by each step holds along every run; it may speak of the events so far.\<close>

locale run_invariant =
  fixes advance :: "'s \<Rightarrow> 'e \<Rightarrow> 's" and start :: 's and holds :: "'e list \<Rightarrow> 's \<Rightarrow> bool"
  assumes initially: "holds [] start"
    and kept: "holds es s \<Longrightarrow> holds (es @ [e]) (advance s e)"
begin

lemma along: "holds es (foldl advance start es)"
  by (induction es rule: rev_induct) (simp_all add: initially kept)

end


text \<open>A job of the queue runs for any delivery at any time: the jobs that the schedule puts there are among them.\<close>

datatype wh_event =
    HookCreated resolver string ident string "string list" "string option"
  | HookUpdated resolver ident nat webhook_dto
  | HookRemoved ident nat
  | HookToggled ident nat
  | HookTested resolver http_outcome string ident nat
  | Dispatched "(resolver \<times> http_outcome) list" string ident string
  | Retried resolver http_outcome nat
  | CompanyDeleted ident
  | ClockAt ms

fun hookStep :: "net_env \<Rightarrow> wstate \<Rightarrow> wh_event \<Rightarrow> wstate" where
  "hookStep ne s (HookCreated dns fresh company url events secret) = snd (createHook ne dns fresh company url events secret s)"
| "hookStep ne s (HookUpdated dns company i dto) = snd (updateHook ne dns company i dto s)"
| "hookStep ne s (HookRemoved company i) = snd (removeHook company i s)"
| "hookStep ne s (HookToggled company i) = snd (toggleHook company i s)"
| "hookStep ne s (HookTested dns r body company i) = snd (sendTest ne dns r body company i s)"
| "hookStep ne s (Dispatched xs event company body) = dispatchEvent ne xs event company body s"
| "hookStep ne s (Retried dns r i) = processRetry ne dns r i s"
| "hookStep ne s (CompanyDeleted company) = s\<lparr>w_deleted := company # w_deleted s\<rparr>"
| "hookStep ne s (ClockAt t) = s\<lparr>w_now := t\<rparr>"

definition noHooks :: wstate where
  "noHooks = \<lparr>w_now = 0, w_hooks = [], w_deleted = [], w_rows = [], w_nextRow = 0, w_nextHook = 0, w_posts = []\<rparr>"

definition hookRun :: "net_env \<Rightarrow> wh_event list \<Rightarrow> wstate" where
  "hookRun ne evs = foldl (hookStep ne) noHooks evs"

text \<open>What a company gave: the addresses and the secrets of its webhooks, and the events of its deliveries.\<close>

fun gaveUrl :: "ident \<Rightarrow> string \<Rightarrow> wh_event \<Rightarrow> bool" where
  "gaveUrl c url (HookCreated dns fresh company u events secret) \<longleftrightarrow> company = c \<and> u = url"
| "gaveUrl c url (HookUpdated dns company i dto) \<longleftrightarrow> company = c \<and> wo_url dto = Some url"
| "gaveUrl c url _ \<longleftrightarrow> False"

fun gaveSecret :: "ident \<Rightarrow> string \<Rightarrow> wh_event \<Rightarrow> bool" where
  "gaveSecret c k (HookCreated dns fresh company u events secret) \<longleftrightarrow> company = c \<and> (k = fresh \<or> secret = Some k)"
| "gaveSecret c k (HookUpdated dns company i dto) \<longleftrightarrow> company = c \<and> wo_secret dto = Some k"
| "gaveSecret c k _ \<longleftrightarrow> False"

fun caused :: "ident \<Rightarrow> string \<Rightarrow> string \<Rightarrow> wh_event \<Rightarrow> bool" where
  "caused c event body (Dispatched xs e company b) \<longleftrightarrow> company = c \<and> e = event \<and> b = body"
| "caused c event body (HookTested dns r b company i) \<longleftrightarrow> company = c \<and> event = ''test.ping'' \<and> b = body"
| "caused c event body _ \<longleftrightarrow> False"

definition hookOk :: "wh_event list \<Rightarrow> webhook \<Rightarrow> bool" where
  "hookOk evs h \<longleftrightarrow> list_ex (gaveUrl (wh_company h) (wh_url h)) evs \<and> list_ex (gaveSecret (wh_company h) (wh_secret h)) evs"

definition postOk :: "net_env \<Rightarrow> wh_event list \<Rightarrow> post \<Rightarrow> bool" where
  "postOk ne evs p \<longleftrightarrow>
     (\<exists>c k. list_ex (caused c (ps_event p) (ps_body p)) evs \<and> list_ex (gaveUrl c (ps_url p)) evs
        \<and> list_ex (gaveSecret c k) evs \<and> ps_signature p = ne_hmac ne k (ps_body p))"

definition ownersOk :: "net_env \<Rightarrow> wh_event list \<Rightarrow> wstate \<Rightarrow> bool" where
  "ownersOk ne evs s \<longleftrightarrow>
     (\<forall>h \<in> set (w_hooks s). wh_id h < w_nextHook s \<and> hookOk evs h)
     \<and> distinct (map wh_id (w_hooks s))
     \<and> (\<forall>d \<in> set (w_rows s). wd_webhook d < w_nextHook s
          \<and> (\<forall>h \<in> set (w_hooks s). wh_id h = wd_webhook d \<longrightarrow> list_ex (caused (wh_company h) (wd_event d) (wd_body d)) evs))
     \<and> (\<forall>p \<in> set (w_posts s). postOk ne evs p)"

lemma hookById_in: "hookById i s = Some h \<Longrightarrow> h \<in> set (w_hooks s) \<and> wh_id h = i"
  by (auto simp: hookById_def find_Some_iff)

lemma hookOf_in: "hookOf c i s = Some h \<Longrightarrow> h \<in> set (w_hooks s) \<and> wh_id h = i \<and> wh_company h = c"
  by (auto simp: hookOf_def find_Some_iff)

lemma rowById_in: "rowById i s = Some d \<Longrightarrow> d \<in> set (w_rows s) \<and> wd_id d = i"
  by (auto simp: rowById_def find_Some_iff)

lemma same_hook:
  assumes "distinct (map wh_id (w_hooks s))" and "h \<in> set (w_hooks s)" and "k \<in> set (w_hooks s)" and "wh_id h = wh_id k"
  shows "h = k"
  using assms by (metis distinct_map inj_onD)

lemma ownersOk_mono: "ownersOk ne evs s \<Longrightarrow> ownersOk ne (evs @ later) s"
  unfolding ownersOk_def hookOk_def postOk_def by (auto simp: list_ex_append) blast+

text \<open>What the other operations leave of the state: the webhooks shrink or keep their owners.\<close>

lemma ownersOk_I:
  assumes "ownersOk ne evs s" and "w_nextHook t = w_nextHook s" and "set (w_hooks t) \<subseteq> set (w_hooks s)"
    and "distinct (map wh_id (w_hooks t))" and "set (w_rows t) \<subseteq> set (w_rows s)" and "w_posts t = w_posts s"
  shows "ownersOk ne evs t"
  using assms unfolding ownersOk_def by (metis subsetD)

text \<open>A delivery that goes out posts once and leaves a row for the post.\<close>

definition sentPost :: "net_env \<Rightarrow> webhook \<Rightarrow> nat \<Rightarrow> string \<Rightarrow> string \<Rightarrow> post" where
  "sentPost ne h row event body =
     \<lparr>ps_delivery = row, ps_url = wh_url h, ps_event = event, ps_body = body, ps_signature = ne_hmac ne (wh_secret h) body\<rparr>"

lemma deliver_cases:
  obtains "snd (deliver ne dns r i event body s) = s"
  | h d where "hookById i s = Some h" and "wd_id d = w_nextRow s" and "wd_webhook d = i" and "wd_event d = event"
      and "wd_body d = body" and "wd_attempts d = 1" and "wd_max d = 5"
      and "snd (deliver ne dns r i event body s) =
        s\<lparr>w_posts := w_posts s @ [sentPost ne h (w_nextRow s) event body], w_nextRow := Suc (w_nextRow s), w_rows := w_rows s @ [d]\<rparr>"
proof (cases "hookById i s")
  case None
  then show ?thesis using that(1) by (simp add: deliver_def)
next
  case (Some h)
  show ?thesis
  proof (cases "assertSafeWebhookUrl ne dns (wh_url h) = None")
    case False
    then show ?thesis using that(1) Some by (simp add: deliver_def)
  next
    case True
    define d where "d = \<lparr>wd_id = w_nextRow s, wd_webhook = i, wd_event = event, wd_body = body,
      wd_status = (if fst (resultOf r) then WdSuccess else WdFailed), wd_code = snd (resultOf r), wd_attempts = 1, wd_max = 5,
      wd_nextRetry = nextRetryAt (w_now s) (fst (resultOf r)) 1 5, wd_completed = None\<rparr>"
    show ?thesis
      by (rule that(2) [of h d]) (use Some True in \<open>simp_all add: deliver_def d_def sentPost_def Let_def split: prod.split\<close>)
  qed
qed

lemma sentPost_ok:
  "hookOk evs h \<Longrightarrow> list_ex (caused (wh_company h) event body) evs \<Longrightarrow> postOk ne evs (sentPost ne h row event body)"
  unfolding postOk_def hookOk_def sentPost_def post.select_convs by blast

lemma deliver_ownersOk:
  assumes ok: "ownersOk ne evs s" and cause: "\<And>h. h \<in> set (w_hooks s) \<Longrightarrow> wh_id h = i \<Longrightarrow> list_ex (caused (wh_company h) event body) evs"
  shows "ownersOk ne evs (snd (deliver ne dns r i event body s))"
proof (cases rule: deliver_cases [of ne dns r i event body s])
  case (2 h d)
  note h = hookById_in [OF 2(1)]
  have own: "hookOk evs h" "i < w_nextHook s" using ok h unfolding ownersOk_def by auto
  have post: "postOk ne evs (sentPost ne h (w_nextRow s) event body)" using own(1) cause h by (blast intro: sentPost_ok)
  show ?thesis using ok own(2) cause post 2(2-7) unfolding 2(8) ownersOk_def by simp
qed (use ok in simp)

lemma deliver_hooks [simp]: "w_hooks (snd (deliver ne dns r i event body s)) = w_hooks s"
  by (cases rule: deliver_cases [of ne dns r i event body s]) simp_all

lemma deliverAll_ownersOk:
  assumes "ownersOk ne evs s" and "\<And>h. h \<in> set (w_hooks s) \<Longrightarrow> wh_id h \<in> set is \<Longrightarrow> list_ex (caused (wh_company h) event body) evs"
  shows "ownersOk ne evs (deliverAll ne xs is event body s)"
  using assms
proof (induction ne xs "is" event body s rule: deliverAll.induct)
  case (3 ne dns r xs i "is" event body s)
  have "ownersOk ne evs (snd (deliver ne dns r i event body s))" using 3(2,3) by (intro deliver_ownersOk) auto
  then show ?case using 3 by simp
qed simp_all

text \<open>A retry posts at most once: it leaves the state, gives the delivery up, or posts and counts.\<close>

lemma processRetry_cases:
  obtains "processRetry ne dns r i s = s"
  | d where "rowById i s = Some d" and "processRetry ne dns r i s = setDelivery i abandon s"
  | d h f where "rowById i s = Some d" and "wd_status d \<noteq> WdSuccess" and "wd_attempts d < wd_max d"
      and "hookById (wd_webhook d) s = Some h" and "wh_company h \<notin> set (w_deleted s)"
      and "\<And>x. wd_id (f x) = wd_id x \<and> wd_webhook (f x) = wd_webhook x \<and> wd_event (f x) = wd_event x \<and> wd_body (f x) = wd_body x
             \<and> wd_attempts (f x) = Suc (wd_attempts d) \<and> wd_max (f x) = wd_max x"
      and "processRetry ne dns r i s =
        setDelivery i f (s\<lparr>w_posts := w_posts s @ [sentPost ne h i (wd_event d) (wd_body d)]\<rparr>)"
proof (cases "rowById i s")
  case None
  then show ?thesis using that(1) by (simp add: processRetry_def)
next
  case d: (Some d)
  show ?thesis
  proof (cases "wd_status d = WdSuccess \<or> wd_max d \<le> wd_attempts d \<or> hookById (wd_webhook d) s = None")
    case True
    then show ?thesis using that(1) d by (auto simp: processRetry_def)
  next
    case False
    then obtain h where h: "hookById (wd_webhook d) s = Some h" by blast
    show ?thesis
    proof (cases "wh_company h \<in> set (w_deleted s) \<or> assertSafeWebhookUrl ne dns (wh_url h) \<noteq> None")
      case True
      then show ?thesis using that(2) [OF d] d h False by (auto simp: processRetry_def)
    next
      case fine: False
      define f where "f = (\<lambda>x :: wh_delivery. x\<lparr>wd_status := (if fst (resultOf r) then WdSuccess else WdFailed), wd_code := snd (resultOf r),
          wd_attempts := Suc (wd_attempts d), wd_nextRetry := nextRetryAt (w_now s) (fst (resultOf r)) (Suc (wd_attempts d)) (wd_max d),
          wd_completed := (if fst (resultOf r) then Some (w_now s) else None)\<rparr>)"
      show ?thesis
        by (rule that(3) [of d h f])
          (use d h False fine in \<open>simp_all add: processRetry_def f_def sentPost_def Let_def split: prod.split\<close>)
    qed
  qed
qed

lemma setDelivery_ownersOk:
  assumes "ownersOk ne evs t" and "\<And>d. wd_webhook (f d) = wd_webhook d \<and> wd_event (f d) = wd_event d \<and> wd_body (f d) = wd_body d"
  shows "ownersOk ne evs (setDelivery i f t)"
  using assms unfolding ownersOk_def setDelivery_def by auto

lemma processRetry_ownersOk:
  assumes ok: "ownersOk ne evs s"
  shows "ownersOk ne evs (processRetry ne dns r i s)"
proof (cases rule: processRetry_cases [of ne dns r i s])
  case (2 d)
  show ?thesis unfolding 2(2) by (rule setDelivery_ownersOk [OF ok]) (simp add: abandon_def)
next
  case (3 d h f)
  have own: "hookOk evs h" "list_ex (caused (wh_company h) (wd_event d) (wd_body d)) evs"
    using ok hookById_in [OF 3(4)] rowById_in [OF 3(1)] unfolding ownersOk_def by auto
  have "postOk ne evs (sentPost ne h i (wd_event d) (wd_body d))" using own by (rule sentPost_ok)
  then have "ownersOk ne evs (s\<lparr>w_posts := w_posts s @ [sentPost ne h i (wd_event d) (wd_body d)]\<rparr>)"
    using ok unfolding ownersOk_def by simp
  then show ?thesis unfolding 3(7) by (rule setDelivery_ownersOk) (use 3(6) in simp)
qed (use ok in simp)

lemma dispatch_ownersOk:
  assumes "ownersOk ne evs s"
  shows "ownersOk ne (evs @ [Dispatched xs event company body]) (dispatchEvent ne xs event company body s)"
  unfolding dispatchEvent_def
proof (rule deliverAll_ownersOk [OF ownersOk_mono [OF assms]])
  fix h assume h: "h \<in> set (w_hooks s)" "wh_id h \<in> set (subscribed event company s)"
  then obtain k where "k \<in> set (w_hooks s)" "wh_id k = wh_id h" "wh_company k = company" by (auto simp: subscribed_def)
  then have "wh_company h = company" using same_hook h(1) assms unfolding ownersOk_def by metis
  then show "list_ex (caused (wh_company h) event body) (evs @ [Dispatched xs event company body])" by simp
qed

lemma test_ownersOk:
  assumes "ownersOk ne evs s"
  shows "ownersOk ne (evs @ [HookTested dns r body company i]) (snd (sendTest ne dns r body company i s))"
proof (cases "hookOf company i s")
  case None
  then show ?thesis using ownersOk_mono [OF assms] by (simp add: sendTest_def)
next
  case (Some h)
  note h = hookOf_in [OF this]
  have "ownersOk ne (evs @ [HookTested dns r body company i]) (snd (deliver ne dns r (wh_id h) ''test.ping'' body s))"
  proof (rule deliver_ownersOk [OF ownersOk_mono [OF assms]])
    fix k assume "k \<in> set (w_hooks s)" "wh_id k = wh_id h"
    then have "k = h" using same_hook h assms unfolding ownersOk_def by metis
    then show "list_ex (caused (wh_company k) ''test.ping'' body) (evs @ [HookTested dns r body company i])" using h by simp
  qed
  then show ?thesis
    by (cases "deliver ne dns r (wh_id h) ''test.ping'' body s") (simp add: sendTest_def Some)
qed

lemma create_ownersOk:
  assumes ok: "ownersOk ne evs s"
  shows "ownersOk ne (evs @ [HookCreated dns fresh company url events secret]) (snd (createHook ne dns fresh company url events secret s))"
proof (cases "assertSafeWebhookUrl ne dns url")
  case None
  let ?evs = "evs @ [HookCreated dns fresh company url events secret]"
  let ?h = "\<lparr>wh_id = w_nextHook s, wh_company = company, wh_url = url,
      wh_secret = (case secret of Some k \<Rightarrow> if k = [] then fresh else k | None \<Rightarrow> fresh), wh_events = events, wh_active = True\<rparr>"
  have s': "snd (createHook ne dns fresh company url events secret s) = s\<lparr>w_hooks := w_hooks s @ [?h], w_nextHook := Suc (w_nextHook s)\<rparr>"
    using None by (simp add: createHook_def Let_def)
  have "hookOk ?evs ?h" by (auto simp: hookOk_def list_ex_append split: option.split)
  moreover have "ownersOk ne ?evs s" using ok by (rule ownersOk_mono)
  ultimately show ?thesis unfolding s' ownersOk_def by (auto simp: less_SucI)
next
  case (Some e)
  then show ?thesis using ownersOk_mono [OF ok] by (simp add: createHook_def)
qed

lemma setHook_ownersOk:
  assumes ok: "ownersOk ne evs s" and more: "\<And>h. h \<in> set (w_hooks s) \<Longrightarrow> wh_id h = i \<Longrightarrow> hookOk (evs @ [e]) (f h)"
    and same: "\<And>h. wh_id (f h) = wh_id h \<and> wh_company (f h) = wh_company h"
  shows "ownersOk ne (evs @ [e]) (setHook i f s)"
proof -
  note later = ownersOk_mono [OF ok, of "[e]"]
  have "map wh_id (w_hooks (setHook i f s)) = map wh_id (w_hooks s)" using same by (auto simp: setHook_def)
  moreover have "\<forall>h \<in> set (w_hooks (setHook i f s)). wh_id h < w_nextHook s \<and> hookOk (evs @ [e]) h"
    using later more same unfolding ownersOk_def by (auto simp: setHook_def)
  moreover have "\<forall>h \<in> set (w_hooks (setHook i f s)). \<exists>k \<in> set (w_hooks s). wh_id k = wh_id h \<and> wh_company k = wh_company h"
    using same by (auto simp: setHook_def)
  moreover have "w_rows (setHook i f s) = w_rows s" "w_posts (setHook i f s) = w_posts s" "w_nextHook (setHook i f s) = w_nextHook s"
    by (simp_all add: setHook_def)
  ultimately show ?thesis using later unfolding ownersOk_def by metis
qed

lemma update_ownersOk:
  assumes ok: "ownersOk ne evs s"
  shows "ownersOk ne (evs @ [HookUpdated dns company i dto]) (snd (updateHook ne dns company i dto s))"
proof (cases "hookOf company i s")
  case None
  then show ?thesis using ownersOk_mono [OF ok] by (simp add: updateHook_def)
next
  case (Some h)
  note h = hookOf_in [OF this]
  have "ownersOk ne (evs @ [HookUpdated dns company i dto]) (setHook i (applyHookDto dto) s)"
  proof (rule setHook_ownersOk [OF ok])
    fix k assume k: "k \<in> set (w_hooks s)" "wh_id k = i"
    have "hookOk evs k" using ok k unfolding ownersOk_def by blast
    moreover have "wh_company k = company" using k h same_hook ok unfolding ownersOk_def by metis
    ultimately show "hookOk (evs @ [HookUpdated dns company i dto]) (applyHookDto dto k)"
      by (auto simp: hookOk_def applyHookDto_def list_ex_append nullish_def split: option.split)
  qed (simp add: applyHookDto_def)
  then show ?thesis using ownersOk_mono [OF ok] by (simp add: updateHook_def Some split: option.split)
qed

lemma toggle_ownersOk:
  assumes ok: "ownersOk ne evs s"
  shows "ownersOk ne (evs @ [HookToggled company i]) (snd (toggleHook company i s))"
proof (cases "hookOf company i s")
  case None
  then show ?thesis using ownersOk_mono [OF ok] by (simp add: toggleHook_def)
next
  case (Some h)
  have "ownersOk ne (evs @ [HookToggled company i]) (setHook i (\<lambda>x. x\<lparr>wh_active := \<not> wh_active h\<rparr>) s)"
    by (rule setHook_ownersOk [OF ok]) (use ok in \<open>auto simp: ownersOk_def hookOk_def list_ex_append\<close>)
  then show ?thesis by (simp add: toggleHook_def Some)
qed

lemma remove_ownersOk:
  assumes ok: "ownersOk ne evs s"
  shows "ownersOk ne (evs @ [HookRemoved company i]) (snd (removeHook company i s))"
  by (rule ownersOk_I [OF ownersOk_mono [OF ok]])
    (use ok in \<open>auto simp: removeHook_def ownersOk_def distinct_map_filter split: option.split\<close>)

lemma hookStep_ownersOk: "ownersOk ne evs s \<Longrightarrow> ownersOk ne (evs @ [e]) (hookStep ne s e)"
proof (cases e)
  case (Retried dns r i)
  assume "ownersOk ne evs s"
  then show ?thesis unfolding Retried hookStep.simps by (rule ownersOk_mono [OF processRetry_ownersOk])
next
  case (CompanyDeleted company)
  assume "ownersOk ne evs s"
  then show ?thesis using ownersOk_mono [of ne evs s "[e]"] unfolding CompanyDeleted by (simp add: ownersOk_def)
next
  case (ClockAt t)
  assume "ownersOk ne evs s"
  then show ?thesis using ownersOk_mono [of ne evs s "[e]"] unfolding ClockAt by (simp add: ownersOk_def)
qed (simp_all add: create_ownersOk update_ownersOk remove_ownersOk toggle_ownersOk test_ownersOk dispatch_ownersOk)

interpretation owners: run_invariant "hookStep ne" noHooks "ownersOk ne" for ne
proof unfold_locales
  show "ownersOk ne [] noHooks" by (simp add: noHooks_def ownersOk_def)
qed (rule hookStep_ownersOk)

lemma hookRun_ownersOk: "ownersOk ne evs (hookRun ne evs)"
  unfolding hookRun_def by (rule owners.along)

text \<open>C15. Every call a webhook makes stays with one company: whatever the order of creations, changes, removals, tests,
events, retries and deletions of companies, a POST carries an event of a company to an address which that same
company gave, signed with a secret of that company.\<close>

theorem posts_stay_in_the_company:
  assumes "p \<in> set (w_posts (hookRun ne evs))"
  shows "\<exists>c k. list_ex (caused c (ps_event p) (ps_body p)) evs \<and> list_ex (gaveUrl c (ps_url p)) evs
    \<and> list_ex (gaveSecret c k) evs \<and> ps_signature p = ne_hmac ne k (ps_body p)"
  using assms hookRun_ownersOk [of ne evs] unfolding ownersOk_def postOk_def by blast

definition aNet :: net_env where
  "aNet = \<lparr>ne_isIPv4 = (\<lambda>ip. isQuad ip), ne_isIPv6 = (\<lambda>ip. CHR '':'' \<in> set ip),
     ne_parse = (\<lambda>u. if hasPrefix ''https://'' u then Some (''https:'', drop 8 u) else None), ne_hmac = (\<lambda>k b. k @ b)\<rparr>"

definition publicDns :: resolver where "publicDns host = ([], [''2606:4700::1111''])"

text \<open>Two companies; the call for the first fails and the retry of the delivery goes through.\<close>

definition twoCompanies :: "wh_event list" where
  "twoCompanies =
     [HookCreated publicDns ''s1'' ''acme'' ''https://a'' [''delivery.delivered''] None,
      HookCreated publicDns ''s2'' ''rival'' ''https://b'' [''delivery.delivered''] None,
      Dispatched [(publicDns, Replied 500)] ''delivery.delivered'' ''acme'' ''{}'',
      Retried publicDns (Replied 200) 0]"

lemma twoCompanies_posts:
  "w_posts (hookRun aNet twoCompanies) =
     [\<lparr>ps_delivery = 0, ps_url = ''https://a'', ps_event = ''delivery.delivered'', ps_body = ''{}'', ps_signature = ''s1{}''\<rparr>,
      \<lparr>ps_delivery = 0, ps_url = ''https://a'', ps_event = ''delivery.delivered'', ps_body = ''{}'', ps_signature = ''s1{}''\<rparr>]"
  by code_simp

lemma posts_stay_in_the_company_witness:
  "\<exists>c k. list_ex (caused c ''delivery.delivered'' ''{}'') twoCompanies \<and> list_ex (gaveUrl c ''https://a'') twoCompanies
    \<and> list_ex (gaveSecret c k) twoCompanies \<and> ''s1{}'' = ne_hmac aNet k ''{}''"
  using posts_stay_in_the_company [of "hd (w_posts (hookRun aNet twoCompanies))" aNet twoCompanies]
  by (simp add: twoCompanies_posts)

subsection \<open>How often a delivery is called\<close>

definition calls :: "nat \<Rightarrow> wstate \<Rightarrow> nat" where
  "calls i s = length (filter (\<lambda>p. ps_delivery p = i) (w_posts s))"

definition countsOk :: "wstate \<Rightarrow> bool" where
  "countsOk s \<longleftrightarrow>
     (\<forall>d \<in> set (w_rows s). wd_id d < w_nextRow s \<and> wd_max d = 5 \<and> wd_attempts d \<le> 5 \<and> calls (wd_id d) s = wd_attempts d)
     \<and> distinct (map wd_id (w_rows s))
     \<and> (\<forall>i. calls i s \<le> 5) \<and> (\<forall>i. w_nextRow s \<le> i \<longrightarrow> calls i s = 0)"

lemma same_row:
  assumes "countsOk s" and "d \<in> set (w_rows s)" and "x \<in> set (w_rows s)" and "wd_id d = wd_id x"
  shows "d = x"
  using assms unfolding countsOk_def by (metis distinct_map inj_onD)

lemma countsOk_I:
  assumes "countsOk s" and "set (w_rows t) \<subseteq> set (w_rows s)" and "distinct (map wd_id (w_rows t))"
    and "w_nextRow t = w_nextRow s" and "w_posts t = w_posts s"
  shows "countsOk t"
  using assms unfolding countsOk_def calls_def by auto

lemma calls_sent: "w_posts t = w_posts s @ [sentPost ne h n event body] \<Longrightarrow> calls i t = (if i = n then Suc (calls i s) else calls i s)"
  by (simp add: calls_def sentPost_def)

lemma deliver_countsOk:
  assumes ok: "countsOk s"
  shows "countsOk (snd (deliver ne dns r i event body s))"
proof (cases rule: deliver_cases [of ne dns r i event body s])
  case (2 h d)
  let ?t = "s\<lparr>w_posts := w_posts s @ [sentPost ne h (w_nextRow s) event body], w_nextRow := Suc (w_nextRow s), w_rows := w_rows s @ [d]\<rparr>"
  have c: "calls j ?t = (if j = w_nextRow s then Suc (calls j s) else calls j s)" for j by (rule calls_sent) simp
  have z: "calls (w_nextRow s) s = 0" using ok unfolding countsOk_def by blast
  have old: "\<forall>x \<in> set (w_rows s). wd_id x < w_nextRow s" using ok unfolding countsOk_def by blast
  have "countsOk ?t"
    unfolding countsOk_def c using ok z old 2(2,6,7) unfolding countsOk_def by (auto simp: less_SucI)
  then show ?thesis unfolding 2(8) .
qed (use ok in simp)

lemma deliverAll_countsOk: "countsOk s \<Longrightarrow> countsOk (deliverAll ne xs is event body s)"
  by (induction ne xs "is" event body s rule: deliverAll.induct) (simp_all add: deliver_countsOk)

lemma processRetry_countsOk:
  assumes ok: "countsOk s"
  shows "countsOk (processRetry ne dns r i s)"
proof (cases rule: processRetry_cases [of ne dns r i s])
  case (2 d)
  have "map wd_id (w_rows (setDelivery i abandon s)) = map wd_id (w_rows s)" by (auto simp: setDelivery_def abandon_def)
  moreover have "calls j (setDelivery i abandon s) = calls j s" for j by (simp add: calls_def setDelivery_def)
  moreover have "w_nextRow (setDelivery i abandon s) = w_nextRow s" by (simp add: setDelivery_def)
  moreover have "\<exists>x \<in> set (w_rows s). wd_id y = wd_id x \<and> wd_max y = wd_max x \<and> wd_attempts y = wd_attempts x"
    if "y \<in> set (w_rows (setDelivery i abandon s))" for y
    using that by (auto simp: setDelivery_def abandon_def)
  ultimately show ?thesis unfolding 2(2) using ok unfolding countsOk_def by metis
next
  case (3 d h f)
  let ?u = "s\<lparr>w_posts := w_posts s @ [sentPost ne h i (wd_event d) (wd_body d)]\<rparr>"
  let ?t = "setDelivery i f ?u"
  have d: "d \<in> set (w_rows s)" "wd_id d = i" using rowById_in [OF 3(1)] by auto
  have c: "calls j ?t = (if j = i then Suc (calls j s) else calls j s)" for j
    by (rule calls_sent [where n = i and ne = ne and h = h and event = "wd_event d" and body = "wd_body d"]) (simp add: setDelivery_def)
  have at: "calls i s = wd_attempts d" "wd_attempts d < 5" "i < w_nextRow s" using ok d 3(3) unfolding countsOk_def by auto
  have ids: "map wd_id (w_rows ?t) = map wd_id (w_rows s)" using 3(6) by (auto simp: setDelivery_def)
  have row: "wd_id y < w_nextRow s \<and> wd_max y = 5 \<and> wd_attempts y \<le> 5 \<and> calls (wd_id y) ?t = wd_attempts y"
    if "y \<in> set (w_rows ?t)" for y
  proof -
    from that obtain x where x: "x \<in> set (w_rows s)" "y = (if wd_id x = i then f x else x)" by (auto simp: setDelivery_def)
    show ?thesis
    proof (cases "wd_id x = i")
      case True
      then have "x = d" using same_row [OF ok x(1) d(1)] d(2) by simp
      then show ?thesis using x ok at d 3(6) c unfolding countsOk_def by simp
    next
      case False
      then show ?thesis using x ok c unfolding countsOk_def by simp
    qed
  qed
  have "countsOk ?t"
    unfolding countsOk_def ids c using row [unfolded c] ok at by (auto simp: countsOk_def setDelivery_def)
  then show ?thesis unfolding 3(7) .
qed (use ok in simp)

lemma updateHook_rows: "w_rows (snd (updateHook ne dns c i dto s)) = w_rows s" "w_posts (snd (updateHook ne dns c i dto s)) = w_posts s"
  "w_nextRow (snd (updateHook ne dns c i dto s)) = w_nextRow s"
  by (simp_all add: updateHook_def setHook_def split: option.split)

lemma createHook_rows: "w_rows (snd (createHook ne dns f c u es k s)) = w_rows s" "w_posts (snd (createHook ne dns f c u es k s)) = w_posts s"
  "w_nextRow (snd (createHook ne dns f c u es k s)) = w_nextRow s"
  by (simp_all add: createHook_def Let_def split: option.split)

lemma toggleHook_rows: "w_rows (snd (toggleHook c i s)) = w_rows s" "w_posts (snd (toggleHook c i s)) = w_posts s"
  "w_nextRow (snd (toggleHook c i s)) = w_nextRow s"
  by (simp_all add: toggleHook_def setHook_def split: option.split)

lemma removeHook_rows: "w_posts (snd (removeHook c i s)) = w_posts s" "w_nextRow (snd (removeHook c i s)) = w_nextRow s"
  "w_rows (snd (removeHook c i s)) = w_rows s \<or> w_rows (snd (removeHook c i s)) = filter (\<lambda>d. wd_webhook d \<noteq> i) (w_rows s)"
  by (simp_all add: removeHook_def split: option.split)

lemmas table_frames = updateHook_rows createHook_rows toggleHook_rows removeHook_rows(1,2)

lemma sendTest_state: "snd (sendTest ne dns r body c i s) = s \<or> (\<exists>j. snd (sendTest ne dns r body c i s) = snd (deliver ne dns r j ''test.ping'' body s))"
proof (cases "hookOf c i s")
  case (Some h)
  then show ?thesis by (cases "deliver ne dns r (wh_id h) ''test.ping'' body s") (auto simp: sendTest_def intro!: exI [of _ "wh_id h"])
qed (simp add: sendTest_def)

lemma hookStep_countsOk:
  assumes ok: "countsOk s"
  shows "countsOk (hookStep ne s e)"
proof (cases e)
  case (HookRemoved c i)
  have "distinct (map wd_id (w_rows s))" using ok unfolding countsOk_def by blast
  then have "distinct (map wd_id (w_rows (snd (removeHook c i s))))" "set (w_rows (snd (removeHook c i s))) \<subseteq> set (w_rows s)"
    using removeHook_rows(3) [of c i s] by (auto simp: distinct_map_filter)
  then show ?thesis unfolding HookRemoved hookStep.simps by (intro countsOk_I [OF ok]) (simp_all add: removeHook_rows)
next
  case (HookTested dns r body c i)
  then show ?thesis using sendTest_state [of ne dns r body c i s] deliver_countsOk [OF ok] ok by auto
qed (use ok in \<open>auto simp: dispatchEvent_def deliverAll_countsOk processRetry_countsOk table_frames countsOk_def [of s]
      intro!: countsOk_I [OF ok]\<close>)

interpretation counts: run_invariant "hookStep ne" noHooks "\<lambda>_. countsOk" for ne
proof unfold_locales
  show "countsOk noHooks" by (simp add: noHooks_def countsOk_def calls_def)
qed (rule hookStep_countsOk)

lemma hookRun_countsOk: "countsOk (hookRun ne evs)"
  unfolding hookRun_def by (rule counts.along)

text \<open>C32. A delivery is called at most five times, the first attempt included, whatever the order of events and
whoever runs its retries; and the count that its row keeps is the number of calls.\<close>

theorem delivery_calls_are_bounded:
  "calls i (hookRun ne evs) \<le> 5
    \<and> list_all (\<lambda>d. wd_attempts d = calls (wd_id d) (hookRun ne evs)) (w_rows (hookRun ne evs))"
  using hookRun_countsOk [of ne evs] unfolding countsOk_def by (simp add: list_all_iff)

subsection \<open>What the checks let through or lose\<close>


text \<open>A webhook after a first call that failed; the resolver is down at the retry.\<close>

definition failedOnce :: wstate where "failedOnce = hookRun aNet (take 3 twoCompanies)"

definition deadDns :: resolver where "deadDns host = ([], [])"

lemma failedOnce_state:
  "w_rows failedOnce = [\<lparr>wd_id = 0, wd_webhook = 0, wd_event = ''delivery.delivered'', wd_body = ''{}'', wd_status = WdFailed,
     wd_code = 500, wd_attempts = 1, wd_max = 5, wd_nextRetry = Some 120000, wd_completed = None\<rparr>]"
  "hookById 0 failedOnce = Some \<lparr>wh_id = 0, wh_company = ''acme'', wh_url = ''https://a'', wh_secret = ''s1'',
     wh_events = [''delivery.delivered''], wh_active = True\<rparr>"
  unfolding failedOnce_def by code_simp+


text \<open>The filter of IPv6 addresses tests prefixes of the text, not ranges: of the link-local range fe80::/10 it
blocks the addresses written with fe80 only, and it knows an IPv4 address inside an IPv6 one in the dotted notation or
after ::ffff:, not in a translation prefix, so that the loopback address passes as a NAT64 or 6to4 address.\<close>

theorem ipv6_filter_has_gaps:
  "isBlockedV6 ''fe80::1'' \<and> \<not> isBlockedV6 ''febf::1''
    \<and> \<not> isBlockedV6 ''64:ff9b::7f00:1'' \<and> \<not> isBlockedV6 ''2002:7f00:1::1''
    \<and> isBlockedV6 ''::1'' \<and> isBlockedV6 ''fd12::1''"
  by code_simp

end
