(* ===== verification/Spec2Isabelle.thy ===== *)
theory Spec2Isabelle
  imports GroundSpeed FilteredDistance Teleport GpsQuality Anchor RouteMatch Telemetry Delivery_Api Auth_Token Auth_Login Auth_Relay Tracking_Admission Tracking_Silence Tracking_Feed Phone_Delivery Map_Marker Kalman Billing Webhooks
begin

text \<open>
  Delivery and fleet tracking service: a model of its backend core, of the phone that feeds it and of the map that shows it.

  The program (\<open>src/backend\<close>, TypeScript on NestJS, and \<open>src/frontend\<close>) lets companies plan deliveries, follow the
  vehicles that carry them and account for their fuel. Requests reach controllers, guards decide
  who may call what, services read and write a relational database through Prisma, and a
  key-value store (Redis) holds what must be shared and forgotten quickly. Phones and GPS trackers
  send positions; pure functions under \<open>common/geo\<close> decide how far to believe them.

  Theories and what they model

  \<^item> \<open>DT_Prelude\<close>: numbers as JavaScript has them where it matters (\<open>jsnum\<close>), milliseconds,
    rounding, nullish values, the collections \<open>frame_simps\<close> and friends.
  \<^item> \<open>Geo\<close>, \<open>GroundSpeed\<close>, \<open>StopWindows\<close>, \<open>FilteredDistance\<close>: \<open>common/geo/geo.utils.ts\<close>.
    Coordinates and distances are real numbers; the sphere satisfies the locale
    \<open>geo_metric\<close>, and \<open>chords\<close> proofs use only its laws.
  \<^item> \<open>Teleport\<close>, \<open>GpsQuality\<close>, \<open>Anchor\<close>, \<open>RouteMatch\<close>, \<open>Telemetry\<close>: the other files of
    \<open>common/geo\<close> with the state that \<open>traccar-bridge.service.ts\<close> keeps for them (the wake
    quarantine, the stored attributes).
  \<^item> \<open>Delivery_Data\<close>: rows of the deliveries, drivers and vehicles, the transition matrix, the
    state \<open>dstate\<close> (tables and an outbox of notifications, webhooks and jobs), the abstract
    step \<open>rowStep\<close> every endpoint refines and the locale \<open>delivery_endpoint\<close> that states it.
  \<^item> \<open>Delivery_Status\<close>: \<open>updateDriverStatus\<close>, \<open>updateStatus\<close>, the proof of location, and the
    step relation \<open>wstep\<close> in which reads and writes of different requests interleave.
  \<^item> \<open>Delivery_Admin\<close>, \<open>Delivery_Tour\<close>, \<open>Delivery_Import\<close>: the other operations of
    \<open>deliveries.service.ts\<close>. \<open>Pagination\<close> and \<open>Delivery_Api\<close>: query parsing, routes with their
    role guards, and sequences of requests (locale \<open>delivery_requests\<close>).
  \<^item> \<open>Auth_Data\<close>, \<open>Auth_Lockout\<close>, \<open>Auth_Session\<close>, \<open>Auth_Token\<close>, \<open>Auth_Login\<close>, \<open>Auth_Relay\<close>: \<open>modules/auth\<close>: users,
    sessions, Redis keys, locks (locale \<open>lockout\<close>), token issue, rotation and revocation, the
    guard of the access tokens, and what bcrypt sees of a token.
  \<^item> \<open>Tracking_Data\<close>: rows of positions, drivers, vehicles, fences and settings, the cache with its
    lifetimes, the metrics and the state \<open>tstate\<close> of the tracking service.
  \<^item> \<open>Tracking_Alerts\<close>: speed, stop and delay alerts, geofence events, proximity with snooze and
    escalation (\<open>tracking.service.ts\<close>, \<open>geofence.service.ts\<close>, \<open>delivery-proximity.service.ts\<close>);
    \<open>Tracking_AlertLaws\<close> states the cooldowns as the locale \<open>throttled\<close> and proves them.
  \<^item> \<open>Tracking_Ingest\<close>: validation, flood limits, duplicates, teleportation, \<open>savePosition\<close> and
    \<open>saveBatch\<close>. \<open>Tracking_IngestLaws\<close> holds the locales \<open>position_path\<close> and \<open>path_pair\<close>, the
    contract both storage paths share; \<open>Tracking_IngestProps\<close> and \<open>Tracking_Admission\<close> the
    properties of what is stored, refused, retried and suspected.
  \<^item> \<open>Tracking_Silence\<close>: the monitor of silent vehicles with its journal and its view;
    \<open>Tracking_Live\<close>: live positions with the last good fix and the anchor of parked vehicles.
  \<^item> \<open>Tracking_Gateway\<close>: \<open>tracking.gateway.ts\<close> with its guard, rooms, answers and broadcasts, and
    the native upload route. \<open>Tracking_GatewayLaws\<close> and \<open>Tracking_Feed\<close>: each answer against the
    table, each broadcast against the live view, the company of each reader.
  \<^item> \<open>Phone_Queue\<close>, \<open>Phone_Delivery\<close>: \<open>frontend/src/services/offlineQueue.ts\<close> and the sending of
    \<open>frontend/src/hooks/useDriverTracking.ts\<close>, composed with the gateway: \<open>phoneStep\<close> steps the
    phone and the server over lost messages, lost answers, drains and other sockets.
  \<^item> \<open>Map_Vehicles\<close>, \<open>Map_Marker\<close>, \<open>Kalman\<close>: the live map of the front end
    (\<open>features/map/vehicleMap.ts\<close>, \<open>markerMotion.ts\<close>, \<open>animationTiming.ts\<close>, the marker of
    \<open>RealTimeMap.tsx\<close>, \<open>services/tracking/deadReckoning.ts\<close>, \<open>KalmanFilter.ts\<close>). \<open>wireUpdate\<close> and
    \<open>wireInput\<close> take what the gateway broadcasts and the routes answer to what the map merges, so that a
    live map and a reloaded one are compared through the whole chain.
  \<^item> \<open>Billing\<close>: \<open>modules/manual-billing\<close>, \<open>payment-proofs.service.ts\<close>, \<open>activation-code.util.ts\<close> and
    the guards of subscriptions and limits, over runs of events with their times.
  \<^item> \<open>Webhooks\<close>: \<open>modules/webhooks\<close> and \<open>queue/webhook-retry.processor.ts\<close>; addresses are words of 32
    bits. The invariants of runs are proved through the locale \<open>run_invariant\<close>.

  What the lemmas show

  Every delivery endpoint is proved to be a composition of \<open>rowStep\<close>s (a simulation of the
  abstract life of a row), and the properties of sequences of requests follow inside the locale
  once for all endpoints. The interleaving of requests is a step relation with invariants by rule
  induction. The geometric functions are proved against bounds and reference definitions. Where
  the code is found not to do what it means to do, the theorem states what it does.

  Conventions

  A table is a list of rows or a map from identifiers; a query with a \<open>where\<close> clause is \<open>find\<close> or
  \<open>filter\<close>; an error is the left side of a sum and carries a constructor per message; the clock
  and fresh identifiers are part of the state or arguments. Services of other parties (geocoder,
  route engine, bcrypt, the signing library, one-time passwords) are functions among the
  arguments, and what the proofs need of them is a named hypothesis that their documentation
  states. No definition uses fuel: every loop of the modelled code is structural or has a measure.

  Not modelled

  Floating point: distances and speeds are real numbers, so results that depend on rounding are
  not claimed. Emails, logs, metrics, the framework's wiring, SQL text, the web and Android front
  ends' rendering. Trip reports, the archive of positions, interruption and battery
  reports and the SMS relay of \<open>tracking.service.ts\<close>; of the rows the raw attributes column. The polling
  and the buffers of \<open>traccar-bridge.service.ts\<close> around the parts above. Fuel reports, digests, scores and
  maintenance, which aggregate stored rows. The payment providers behind \<open>billing.service.ts\<close>. The services
  that only create, read, update and delete rows (users, vehicles, companies, invitations, API keys). On
  the phone: acquisition of positions, timers and the screen. A handler runs as one step, except the
  status changes of \<open>Delivery_Status\<close>, whose reads and writes interleave; the alerts that handlers start
  without waiting for them run at their call.
\<close>

end
